(* ===== verification/Pty_Prelude.thy ===== *)
theory Pty_Prelude
  imports Main "HOL-Library.Word"
begin

section \<open>Prelude: machine types, hint collections, shared lemmas\<close>

text \<open>
  The integer types of the C code, the collections of hints the components share and the
  generic facts on words and lists their proofs use.
\<close>

subsection \<open>Machine integers\<close>

text \<open>\<open>uint8_t\<close>, \<open>unsigned short\<close>, \<open>uint32_t\<close> and \<open>uint64_t\<close> are words; a signed C integer is
  the same word read with \<open>sint\<close>.\<close>

type_synonym u8 = "8 word"
type_synonym u16 = "16 word"
type_synonym u32 = "32 word"
type_synonym u64 = "64 word"
type_synonym i32 = "32 word"
type_synonym i64 = "64 word"

subsection \<open>Hint collections\<close>

named_theorems pty_defs \<open>definitions of the operations, unfolded in invariant proofs\<close>
named_theorems pty_inv \<open>preservation facts of the operations\<close>
named_theorems word_nat \<open>reading word arithmetic that does not wrap as natural numbers\<close>

subsection \<open>Words read as natural numbers\<close>

lemma unat_add_no_wrap [word_nat]:
  fixes a b :: "'a::len word"
  assumes "unat a + unat b < 2 ^ LENGTH('a)"
  shows "unat (a + b) = unat a + unat b"
  using assms by (simp add: unat_word_ariths)

lemma unat_sub_no_wrap [word_nat]:
  fixes a b :: "'a::len word"
  assumes "unat b \<le> unat a"
  shows "unat (a - b) = unat a - unat b"
  using assms by (simp add: unat_sub word_le_nat_alt)

text \<open>The admission test of a byte window, in the shape the code writes it: three comparisons
  that never wrap.\<close>

lemma window_test:
  fixes queued inflight len limit :: "'a::len word"
  shows "(queued > limit \<or> inflight > limit - queued \<or> len > limit - queued - inflight)
    \<longleftrightarrow> unat limit < unat queued + unat inflight + unat len"
proof (cases "queued \<le> limit")
  case True
  then have q: "unat (limit - queued) = unat limit - unat queued" and qle: "unat queued \<le> unat limit"
    by (simp_all add: unat_sub word_le_nat_alt)
  show ?thesis
  proof (cases "inflight \<le> limit - queued")
    case True
    then have "unat (limit - queued - inflight) = unat limit - unat queued - unat inflight"
      and "unat inflight \<le> unat limit - unat queued"
      using q by (simp_all add: unat_sub word_le_nat_alt)
    then show ?thesis
      using True \<open>queued \<le> limit\<close> qle by (auto simp: word_less_nat_alt word_le_nat_alt q)
  next
    case False
    then show ?thesis
      using q qle by (auto simp: word_less_nat_alt word_le_nat_alt)
  qed
next
  case False
  then show ?thesis by (auto simp: word_less_nat_alt word_le_nat_alt)
qed

lemma unat_of_nat_less:
  assumes "n < 2 ^ LENGTH('a::len)"
  shows "unat (of_nat n :: 'a word) = n"
  using assms by (simp add: unat_of_nat take_bit_nat_eq_self)

lemma unat_u64_bound: "unat (w :: u64) < 2 ^ 64"
  using unsigned_less [of w] by simp

lemma unat_of_nat_less_64: "n < 2 ^ 64 \<Longrightarrow> unat (of_nat n :: u64) = n"
  by (simp add: unat_of_nat_less)

subsection \<open>Lists\<close>

lemma sum_list_update_nat:
  fixes f :: "'a \<Rightarrow> int"
  assumes "i < length xs"
  shows "(\<Sum>x\<leftarrow>xs[i := y]. f x) = (\<Sum>x\<leftarrow>xs. f x) - f (xs ! i) + f y"
  using assms
proof (induction xs arbitrary: i)
  case Nil
  then show ?case by simp
next
  case (Cons x xs)
  then show ?case by (cases i) simp_all
qed

lemma of_nat_sum_unat: "of_nat (\<Sum>x\<leftarrow>xs. unat (f x)) = (\<Sum>x\<leftarrow>xs. f x :: 'a::len word)"
  by (induction xs) simp_all

lemma takeWhile_append_stop:
  "(\<forall>x \<in> set xs. P x) \<Longrightarrow> \<not> P y \<Longrightarrow> takeWhile P (xs @ y # ys) = xs"
  by (induction xs) auto

end
