(* ===== verification/Pty_Error.thy ===== *)
theory Pty_Error
  imports Pty_Prelude
begin

section \<open>Errors and terminal sizes (common/pty_error.c, flutter_pty.h)\<close>

text \<open>
  The error structure every fallible entry point fills, the enumerations of its fields, and the
  size check and the casts into the kernel's size structures. A C string is the list of its
  characters before the terminating NUL; a NULL pointer is \<open>None\<close>.
\<close>

subsection \<open>Enumerations\<close>

datatype PtyErrorDomain =
    PTY_ERROR_DOMAIN_NONE | PTY_ERROR_DOMAIN_POSIX | PTY_ERROR_DOMAIN_WIN32
  | PTY_ERROR_DOMAIN_HRESULT | PTY_ERROR_DOMAIN_INTERNAL

primrec domain_value :: "PtyErrorDomain \<Rightarrow> i32" where
  "domain_value PTY_ERROR_DOMAIN_NONE = 0"
| "domain_value PTY_ERROR_DOMAIN_POSIX = 1"
| "domain_value PTY_ERROR_DOMAIN_WIN32 = 2"
| "domain_value PTY_ERROR_DOMAIN_HRESULT = 3"
| "domain_value PTY_ERROR_DOMAIN_INTERNAL = 4"

datatype PtyErrorKind =
    PTY_ERROR_NONE | PTY_ERROR_INVALID_ARGUMENT | PTY_ERROR_NOT_FOUND
  | PTY_ERROR_PERMISSION_DENIED | PTY_ERROR_SPAWN_FAILED | PTY_ERROR_WORKING_DIRECTORY
  | PTY_ERROR_IO | PTY_ERROR_CLOSED | PTY_ERROR_UNSUPPORTED | PTY_ERROR_OUT_OF_MEMORY
  | PTY_ERROR_INTERNAL

primrec kind_value :: "PtyErrorKind \<Rightarrow> i32" where
  "kind_value PTY_ERROR_NONE = 0"
| "kind_value PTY_ERROR_INVALID_ARGUMENT = 1"
| "kind_value PTY_ERROR_NOT_FOUND = 2"
| "kind_value PTY_ERROR_PERMISSION_DENIED = 3"
| "kind_value PTY_ERROR_SPAWN_FAILED = 4"
| "kind_value PTY_ERROR_WORKING_DIRECTORY = 5"
| "kind_value PTY_ERROR_IO = 6"
| "kind_value PTY_ERROR_CLOSED = 7"
| "kind_value PTY_ERROR_UNSUPPORTED = 8"
| "kind_value PTY_ERROR_OUT_OF_MEMORY = 9"
| "kind_value PTY_ERROR_INTERNAL = 10"

datatype PtyTryWriteResult =
  PTY_WRITE_ACCEPTED | PTY_WRITE_BACKPRESSURED | PTY_WRITE_CLOSED | PTY_WRITE_ERROR

text \<open>The error numbers of the C library the code names (the values of Linux).\<close>

abbreviation (input) ENOENT :: i32 where "ENOENT \<equiv> 2"
abbreviation (input) ESRCH :: i32 where "ESRCH \<equiv> 3"
abbreviation (input) EINTR :: i32 where "EINTR \<equiv> 4"
abbreviation (input) EIO :: i32 where "EIO \<equiv> 5"
abbreviation (input) EAGAIN :: i32 where "EAGAIN \<equiv> 11"
abbreviation (input) ENOMEM :: i32 where "ENOMEM \<equiv> 12"
abbreviation (input) EACCES :: i32 where "EACCES \<equiv> 13"
abbreviation (input) ENOTDIR :: i32 where "ENOTDIR \<equiv> 20"
abbreviation (input) EINVAL :: i32 where "EINVAL \<equiv> 22"
abbreviation (input) EPIPE :: i32 where "EPIPE \<equiv> 32"
abbreviation (input) ENAMETOOLONG :: i32 where "ENAMETOOLONG \<equiv> 36"
abbreviation (input) ENOBUFS :: i32 where "ENOBUFS \<equiv> 105"

subsection \<open>The error structure\<close>

record PtyError =
  pe_domain :: i32
  pe_kind :: i32
  pe_os_code :: i64
  pe_message :: string

text \<open>\<open>snprintf(buffer, size, "%s", text)\<close> keeps what fits beside the NUL.\<close>

definition snprintf_s :: "nat \<Rightarrow> string \<Rightarrow> string" where
  "snprintf_s n text = take (n - 1) text"

definition pty_error_clear :: "PtyError option \<Rightarrow> PtyError option" where
  "pty_error_clear error =
     (case error of
        None \<Rightarrow> None
      | Some _ \<Rightarrow> Some \<lparr>pe_domain = domain_value PTY_ERROR_DOMAIN_NONE,
                       pe_kind = kind_value PTY_ERROR_NONE, pe_os_code = 0, pe_message = []\<rparr>)"

definition pty_error_set ::
  "PtyError option \<Rightarrow> PtyErrorDomain \<Rightarrow> PtyErrorKind \<Rightarrow> i64 \<Rightarrow> string option \<Rightarrow> PtyError option" where
  "pty_error_set error d knd code msg =
     (case error of
        None \<Rightarrow> None
      | Some _ \<Rightarrow> Some \<lparr>pe_domain = domain_value d, pe_kind = kind_value knd, pe_os_code = code,
                       pe_message = (case msg of None \<Rightarrow> [] | Some m \<Rightarrow> snprintf_s 256 m)\<rparr>)"

text \<open>The text of \<open>strerror\<close> depends on the platform and its locale, so it is an argument.\<close>

definition pty_error_set_errno ::
  "(i32 \<Rightarrow> string) \<Rightarrow> PtyError option \<Rightarrow> PtyErrorKind \<Rightarrow> i32 \<Rightarrow> string option \<Rightarrow> PtyError option" where
  "pty_error_set_errno strerror error knd error_number msg =
     (let system_message = strerror error_number;
          detail = (if msg = None \<or> msg = Some [] then snprintf_s 256 system_message
                    else snprintf_s 256 (the msg @ '': '' @ system_message))
      in pty_error_set error PTY_ERROR_DOMAIN_POSIX knd (scast error_number) (Some detail))"

text \<open>A filled structure holds a known domain and kind (not the NONE values) and a message that
  leaves room for the NUL in \<open>char message[256]\<close>.\<close>

definition error_wf :: "PtyError \<Rightarrow> bool" where
  "error_wf e \<longleftrightarrow> 1 \<le> sint (pe_domain e) \<and> sint (pe_domain e) \<le> 4 \<and>
     1 \<le> sint (pe_kind e) \<and> sint (pe_kind e) \<le> 10 \<and> length (pe_message e) \<le> 255"

lemma domain_value_range:
  "d \<noteq> PTY_ERROR_DOMAIN_NONE \<longleftrightarrow> 1 \<le> sint (domain_value d) \<and> sint (domain_value d) \<le> 4"
  by (cases d) simp_all

lemma kind_value_range:
  "knd \<noteq> PTY_ERROR_NONE \<longleftrightarrow> 1 \<le> sint (kind_value knd) \<and> sint (kind_value knd) \<le> 10"
  by (cases knd) simp_all

lemma length_snprintf_s: "0 < n \<Longrightarrow> length (snprintf_s n text) < n"
  by (simp add: snprintf_s_def)

lemma snprintf_s_fits: "length text < n \<Longrightarrow> snprintf_s n text = text"
  by (simp add: snprintf_s_def)

lemma error_wf_set:
  assumes "d \<noteq> PTY_ERROR_DOMAIN_NONE" and "knd \<noteq> PTY_ERROR_NONE"
    and "pty_error_set error d knd code msg = Some e"
  shows "error_wf e"
proof -
  have "length (pe_message e) \<le> 255"
    using assms(3) by (auto simp: pty_error_set_def snprintf_s_def split: option.splits)
  moreover have "pe_domain e = domain_value d" and "pe_kind e = kind_value knd"
    using assms(3) by (auto simp: pty_error_set_def split: option.splits)
  ultimately show ?thesis
    using assms(1,2) domain_value_range [of d] kind_value_range [of knd] by (simp add: error_wf_def)
qed



subsection \<open>Terminal sizes\<close>

record PtySize =
  size_rows :: i32
  size_columns :: i32
  size_pixel_width :: i32
  size_pixel_height :: i32

definition pty_size_is_valid :: "PtySize \<Rightarrow> bool" where
  "pty_size_is_valid sz \<longleftrightarrow>
     1 \<le> sint (size_rows sz) \<and> sint (size_rows sz) \<le> 0x7fff \<and>
     1 \<le> sint (size_columns sz) \<and> sint (size_columns sz) \<le> 0x7fff \<and>
     0 \<le> sint (size_pixel_width sz) \<and> sint (size_pixel_width sz) \<le> 0xffff \<and>
     0 \<le> sint (size_pixel_height sz) \<and> sint (size_pixel_height sz) \<le> 0xffff"

text \<open>The kernel's \<open>struct winsize\<close> and the console's \<open>COORD\<close>, filled by narrowing casts.\<close>

record winsize =
  ws_row :: u16
  ws_col :: u16
  ws_xpixel :: u16
  ws_ypixel :: u16

definition winsize_of :: "PtySize \<Rightarrow> winsize" where
  "winsize_of sz =
     \<lparr>ws_row = ucast (size_rows sz), ws_col = ucast (size_columns sz),
      ws_xpixel = ucast (size_pixel_width sz), ws_ypixel = ucast (size_pixel_height sz)\<rparr>"

record COORD =
  coord_X :: u16
  coord_Y :: u16

definition coord_of :: "PtySize \<Rightarrow> COORD" where
  "coord_of sz = \<lparr>coord_X = ucast (size_columns sz), coord_Y = ucast (size_rows sz)\<rparr>"

lemma uint_ucast_16:
  fixes x :: i32
  assumes "0 \<le> sint x" and "sint x \<le> 0xffff"
  shows "uint (ucast x :: u16) = sint x"
proof -
  have "uint x = sint x"
    using assms by (subst uint_sint) (simp add: take_bit_int_eq_self)
  then show ?thesis
    using assms by (simp add: unsigned_ucast_eq take_bit_int_eq_self)
qed

lemma sint_ucast_16:
  fixes x :: i32
  assumes "0 \<le> sint x" and "sint x \<le> 0x7fff"
  shows "sint (ucast x :: u16) = sint x"
proof -
  have "uint (ucast x :: u16) = sint x"
    using uint_ucast_16 [of x] assms by simp
  then show ?thesis
    using assms by (subst sint_uint) (simp add: signed_take_bit_int_eq_self)
qed

text \<open>C12: a size that passes the check reaches the terminal unchanged: the narrowing casts to the
  four unsigned shorts of \<open>struct winsize\<close> and to the two signed shorts of \<open>COORD\<close> lose nothing.\<close>

theorem valid_size_casts_lossless:
  assumes "pty_size_is_valid sz"
  shows "uint (ws_row (winsize_of sz)) = sint (size_rows sz) \<and>
    uint (ws_col (winsize_of sz)) = sint (size_columns sz) \<and>
    uint (ws_xpixel (winsize_of sz)) = sint (size_pixel_width sz) \<and>
    uint (ws_ypixel (winsize_of sz)) = sint (size_pixel_height sz) \<and>
    sint (coord_X (coord_of sz)) = sint (size_columns sz) \<and>
    sint (coord_Y (coord_of sz)) = sint (size_rows sz)"
  using assms
  by (simp add: pty_size_is_valid_def winsize_of_def coord_of_def uint_ucast_16 sint_ucast_16)

theorem valid_size_casts_lossless_witness:
  "uint (ws_row (winsize_of \<lparr>size_rows = 24, size_columns = 0x7fff, size_pixel_width = 0xffff,
      size_pixel_height = 0\<rparr>)) = 24"
  using valid_size_casts_lossless [of "\<lparr>size_rows = 24, size_columns = 0x7fff,
      size_pixel_width = 0xffff, size_pixel_height = 0\<rparr>"]
  by (simp add: pty_size_is_valid_def)

end
