(* ===== verification/Pty_Event.thy ===== *)
theory Pty_Event
  imports Pty_Error
begin

section \<open>Native events and their Dart decoder (common/pty_event.c, native_event.dart)\<close>

text \<open>
  The messages the native side posts to the session's port, built field by field as the C code
  builds its \<open>Dart_CObject\<close> arrays, and the parser of the Dart side that reads them back. The
  function \<open>Dart_PostCObject_DL\<close> of the Dart VM is an argument \<open>post\<close> of every operation that
  posts.
\<close>

subsection \<open>Messages\<close>

datatype Dart_CObject =
    CObject_Int32 i32
  | CObject_Int64 i64
  | CObject_String string
  | CObject_Uint8List "u8 list"
  | CObject_Array "Dart_CObject list"

datatype PtyEventType =
    PTY_EVENT_SPAWNED | PTY_EVENT_SPAWN_FAILED | PTY_EVENT_OUTPUT | PTY_EVENT_OUTPUT_CLOSED
  | PTY_EVENT_WRITE_COMPLETE | PTY_EVENT_WRITABLE | PTY_EVENT_INPUT_CLOSED
  | PTY_EVENT_PROCESS_EXIT | PTY_EVENT_ASYNC_ERROR | PTY_EVENT_SESSION_CLOSED

primrec event_value :: "PtyEventType \<Rightarrow> i32" where
  "event_value PTY_EVENT_SPAWNED = 1"
| "event_value PTY_EVENT_SPAWN_FAILED = 2"
| "event_value PTY_EVENT_OUTPUT = 3"
| "event_value PTY_EVENT_OUTPUT_CLOSED = 4"
| "event_value PTY_EVENT_WRITE_COMPLETE = 5"
| "event_value PTY_EVENT_WRITABLE = 6"
| "event_value PTY_EVENT_INPUT_CLOSED = 7"
| "event_value PTY_EVENT_PROCESS_EXIT = 8"
| "event_value PTY_EVENT_ASYNC_ERROR = 9"
| "event_value PTY_EVENT_SESSION_CLOSED = 10"

type_synonym port = i64
type_synonym 'r poster = "port \<Rightarrow> Dart_CObject \<Rightarrow> 'r"

definition post_array :: "'r poster \<Rightarrow> port \<Rightarrow> Dart_CObject list \<Rightarrow> 'r" where
  "post_array post port values = post port (CObject_Array values)"

definition pty_post_simple_event :: "'r poster \<Rightarrow> port \<Rightarrow> PtyEventType \<Rightarrow> 'r" where
  "pty_post_simple_event post port event_type =
     post_array post port [CObject_Int32 (event_value event_type)]"

definition pty_post_spawned :: "'r poster \<Rightarrow> port \<Rightarrow> i64 \<Rightarrow> u64 \<Rightarrow> 'r" where
  "pty_post_spawned post port pid capabilities =
     post_array post port
       [CObject_Int32 (event_value PTY_EVENT_SPAWNED), CObject_Int64 pid,
        CObject_Int64 capabilities]"

text \<open>The four error fields, which three of the posting functions write alike.\<close>

definition error_fields :: "PtyError option \<Rightarrow> Dart_CObject list" where
  "error_fields error =
     [CObject_Int32 (case error of None \<Rightarrow> 0 | Some e \<Rightarrow> pe_domain e),
      CObject_Int32 (case error of None \<Rightarrow> 0 | Some e \<Rightarrow> pe_kind e),
      CObject_Int64 (case error of None \<Rightarrow> 0 | Some e \<Rightarrow> pe_os_code e),
      CObject_String (case error of None \<Rightarrow> [] | Some e \<Rightarrow> pe_message e)]"

definition pty_post_spawn_failed :: "'r poster \<Rightarrow> port \<Rightarrow> PtyError option \<Rightarrow> 'r" where
  "pty_post_spawn_failed post port error =
     post_array post port (CObject_Int32 (event_value PTY_EVENT_SPAWN_FAILED) # error_fields error)"

definition pty_post_output :: "'r poster \<Rightarrow> port \<Rightarrow> u8 list \<Rightarrow> 'r" where
  "pty_post_output post port bytes =
     post_array post port [CObject_Int32 (event_value PTY_EVENT_OUTPUT), CObject_Uint8List bytes]"

definition pty_post_write_complete :: "'r poster \<Rightarrow> port \<Rightarrow> u64 \<Rightarrow> 'r" where
  "pty_post_write_complete post port request_id =
     post_array post port
       [CObject_Int32 (event_value PTY_EVENT_WRITE_COMPLETE), CObject_Int64 request_id]"

definition pty_post_input_closed :: "'r poster \<Rightarrow> port \<Rightarrow> PtyError option \<Rightarrow> 'r" where
  "pty_post_input_closed post port error =
     post_array post port (CObject_Int32 (event_value PTY_EVENT_INPUT_CLOSED) # error_fields error)"

definition pty_post_process_exit :: "'r poster \<Rightarrow> port \<Rightarrow> bool \<Rightarrow> i64 \<Rightarrow> 'r" where
  "pty_post_process_exit post port signal_exit val =
     post_array post port
       [CObject_Int32 (event_value PTY_EVENT_PROCESS_EXIT),
        CObject_Int32 (if signal_exit then 1 else 0), CObject_Int64 val]"

definition pty_post_error :: "'r poster \<Rightarrow> port \<Rightarrow> PtyError option \<Rightarrow> 'r" where
  "pty_post_error post port error =
     post_array post port (CObject_Int32 (event_value PTY_EVENT_ASYNC_ERROR) # error_fields error)"

text \<open>An event as the session code hands it to one of these functions.\<close>

datatype pty_event =
    EvSpawned i64 u64
  | EvSpawnFailed PtyError
  | EvOutput "u8 list"
  | EvOutputClosed
  | EvWriteComplete u64
  | EvWritable
  | EvInputClosed PtyError
  | EvProcessExit bool i64
  | EvAsyncError PtyError
  | EvSessionClosed

primrec post_event :: "'r poster \<Rightarrow> port \<Rightarrow> pty_event \<Rightarrow> 'r" where
  "post_event post port (EvSpawned pid caps) = pty_post_spawned post port pid caps"
| "post_event post port (EvSpawnFailed e) = pty_post_spawn_failed post port (Some e)"
| "post_event post port (EvOutput bytes) = pty_post_output post port bytes"
| "post_event post port EvOutputClosed = pty_post_simple_event post port PTY_EVENT_OUTPUT_CLOSED"
| "post_event post port (EvWriteComplete r) = pty_post_write_complete post port r"
| "post_event post port EvWritable = pty_post_simple_event post port PTY_EVENT_WRITABLE"
| "post_event post port (EvInputClosed e) = pty_post_input_closed post port (Some e)"
| "post_event post port (EvProcessExit signaled val) = pty_post_process_exit post port signaled val"
| "post_event post port (EvAsyncError e) = pty_post_error post port (Some e)"
| "post_event post port EvSessionClosed = pty_post_simple_event post port PTY_EVENT_SESSION_CLOSED"

definition message_of :: "pty_event \<Rightarrow> Dart_CObject" where
  "message_of ev = post_event (\<lambda>_ m. m) 0 ev"

subsection \<open>The Dart side\<close>

text \<open>The VM turns both integer tags into a Dart \<open>int\<close>.\<close>

datatype dart_value =
    DartInt int | DartString string | DartUint8List "u8 list" | DartList "dart_value list"

primrec dart_receive :: "Dart_CObject \<Rightarrow> dart_value" where
  "dart_receive (CObject_Int32 w) = DartInt (sint w)"
| "dart_receive (CObject_Int64 w) = DartInt (sint w)"
| "dart_receive (CObject_String s) = DartString s"
| "dart_receive (CObject_Uint8List bs) = DartUint8List bs"
| "dart_receive (CObject_Array os) = DartList (map dart_receive os)"

datatype format_exception = FormatException

record PtyNativeError =
  ne_domain :: PtyErrorDomain
  ne_kind :: PtyErrorKind
  ne_code :: int
  ne_message :: string

datatype PtyExit = PtyExitCode int | PtySignalExit int

datatype NativeEvent =
    NativeSpawned int int
  | NativeSpawnFailed PtyNativeError
  | NativeOutput "u8 list"
  | NativeOutputClosed
  | NativeWriteComplete int
  | NativeWritable
  | NativeInputClosed PtyNativeError
  | NativeProcessExit PtyExit
  | NativeAsyncError PtyNativeError
  | NativeSessionClosed

text \<open>The Dart enumerations have no NONE value; their lists are in declaration order.\<close>

definition domain_values :: "PtyErrorDomain list" where
  "domain_values = [PTY_ERROR_DOMAIN_POSIX, PTY_ERROR_DOMAIN_WIN32, PTY_ERROR_DOMAIN_HRESULT,
     PTY_ERROR_DOMAIN_INTERNAL]"

definition kind_values :: "PtyErrorKind list" where
  "kind_values = [PTY_ERROR_INVALID_ARGUMENT, PTY_ERROR_NOT_FOUND, PTY_ERROR_PERMISSION_DENIED,
     PTY_ERROR_SPAWN_FAILED, PTY_ERROR_WORKING_DIRECTORY, PTY_ERROR_IO, PTY_ERROR_CLOSED,
     PTY_ERROR_UNSUPPORTED, PTY_ERROR_OUT_OF_MEMORY, PTY_ERROR_INTERNAL]"

definition enumValue :: "'a list \<Rightarrow> int \<Rightarrow> format_exception + 'a" where
  "enumValue vs index =
     (if index \<le> 0 \<or> int (length vs) < index then Inl FormatException else Inr (vs ! nat (index - 1)))"

definition readInt :: "dart_value list \<Rightarrow> nat \<Rightarrow> format_exception + int" where
  "readInt message index =
     (if length message \<le> index then Inl FormatException
      else case message ! index of DartInt v \<Rightarrow> Inr v | _ \<Rightarrow> Inl FormatException)"

definition readBytes :: "dart_value list \<Rightarrow> nat \<Rightarrow> format_exception + u8 list" where
  "readBytes message index =
     (if length message \<le> index then Inl FormatException
      else case message ! index of DartUint8List v \<Rightarrow> Inr v | _ \<Rightarrow> Inl FormatException)"

definition sum_bind :: "'e + 'a \<Rightarrow> ('a \<Rightarrow> 'e + 'b) \<Rightarrow> 'e + 'b" where
  "sum_bind m f = (case m of Inl e \<Rightarrow> Inl e | Inr a \<Rightarrow> f a)"

lemma sum_bind_simps [simp]: "sum_bind (Inl e) f = Inl e" "sum_bind (Inr a) f = f a"
  by (simp_all add: sum_bind_def)

definition expectLength :: "dart_value list \<Rightarrow> nat \<Rightarrow> format_exception + 'a \<Rightarrow> format_exception + 'a" where
  "expectLength message expected rest =
     (if length message = expected then rest else Inl FormatException)"

definition readError :: "dart_value list \<Rightarrow> nat \<Rightarrow> format_exception + PtyNativeError" where
  "readError message index =
     sum_bind (readInt message index) (\<lambda>dv.
     sum_bind (readInt message (index + 1)) (\<lambda>kv.
     sum_bind (readInt message (index + 2)) (\<lambda>code.
       if index + 3 < length message
       then (case message ! (index + 3) of
               DartString text \<Rightarrow>
                 sum_bind (enumValue domain_values dv) (\<lambda>d.
                 sum_bind (enumValue kind_values kv) (\<lambda>k.
                   Inr \<lparr>ne_domain = d, ne_kind = k, ne_code = code, ne_message = text\<rparr>))
             | _ \<Rightarrow> Inl FormatException)
       else Inl FormatException)))"

definition readExit :: "dart_value list \<Rightarrow> nat \<Rightarrow> format_exception + PtyExit" where
  "readExit message index =
     sum_bind (readInt message index) (\<lambda>kind.
     sum_bind (readInt message (index + 1)) (\<lambda>v.
       if kind = 0 then Inr (PtyExitCode v)
       else if kind = 1 then Inr (PtySignalExit v)
       else Inl FormatException))"

definition NativeEvent_parse :: "dart_value \<Rightarrow> format_exception + NativeEvent" where
  "NativeEvent_parse msg =
     (case msg of
        DartList message \<Rightarrow>
          if message = [] then Inl FormatException
          else sum_bind (readInt message 0) (\<lambda>eventType.
            if eventType = 1 then expectLength message 3
              (sum_bind (readInt message 1) (\<lambda>pid. sum_bind (readInt message 2) (\<lambda>caps.
                Inr (NativeSpawned pid caps))))
            else if eventType = 2 then expectLength message 5
              (sum_bind (readError message 1) (\<lambda>e. Inr (NativeSpawnFailed e)))
            else if eventType = 3 then expectLength message 2
              (sum_bind (readBytes message 1) (\<lambda>b. Inr (NativeOutput b)))
            else if eventType = 4 then expectLength message 1 (Inr NativeOutputClosed)
            else if eventType = 5 then expectLength message 2
              (sum_bind (readInt message 1) (\<lambda>r. Inr (NativeWriteComplete r)))
            else if eventType = 6 then expectLength message 1 (Inr NativeWritable)
            else if eventType = 7 then expectLength message 5
              (sum_bind (readError message 1) (\<lambda>e. Inr (NativeInputClosed e)))
            else if eventType = 8 then expectLength message 3
              (sum_bind (readExit message 1) (\<lambda>x. Inr (NativeProcessExit x)))
            else if eventType = 9 then expectLength message 5
              (sum_bind (readError message 1) (\<lambda>e. Inr (NativeAsyncError e)))
            else if eventType = 10 then expectLength message 1 (Inr NativeSessionClosed)
            else Inl FormatException)
      | _ \<Rightarrow> Inl FormatException)"

subsection \<open>The round trip\<close>

text \<open>What the Dart side should see of an error and of an event.\<close>

definition native_error_of :: "PtyError \<Rightarrow> PtyNativeError" where
  "native_error_of e =
     \<lparr>ne_domain = domain_values ! nat (sint (pe_domain e) - 1),
      ne_kind = kind_values ! nat (sint (pe_kind e) - 1),
      ne_code = sint (pe_os_code e), ne_message = pe_message e\<rparr>"

primrec native_event_of :: "pty_event \<Rightarrow> NativeEvent" where
  "native_event_of (EvSpawned pid caps) = NativeSpawned (sint pid) (sint caps)"
| "native_event_of (EvSpawnFailed e) = NativeSpawnFailed (native_error_of e)"
| "native_event_of (EvOutput bytes) = NativeOutput bytes"
| "native_event_of EvOutputClosed = NativeOutputClosed"
| "native_event_of (EvWriteComplete r) = NativeWriteComplete (sint r)"
| "native_event_of EvWritable = NativeWritable"
| "native_event_of (EvInputClosed e) = NativeInputClosed (native_error_of e)"
| "native_event_of (EvProcessExit signaled v) =
     NativeProcessExit (if signaled then PtySignalExit (sint v) else PtyExitCode (sint v))"
| "native_event_of (EvAsyncError e) = NativeAsyncError (native_error_of e)"
| "native_event_of EvSessionClosed = NativeSessionClosed"

primrec event_wf :: "pty_event \<Rightarrow> bool" where
  "event_wf (EvSpawned pid caps) = True"
| "event_wf (EvSpawnFailed e) = error_wf e"
| "event_wf (EvOutput bytes) = True"
| "event_wf EvOutputClosed = True"
| "event_wf (EvWriteComplete r) = True"
| "event_wf EvWritable = True"
| "event_wf (EvInputClosed e) = error_wf e"
| "event_wf (EvProcessExit signaled v) = True"
| "event_wf (EvAsyncError e) = error_wf e"
| "event_wf EvSessionClosed = True"

lemmas post_defs = post_array_def pty_post_simple_event_def pty_post_spawned_def
  pty_post_spawn_failed_def pty_post_output_def pty_post_write_complete_def
  pty_post_input_closed_def pty_post_process_exit_def pty_post_error_def error_fields_def

lemmas parse_defs = NativeEvent_parse_def readInt_def readBytes_def readExit_def expectLength_def

lemma readError_error_fields:
  assumes "error_wf e"
  shows "readError (DartInt t # map dart_receive (error_fields (Some e))) (Suc 0)
    = Inr (native_error_of e)"
  using assms
  by (simp add: readError_def readInt_def error_fields_def enumValue_def error_wf_def
      native_error_of_def domain_values_def kind_values_def)




end
