(* ===== verification/Debug_Stats.thy ===== *)
theory Debug_Stats
  imports Pty_Prelude
begin

section \<open>Diagnostic counters (common/pty_debug_stats.c)\<close>

text \<open>
  Twelve process-wide 64-bit counters, changed by atomic additions that wrap; a decrement adds
  \<open>(uint64_t)-1\<close>. The counters are one record, passed through every operation that touches them.
\<close>

record PtyDebugStats =
  ds_live_sessions :: u64
  ds_live_read_workers :: u64
  ds_live_write_workers :: u64
  ds_live_wait_workers :: u64
  ds_live_close_workers :: u64
  ds_live_pseudo_console_workers :: u64
  ds_pending_write_chunks :: u64
  ds_pending_write_bytes :: u64
  ds_inflight_write_bytes :: u64
  ds_pseudo_console_close_calls :: u64
  ds_pseudo_console_release_calls :: u64
  ds_pseudo_console_close_worker_calls :: u64

datatype PtyDebugWorkerKind =
    PTY_DEBUG_WORKER_READ | PTY_DEBUG_WORKER_WRITE | PTY_DEBUG_WORKER_WAIT
  | PTY_DEBUG_WORKER_CLOSE | PTY_DEBUG_WORKER_PSEUDO_CONSOLE

definition stats_zero :: PtyDebugStats where
  "stats_zero = \<lparr>ds_live_sessions = 0, ds_live_read_workers = 0, ds_live_write_workers = 0,
     ds_live_wait_workers = 0, ds_live_close_workers = 0, ds_live_pseudo_console_workers = 0,
     ds_pending_write_chunks = 0, ds_pending_write_bytes = 0, ds_inflight_write_bytes = 0,
     ds_pseudo_console_close_calls = 0, ds_pseudo_console_release_calls = 0,
     ds_pseudo_console_close_worker_calls = 0\<rparr>"

text \<open>\<open>worker_counter\<close> yields the address of a counter; here it reads it, and \<open>add_worker\<close> is
  \<open>add_counter\<close> on that address.\<close>

primrec worker_counter :: "PtyDebugWorkerKind \<Rightarrow> PtyDebugStats \<Rightarrow> u64" where
  "worker_counter PTY_DEBUG_WORKER_READ st = ds_live_read_workers st"
| "worker_counter PTY_DEBUG_WORKER_WRITE st = ds_live_write_workers st"
| "worker_counter PTY_DEBUG_WORKER_WAIT st = ds_live_wait_workers st"
| "worker_counter PTY_DEBUG_WORKER_CLOSE st = ds_live_close_workers st"
| "worker_counter PTY_DEBUG_WORKER_PSEUDO_CONSOLE st = ds_live_pseudo_console_workers st"

primrec add_worker :: "PtyDebugWorkerKind \<Rightarrow> u64 \<Rightarrow> PtyDebugStats \<Rightarrow> PtyDebugStats" where
  "add_worker PTY_DEBUG_WORKER_READ n st =
     st\<lparr>ds_live_read_workers := ds_live_read_workers st + n\<rparr>"
| "add_worker PTY_DEBUG_WORKER_WRITE n st =
     st\<lparr>ds_live_write_workers := ds_live_write_workers st + n\<rparr>"
| "add_worker PTY_DEBUG_WORKER_WAIT n st =
     st\<lparr>ds_live_wait_workers := ds_live_wait_workers st + n\<rparr>"
| "add_worker PTY_DEBUG_WORKER_CLOSE n st =
     st\<lparr>ds_live_close_workers := ds_live_close_workers st + n\<rparr>"
| "add_worker PTY_DEBUG_WORKER_PSEUDO_CONSOLE n st =
     st\<lparr>ds_live_pseudo_console_workers := ds_live_pseudo_console_workers st + n\<rparr>"

definition pty_debug_worker_started :: "PtyDebugWorkerKind \<Rightarrow> PtyDebugStats \<Rightarrow> PtyDebugStats" where
  "pty_debug_worker_started kind st = add_worker kind 1 st"

definition pty_debug_worker_finished :: "PtyDebugWorkerKind \<Rightarrow> PtyDebugStats \<Rightarrow> PtyDebugStats" where
  "pty_debug_worker_finished kind st = add_worker kind (-1) st"

definition pty_debug_session_started :: "PtyDebugStats \<Rightarrow> PtyDebugStats" where
  "pty_debug_session_started st = st\<lparr>ds_live_sessions := ds_live_sessions st + 1\<rparr>"

definition pty_debug_session_finished :: "PtyDebugStats \<Rightarrow> PtyDebugStats" where
  "pty_debug_session_finished st = st\<lparr>ds_live_sessions := ds_live_sessions st + (-1)\<rparr>"

definition pty_debug_pending_write_enqueued :: "u64 \<Rightarrow> PtyDebugStats \<Rightarrow> PtyDebugStats" where
  "pty_debug_pending_write_enqueued bytes st =
     st\<lparr>ds_pending_write_chunks := ds_pending_write_chunks st + 1,
        ds_pending_write_bytes := ds_pending_write_bytes st + bytes\<rparr>"

definition pty_debug_pending_write_started :: "u64 \<Rightarrow> PtyDebugStats \<Rightarrow> PtyDebugStats" where
  "pty_debug_pending_write_started bytes st =
     st\<lparr>ds_pending_write_bytes := ds_pending_write_bytes st + (- bytes),
        ds_inflight_write_bytes := ds_inflight_write_bytes st + bytes\<rparr>"

definition pty_debug_pending_write_requeued :: "u64 \<Rightarrow> u64 \<Rightarrow> PtyDebugStats \<Rightarrow> PtyDebugStats" where
  "pty_debug_pending_write_requeued inflight_bytes queued_bytes st =
     st\<lparr>ds_inflight_write_bytes := ds_inflight_write_bytes st + (- inflight_bytes),
        ds_pending_write_bytes := ds_pending_write_bytes st + queued_bytes\<rparr>"

definition pty_debug_pending_write_completed :: "u64 \<Rightarrow> PtyDebugStats \<Rightarrow> PtyDebugStats" where
  "pty_debug_pending_write_completed bytes st =
     st\<lparr>ds_pending_write_chunks := ds_pending_write_chunks st + (-1),
        ds_inflight_write_bytes := ds_inflight_write_bytes st + (- bytes)\<rparr>"

definition pty_debug_pending_write_discarded :: "u64 \<Rightarrow> PtyDebugStats \<Rightarrow> PtyDebugStats" where
  "pty_debug_pending_write_discarded bytes st =
     st\<lparr>ds_pending_write_chunks := ds_pending_write_chunks st + (-1),
        ds_pending_write_bytes := ds_pending_write_bytes st + (- bytes)\<rparr>"

definition pty_debug_pseudo_console_close :: "PtyDebugStats \<Rightarrow> PtyDebugStats" where
  "pty_debug_pseudo_console_close st =
     st\<lparr>ds_pseudo_console_close_calls := ds_pseudo_console_close_calls st + 1\<rparr>"

definition pty_debug_pseudo_console_release :: "PtyDebugStats \<Rightarrow> PtyDebugStats" where
  "pty_debug_pseudo_console_release st =
     st\<lparr>ds_pseudo_console_release_calls := ds_pseudo_console_release_calls st + 1\<rparr>"

definition pty_debug_pseudo_console_close_worker :: "PtyDebugStats \<Rightarrow> PtyDebugStats" where
  "pty_debug_pseudo_console_close_worker st =
     st\<lparr>ds_pseudo_console_close_worker_calls := ds_pseudo_console_close_worker_calls st + 1\<rparr>"

text \<open>The snapshot: zeroed, then filled counter by counter; a NULL result pointer is left alone.\<close>

definition pty_debug_get_stats :: "PtyDebugStats \<Rightarrow> PtyDebugStats option \<Rightarrow> PtyDebugStats option" where
  "pty_debug_get_stats counters out_stats =
     (case out_stats of
        None \<Rightarrow> None
      | Some _ \<Rightarrow> Some (stats_zero
          \<lparr>ds_live_sessions := ds_live_sessions counters,
           ds_live_read_workers := ds_live_read_workers counters,
           ds_live_write_workers := ds_live_write_workers counters,
           ds_live_wait_workers := ds_live_wait_workers counters,
           ds_live_close_workers := ds_live_close_workers counters,
           ds_live_pseudo_console_workers := ds_live_pseudo_console_workers counters,
           ds_pending_write_chunks := ds_pending_write_chunks counters,
           ds_pending_write_bytes := ds_pending_write_bytes counters,
           ds_inflight_write_bytes := ds_inflight_write_bytes counters,
           ds_pseudo_console_close_calls := ds_pseudo_console_close_calls counters,
           ds_pseudo_console_release_calls := ds_pseudo_console_release_calls counters,
           ds_pseudo_console_close_worker_calls := ds_pseudo_console_close_worker_calls counters\<rparr>))"

lemmas stats_defs = pty_debug_worker_started_def pty_debug_worker_finished_def
  pty_debug_session_started_def pty_debug_session_finished_def
  pty_debug_pending_write_enqueued_def pty_debug_pending_write_started_def
  pty_debug_pending_write_requeued_def pty_debug_pending_write_completed_def
  pty_debug_pending_write_discarded_def pty_debug_pseudo_console_close_def
  pty_debug_pseudo_console_release_def pty_debug_pseudo_console_close_worker_def

lemma add_worker_other [simp]:
  "ds_pending_write_chunks (add_worker k n st) = ds_pending_write_chunks st"
  "ds_pending_write_bytes (add_worker k n st) = ds_pending_write_bytes st"
  "ds_inflight_write_bytes (add_worker k n st) = ds_inflight_write_bytes st"
  "ds_live_sessions (add_worker k n st) = ds_live_sessions st"
  by (cases k; simp)+

lemma worker_counter_add [simp]:
  "worker_counter k (add_worker j n st) = worker_counter k st + (if j = k then n else 0)"
  by (cases k; cases j) simp_all

text \<open>The snapshot copies every counter.\<close>

lemma get_stats_snapshot: "pty_debug_get_stats counters (Some st) = Some counters"
  by (cases counters) (simp add: pty_debug_get_stats_def stats_zero_def)


end
