(* ===== verification/Session_Core.thy ===== *)
theory Session_Core
  imports Pty_Event Debug_Stats
begin

section \<open>The session object and its reference count (common/pty_refcount.c, pty_internal.h)\<close>

text \<open>
  The session structure both platforms share. Its atomic fields are plain fields here: each
  operation below is one atomic access. The platform structure is a type parameter; a NULL
  pointer is \<open>None\<close>.
\<close>

datatype PtyLifecycle =
    PTY_LIFECYCLE_STARTING | PTY_LIFECYCLE_RUNNING | PTY_LIFECYCLE_CLOSING | PTY_LIFECYCLE_CLOSED

primrec lifecycle_value :: "PtyLifecycle \<Rightarrow> int" where
  "lifecycle_value PTY_LIFECYCLE_STARTING = 0"
| "lifecycle_value PTY_LIFECYCLE_RUNNING = 1"
| "lifecycle_value PTY_LIFECYCLE_CLOSING = 2"
| "lifecycle_value PTY_LIFECYCLE_CLOSED = 3"

datatype PtySessionFreeFunction = FREE_UNIX_SESSION | WINDOWS_FREE_SESSION

record 'p PtySession =
  s_ref_count :: u32
  s_lifecycle :: PtyLifecycle
  s_process_exited :: bool
  s_output_closed :: bool
  s_input_closed :: bool
  s_abandoned :: bool
  s_event_port :: port
  s_input_buffer_limit :: u64
  s_output_window_limit :: u64
  s_output_credit :: u64
  s_platform :: "'p option"
  s_free_function :: "PtySessionFreeFunction option"

text \<open>\<open>pty_session_init\<close> on the fresh allocation (its previous contents are overwritten), with
  the session counter.\<close>

definition pty_session_init ::
  "'p PtySession option \<Rightarrow> PtyDebugStats \<Rightarrow> 'p PtySession option \<times> PtyDebugStats" where
  "pty_session_init session st =
     (case session of
        None \<Rightarrow> (None, st)
      | Some _ \<Rightarrow>
          (Some \<lparr>s_ref_count = 1, s_lifecycle = PTY_LIFECYCLE_STARTING, s_process_exited = False,
             s_output_closed = False, s_input_closed = False, s_abandoned = False,
             s_event_port = 0, s_input_buffer_limit = 0, s_output_window_limit = 0,
             s_output_credit = 0, s_platform = None, s_free_function = None\<rparr>,
           pty_debug_session_started st))"

definition pty_session_retain :: "'p PtySession option \<Rightarrow> 'p PtySession option" where
  "pty_session_retain session =
     (case session of
        None \<Rightarrow> None
      | Some s \<Rightarrow> Some (s\<lparr>s_ref_count := s_ref_count s + 1\<rparr>))"

text \<open>Releasing decrements, and the caller that saw the count at one frees the session: through
  its free function when there is one, with \<open>free\<close> otherwise.\<close>

datatype release_outcome = StillReferenced | CallsFreeFunction PtySessionFreeFunction | CallsFree

definition pty_session_release ::
  "'p PtySession option \<Rightarrow> PtyDebugStats \<Rightarrow> release_outcome \<times> 'p PtySession option \<times> PtyDebugStats" where
  "pty_session_release session st =
     (case session of
        None \<Rightarrow> (StillReferenced, None, st)
      | Some s \<Rightarrow>
          (let should_free = (s_ref_count s = 1);
               s' = s\<lparr>s_ref_count := s_ref_count s - 1\<rparr>
           in if \<not> should_free then (StillReferenced, Some s', st)
              else (case s_free_function s of
                      Some f \<Rightarrow> (CallsFreeFunction f, Some s', pty_debug_session_finished st)
                    | None \<Rightarrow> (CallsFree, Some s', pty_debug_session_finished st))))"

definition pty_session_mark_abandoned :: "'p PtySession option \<Rightarrow> bool \<times> 'p PtySession option" where
  "pty_session_mark_abandoned session =
     (case session of
        None \<Rightarrow> (False, None)
      | Some s \<Rightarrow> (\<not> s_abandoned s, Some (s\<lparr>s_abandoned := True\<rparr>)))"

definition pty_session_is_abandoned :: "'p PtySession option \<Rightarrow> bool" where
  "pty_session_is_abandoned session = (case session of None \<Rightarrow> True | Some s \<Rightarrow> s_abandoned s)"

definition pty_session_mark_closing :: "'p PtySession option \<Rightarrow> 'p PtySession option" where
  "pty_session_mark_closing session =
     map_option (\<lambda>s. s\<lparr>s_lifecycle := PTY_LIFECYCLE_CLOSING\<rparr>) session"

definition pty_session_mark_closed :: "'p PtySession option \<Rightarrow> 'p PtySession option" where
  "pty_session_mark_closed session =
     map_option (\<lambda>s. s\<lparr>s_lifecycle := PTY_LIFECYCLE_CLOSED\<rparr>) session"

definition pty_session_platform_load :: "'p PtySession option \<Rightarrow> 'p option" where
  "pty_session_platform_load session = (case session of None \<Rightarrow> None | Some s \<Rightarrow> s_platform s)"

definition pty_session_platform_store :: "'p PtySession option \<Rightarrow> 'p option \<Rightarrow> 'p PtySession option" where
  "pty_session_platform_store session platform =
     (case session of None \<Rightarrow> None | Some s \<Rightarrow> Some (s\<lparr>s_platform := platform\<rparr>))"

lemmas session_defs = pty_session_init_def pty_session_retain_def pty_session_release_def
  pty_session_mark_abandoned_def pty_session_is_abandoned_def pty_session_mark_closing_def
  pty_session_mark_closed_def pty_session_platform_load_def pty_session_platform_store_def

subsection \<open>Runs of releases and abandonments\<close>

text \<open>Successive releases of one session, with what each caller has to do.\<close>

primrec release_times ::
  "nat \<Rightarrow> 'p PtySession \<Rightarrow> PtyDebugStats \<Rightarrow> release_outcome list \<times> 'p PtySession \<times> PtyDebugStats" where
  "release_times 0 s st = ([], s, st)"
| "release_times (Suc n) s st =
     (case pty_session_release (Some s) st of (r, s', st') \<Rightarrow>
        (case release_times n (the s') st' of (rs, s'', st'') \<Rightarrow> (r # rs, s'', st'')))"

primrec retain_times :: "nat \<Rightarrow> 'p PtySession \<Rightarrow> 'p PtySession" where
  "retain_times 0 s = s"
| "retain_times (Suc n) s = retain_times n (the (pty_session_retain (Some s)))"

primrec abandon_times :: "nat \<Rightarrow> 'p PtySession \<Rightarrow> bool list \<times> 'p PtySession" where
  "abandon_times 0 s = ([], s)"
| "abandon_times (Suc n) s =
     (case pty_session_mark_abandoned (Some s) of (r, s') \<Rightarrow>
        (case abandon_times n (the s') of (rs, s'') \<Rightarrow> (r # rs, s'')))"

lemma retain_times_ref: "s_ref_count (retain_times n s) = s_ref_count s + of_nat n"
  by (induction n arbitrary: s) (simp_all add: pty_session_retain_def)

lemma release_times_outcomes:
  assumes "s_ref_count s = of_nat (Suc n)" and "Suc n < 2 ^ 32"
  shows "fst (release_times (Suc n) s st) = replicate n StillReferenced @
     [case s_free_function s of None \<Rightarrow> CallsFree | Some f \<Rightarrow> CallsFreeFunction f]"
  using assms
proof (induction n arbitrary: s st)
  case 0
  then show ?case by (simp add: pty_session_release_def split: option.splits)
next
  case (Suc n)
  have "unat (s_ref_count s) = Suc (Suc n)"
    using Suc.prems by (simp add: unat_of_nat_less del: of_nat_Suc)
  then have "s_ref_count s \<noteq> 1" by auto
  then have "pty_session_release (Some s) st
      = (StillReferenced, Some (s\<lparr>s_ref_count := s_ref_count s - 1\<rparr>), st)"
    by (simp add: pty_session_release_def Let_def)
  moreover have "fst (release_times (Suc n) (s\<lparr>s_ref_count := s_ref_count s - 1\<rparr>) st)
      = replicate n StillReferenced @
        [case s_free_function s of None \<Rightarrow> CallsFree | Some f \<Rightarrow> CallsFreeFunction f]"
    using Suc.IH [of "s\<lparr>s_ref_count := s_ref_count s - 1\<rparr>" st] Suc.prems by simp
  ultimately show ?case
    by (simp add: case_prod_beta del: release_times.simps(2)) (simp add: case_prod_beta)
qed

text \<open>C9: the count frees exactly once and last: after \<open>k\<close> retains (fewer than the counter holds) of a
  session with one owner, the first \<open>k\<close> releases leave it alive and the next one, and only that one,
  frees it, through the free function the platform installed.\<close>

theorem release_frees_last:
  assumes "s_ref_count s = 1" and "s_free_function s = Some f" and "k < 2 ^ 32 - 1"
  shows "fst (release_times (Suc k) (retain_times k s) st) =
    replicate k StillReferenced @ [CallsFreeFunction f]"
proof -
  have "s_ref_count (retain_times k s) = of_nat (Suc k)"
    using assms(1) by (simp add: retain_times_ref)
  moreover have "s_free_function (retain_times k s) = Some f"
    using assms(2) by (induction k arbitrary: s) (simp_all add: pty_session_retain_def)
  ultimately show ?thesis
    using release_times_outcomes [of "retain_times k s" k st] assms(3) by simp
qed

theorem release_frees_last_witness:
  "fst (release_times (Suc 2) (retain_times 2
     \<lparr>s_ref_count = 1, s_lifecycle = PTY_LIFECYCLE_STARTING, s_process_exited = False,
      s_output_closed = False, s_input_closed = False, s_abandoned = False, s_event_port = 0,
      s_input_buffer_limit = 0, s_output_window_limit = 0, s_output_credit = 0,
      s_platform = (None :: nat option), s_free_function = Some FREE_UNIX_SESSION\<rparr>) stats_zero) =
   replicate 2 StillReferenced @ [CallsFreeFunction FREE_UNIX_SESSION]"
  by (rule release_frees_last) simp_all

text \<open>C10: abandonment is idempotent: of any number of calls (a failed post and the finalizer may
  race), exactly the first on a session not yet abandoned is told to release the Dart reference.\<close>

theorem abandoned_once:
  "fst (abandon_times n s) = (if s_abandoned s \<or> n = 0 then replicate n False
                              else True # replicate (n - 1) False)"
proof (induction n arbitrary: s)
  case 0
  then show ?case by simp
next
  case (Suc n)
  have "fst (abandon_times n (s\<lparr>s_abandoned := True\<rparr>)) = replicate n False"
    using Suc.IH [of "s\<lparr>s_abandoned := True\<rparr>"] by (cases n) simp_all
  then show ?case by (simp add: pty_session_mark_abandoned_def case_prod_beta)
qed

end
