(* ===== verification/Write_Queue_Spec.thy ===== *)
theory Write_Queue_Spec
  imports Pty_Error
begin

section \<open>The write queue as a sequence (specification of common/pty_write_queue.c)\<close>

text \<open>
  The queue of input chunks seen as a list with two byte counts, which is what the sessions rely
  on; theory \<open>Write_Queue\<close> proves that the linked list of the C code implements it. The contract
  the session's writers use is the locale \<open>byte_queue\<close>, interpreted here on the list queue.
\<close>

subsection \<open>Chunks and queues\<close>

record write_chunk =
  wc_bytes :: "u8 list"
  wc_length :: u64
  wc_offset :: u64
  wc_request_id :: u64
  wc_accounted :: u64

record write_queue =
  wq_chunks :: "write_chunk list"
  wq_limit :: u64
  wq_queued :: u64
  wq_inflight :: u64

definition wc_remaining :: "write_chunk \<Rightarrow> u64" where
  "wc_remaining c = wc_length c - wc_offset c"

text \<open>The bytes a chunk, and a queue, still have to deliver.\<close>

definition chunk_rest :: "write_chunk \<Rightarrow> u8 list" where
  "chunk_rest c = drop (unat (wc_offset c)) (wc_bytes c)"

definition queue_rest :: "write_queue \<Rightarrow> u8 list" where
  "queue_rest q = concat (map chunk_rest (wq_chunks q))"

definition wq_new :: "u64 \<Rightarrow> write_queue" where
  "wq_new limit = \<lparr>wq_chunks = [], wq_limit = limit, wq_queued = 0, wq_inflight = 0\<rparr>"

subsection \<open>Operations\<close>

definition wq_try_enqueue :: "u8 list \<Rightarrow> u64 \<Rightarrow> write_queue \<Rightarrow> PtyTryWriteResult \<times> write_queue" where
  "wq_try_enqueue bytes request_id q =
     (let len = of_nat (length bytes) in
      if bytes = [] then (PTY_WRITE_ACCEPTED, q)
      else if len > wq_limit q \<or> wq_queued q > wq_limit q \<or>
              wq_inflight q > wq_limit q - wq_queued q \<or>
              len > wq_limit q - wq_queued q - wq_inflight q
      then (PTY_WRITE_BACKPRESSURED, q)
      else (PTY_WRITE_ACCEPTED,
            q\<lparr>wq_chunks := wq_chunks q @ [\<lparr>wc_bytes = bytes, wc_length = len, wc_offset = 0,
                 wc_request_id = request_id, wc_accounted = 0\<rparr>],
              wq_queued := wq_queued q + len\<rparr>))"

definition wq_dequeue :: "write_queue \<Rightarrow> write_chunk option \<times> write_queue" where
  "wq_dequeue q =
     (case wq_chunks q of
        [] \<Rightarrow> (None, q)
      | c # cs \<Rightarrow>
          (Some (c\<lparr>wc_accounted := wc_remaining c\<rparr>),
           q\<lparr>wq_chunks := cs, wq_queued := wq_queued q - wc_remaining c,
             wq_inflight := wq_inflight q + wc_remaining c\<rparr>))"

definition wq_requeue_front :: "write_chunk \<Rightarrow> write_queue \<Rightarrow> PtyTryWriteResult \<times> write_queue" where
  "wq_requeue_front c q =
     (if wc_offset c > wc_length c then (PTY_WRITE_ERROR, q)
      else if wc_accounted c < wc_remaining c \<or> wq_inflight q < wc_accounted c
      then (PTY_WRITE_BACKPRESSURED, q)
      else (PTY_WRITE_ACCEPTED,
            q\<lparr>wq_chunks := c\<lparr>wc_accounted := wc_remaining c\<rparr> # wq_chunks q,
              wq_inflight := wq_inflight q - wc_accounted c,
              wq_queued := wq_queued q + wc_remaining c\<rparr>))"

definition wq_complete :: "write_chunk \<Rightarrow> write_queue \<Rightarrow> write_queue" where
  "wq_complete c q =
     q\<lparr>wq_inflight := wq_inflight q - min (wc_accounted c) (wq_inflight q)\<rparr>"

definition wq_pending :: "write_queue \<Rightarrow> u64" where
  "wq_pending q = wq_queued q + wq_inflight q"

text \<open>Progress of the owner of a dequeued chunk: the code's \<open>chunk->offset += written\<close>.\<close>

definition chunk_advance :: "nat \<Rightarrow> write_chunk \<Rightarrow> write_chunk" where
  "chunk_advance n c = c\<lparr>wc_offset := wc_offset c + of_nat n\<rparr>"

lemmas wq_defs = wq_try_enqueue_def wq_dequeue_def wq_requeue_front_def wq_complete_def
  wq_pending_def wq_new_def

subsection \<open>Well-formedness\<close>

definition chunk_wf :: "write_chunk \<Rightarrow> bool" where
  "chunk_wf c \<longleftrightarrow> length (wc_bytes c) = unat (wc_length c) \<and> wc_offset c \<le> wc_length c"

text \<open>A queue with the chunks \<open>out\<close> handed out: the byte counts are the sums of what the queued
  chunks still hold and of what was accounted to the chunks handed out, and stay in the limit.\<close>

definition queue_inv :: "write_queue \<Rightarrow> write_chunk list \<Rightarrow> bool" where
  "queue_inv q out \<longleftrightarrow>
     (\<forall>c \<in> set (wq_chunks q @ out). chunk_wf c) \<and>
     (\<forall>c \<in> set out. wc_remaining c \<le> wc_accounted c) \<and>
     unat (wq_queued q) = (\<Sum>c\<leftarrow>wq_chunks q. unat (wc_remaining c)) \<and>
     unat (wq_inflight q) = (\<Sum>c\<leftarrow>out. unat (wc_accounted c)) \<and>
     unat (wq_queued q) + unat (wq_inflight q) \<le> unat (wq_limit q)"

lemma unat_remaining:
  "chunk_wf c \<Longrightarrow> unat (wc_remaining c) = unat (wc_length c) - unat (wc_offset c)"
  by (simp add: chunk_wf_def wc_remaining_def unat_sub)

lemma length_chunk_rest: "chunk_wf c \<Longrightarrow> length (chunk_rest c) = unat (wc_remaining c)"
  by (simp add: unat_remaining chunk_rest_def chunk_wf_def)

lemma queue_inv_new: "queue_inv (wq_new limit) []"
  by (simp add: queue_inv_def wq_new_def)

lemma queue_inv_pending:
  assumes "queue_inv q out"
  shows "unat (wq_pending q) = unat (wq_queued q) + unat (wq_inflight q)"
  unfolding wq_pending_def
  by (rule unat_add_no_wrap)
    (use assms unat_u64_bound [of "wq_limit q"] in \<open>simp add: queue_inv_def\<close>)

lemma queue_rest_length:
  assumes "queue_inv q out"
  shows "length (queue_rest q) = unat (wq_queued q)"
proof -
  have "(\<Sum>c\<leftarrow>cs. length (chunk_rest c)) = (\<Sum>c\<leftarrow>cs. unat (wc_remaining c))"
    if "\<forall>c \<in> set cs. chunk_wf c" for cs
    using that by (induction cs) (simp_all add: length_chunk_rest)
  with assms show ?thesis
    by (simp add: queue_rest_def length_concat o_def queue_inv_def)
qed

lemma enqueue_result:
  assumes "queue_inv q out" and "length bytes < 2 ^ 64"
  shows "fst (wq_try_enqueue bytes r q) =
    (if bytes = [] \<or> unat (wq_queued q) + unat (wq_inflight q) + length bytes \<le> unat (wq_limit q)
     then PTY_WRITE_ACCEPTED else PTY_WRITE_BACKPRESSURED)"
proof -
  have "unat (of_nat (length bytes) :: u64) = length bytes"
    using assms(2) by (simp add: unat_of_nat_less)
  then show ?thesis
    using window_test [of "wq_limit q" "wq_queued q" "wq_inflight q" "of_nat (length bytes)"]
    by (auto simp: wq_try_enqueue_def Let_def word_less_nat_alt)
qed

lemma enqueue_inv:
  assumes inv: "queue_inv q out" and len: "length bytes < 2 ^ 64"
    and acc: "wq_try_enqueue bytes r q = (PTY_WRITE_ACCEPTED, q')"
  shows "queue_inv q' out" and "queue_rest q' = queue_rest q @ bytes" and "wq_limit q' = wq_limit q"
proof -
  have ub: "unat (of_nat (length bytes) :: u64) = length bytes"
    using len by (simp add: unat_of_nat_less)
  show "queue_rest q' = queue_rest q @ bytes" and "wq_limit q' = wq_limit q"
    using acc by (auto simp: wq_try_enqueue_def queue_rest_def chunk_rest_def Let_def split: if_splits)
  show "queue_inv q' out"
  proof (cases "bytes = []")
    case True
    then show ?thesis using acc inv by (simp add: wq_try_enqueue_def)
  next
    case False
    have fits: "unat (wq_queued q) + unat (wq_inflight q) + length bytes \<le> unat (wq_limit q)"
      using enqueue_result [OF inv len, of r] acc False by (auto split: if_splits)
    have q': "q' = q\<lparr>wq_chunks := wq_chunks q @ [\<lparr>wc_bytes = bytes, wc_length = of_nat (length bytes),
        wc_offset = 0, wc_request_id = r, wc_accounted = 0\<rparr>],
        wq_queued := wq_queued q + of_nat (length bytes)\<rparr>"
      using acc False by (auto simp: wq_try_enqueue_def Let_def split: if_splits)
    have "unat (wq_queued q + of_nat (length bytes)) = unat (wq_queued q) + length bytes"
      using fits unat_u64_bound [of "wq_limit q"] ub by (simp add: unat_add_no_wrap)
    with fits inv ub show ?thesis
      by (auto simp: q' queue_inv_def chunk_wf_def wc_remaining_def)
  qed
qed

lemma dequeue_inv:
  assumes inv: "queue_inv q out" and deq: "wq_dequeue q = (Some c, q')"
  shows "queue_inv q' (c # out)" and "queue_rest q = chunk_rest c @ queue_rest q'"
    and "wq_limit q' = wq_limit q"
proof -
  obtain c0 cs where cs: "wq_chunks q = c0 # cs" and c: "c = c0\<lparr>wc_accounted := wc_remaining c0\<rparr>"
    and q': "q' = q\<lparr>wq_chunks := cs, wq_queued := wq_queued q - wc_remaining c0,
        wq_inflight := wq_inflight q + wc_remaining c0\<rparr>"
    using deq by (auto simp: wq_dequeue_def split: list.splits)
  show "queue_rest q = chunk_rest c @ queue_rest q'" and "wq_limit q' = wq_limit q"
    by (simp_all add: queue_rest_def cs c q' chunk_rest_def)
  have le: "unat (wc_remaining c0) \<le> unat (wq_queued q)"
    using inv cs by (simp add: queue_inv_def)
  have "unat (wq_queued q - wc_remaining c0) = unat (wq_queued q) - unat (wc_remaining c0)"
    using le by (rule unat_sub_no_wrap)
  moreover have "unat (wq_inflight q + wc_remaining c0) = unat (wq_inflight q) + unat (wc_remaining c0)"
    using inv le unat_u64_bound [of "wq_limit q"]
    by (intro unat_add_no_wrap) (simp add: queue_inv_def)
  ultimately show "queue_inv q' (c # out)"
    using inv cs le by (auto simp: queue_inv_def q' c chunk_wf_def wc_remaining_def)
qed

lemma requeue_inv:
  assumes inv: "queue_inv q (c # out)"
  shows "\<exists>q'. wq_requeue_front c q = (PTY_WRITE_ACCEPTED, q') \<and> queue_inv q' out \<and>
    queue_rest q' = chunk_rest c @ queue_rest q \<and> wq_limit q' = wq_limit q"
proof -
  have wf: "chunk_wf c" and acc: "wc_remaining c \<le> wc_accounted c"
    and infl: "unat (wc_accounted c) \<le> unat (wq_inflight q)"
    using inv by (simp_all add: queue_inv_def)
  let ?q' = "q\<lparr>wq_chunks := c\<lparr>wc_accounted := wc_remaining c\<rparr> # wq_chunks q,
              wq_inflight := wq_inflight q - wc_accounted c,
              wq_queued := wq_queued q + wc_remaining c\<rparr>"
  have "wq_requeue_front c q = (PTY_WRITE_ACCEPTED, ?q')"
    using wf acc infl by (simp add: wq_requeue_front_def chunk_wf_def not_less word_le_nat_alt)
  moreover have "queue_inv ?q' out"
  proof -
    have 1: "unat (wq_inflight q - wc_accounted c) = unat (wq_inflight q) - unat (wc_accounted c)"
      using infl by (rule unat_sub_no_wrap)
    have racc: "unat (wc_remaining c) \<le> unat (wc_accounted c)"
      using acc by (simp add: word_le_nat_alt)
    have 2: "unat (wq_queued q + wc_remaining c) = unat (wq_queued q) + unat (wc_remaining c)"
      using inv infl racc unat_u64_bound [of "wq_limit q"]
      by (intro unat_add_no_wrap) (simp add: queue_inv_def)
    from inv infl racc 1 2 show ?thesis
      by (auto simp: queue_inv_def chunk_wf_def wc_remaining_def)
  qed
  moreover have "queue_rest ?q' = chunk_rest c @ queue_rest q"
    by (simp add: queue_rest_def chunk_rest_def)
  ultimately show ?thesis by auto
qed

lemma complete_inv:
  assumes inv: "queue_inv q (c # out)"
  shows "queue_inv (wq_complete c q) out"
    and "queue_rest (wq_complete c q) = queue_rest q" and "wq_limit (wq_complete c q) = wq_limit q"
proof -
  have infl: "unat (wc_accounted c) \<le> unat (wq_inflight q)"
    using inv by (simp add: queue_inv_def)
  then have "min (wc_accounted c) (wq_inflight q) = wc_accounted c"
    by (simp add: min_def word_le_nat_alt)
  moreover have "unat (wq_inflight q - wc_accounted c) = unat (wq_inflight q) - unat (wc_accounted c)"
    using infl by (rule unat_sub_no_wrap)
  ultimately show "queue_inv (wq_complete c q) out"
    using inv infl by (auto simp: queue_inv_def wq_complete_def)
  show "queue_rest (wq_complete c q) = queue_rest q" and "wq_limit (wq_complete c q) = wq_limit q"
    by (simp_all add: queue_rest_def wq_complete_def)
qed

lemma advance_inv:
  assumes inv: "queue_inv q (c # out)" and n: "n \<le> length (chunk_rest c)"
  shows "queue_inv q (chunk_advance n c # out)"
    and "chunk_rest c = take n (chunk_rest c) @ chunk_rest (chunk_advance n c)"
proof -
  have wf: "chunk_wf c" and acc: "wc_remaining c \<le> wc_accounted c"
    using inv by (simp_all add: queue_inv_def)
  have n': "unat (wc_offset c) + n \<le> unat (wc_length c)"
    using n wf by (auto simp: length_chunk_rest unat_remaining chunk_wf_def word_le_nat_alt)
  have nb: "n < 2 ^ 64" using n' unat_u64_bound [of "wc_length c"] by simp
  have off: "unat (wc_offset c + of_nat n) = unat (wc_offset c) + n"
    using n' nb unat_u64_bound [of "wc_length c"]
    by (subst unat_add_no_wrap) (simp_all add: unat_of_nat_less)
  have wf': "chunk_wf (chunk_advance n c)"
    using wf n' off by (simp add: chunk_wf_def chunk_advance_def word_le_nat_alt)
  have "unat (wc_remaining (chunk_advance n c)) \<le> unat (wc_remaining c)"
    using unat_remaining [OF wf] unat_remaining [OF wf'] off by (simp add: chunk_advance_def)
  then have "wc_remaining (chunk_advance n c) \<le> wc_accounted (chunk_advance n c)"
    using acc by (simp add: word_le_nat_alt chunk_advance_def)
  with inv wf' show "queue_inv q (chunk_advance n c # out)"
    by (simp add: queue_inv_def chunk_advance_def)
  show "chunk_rest c = take n (chunk_rest c) @ chunk_rest (chunk_advance n c)"
    using off by (simp add: chunk_rest_def chunk_advance_def add.commute flip: drop_drop)
qed

subsection \<open>The contract of the queue's clients\<close>

text \<open>
  What \<open>pty_session_try_write\<close> and the writer of a session rely on: a producer enqueues, one
  writer holds at most one dequeued chunk, advances it, and requeues or completes it.
\<close>

datatype queue_op =
    OpEnqueue "u8 list" u64
  | OpDequeue
  | OpWritten nat
  | OpRequeue
  | OpComplete

record 'q queue_run =
  qr_queue :: 'q
  qr_held :: "write_chunk option"
  qr_accepted :: "u8 list"
  qr_written :: "u8 list"
  qr_dropped :: bool

locale byte_queue =
  fixes enqueue :: "u8 list \<Rightarrow> u64 \<Rightarrow> 'q \<Rightarrow> PtyTryWriteResult \<times> 'q"
    and dequeue :: "'q \<Rightarrow> write_chunk option \<times> 'q"
    and requeue :: "write_chunk \<Rightarrow> 'q \<Rightarrow> PtyTryWriteResult \<times> 'q"
    and complete :: "write_chunk \<Rightarrow> 'q \<Rightarrow> 'q"
    and pending :: "'q \<Rightarrow> u64"
    and limit :: "'q \<Rightarrow> u64"
    and stream :: "'q \<Rightarrow> u8 list"
    and invar :: "'q \<Rightarrow> write_chunk list \<Rightarrow> bool"
  assumes enq: "invar q out \<Longrightarrow> length bytes < 2 ^ 64 \<Longrightarrow> enqueue bytes r q = (res, q') \<Longrightarrow>
      (if length bytes = 0 \<or> unat (pending q) + length bytes \<le> unat (limit q)
       then res = PTY_WRITE_ACCEPTED \<and> invar q' out \<and> stream q' = stream q @ bytes \<and> limit q' = limit q
       else res = PTY_WRITE_BACKPRESSURED \<and> q' = q)"
    and deq_none: "invar q out \<Longrightarrow> dequeue q = (None, q') \<Longrightarrow> q' = q \<and> stream q = []"
    and deq_some: "invar q out \<Longrightarrow> dequeue q = (Some c, q') \<Longrightarrow>
      invar q' (c # out) \<and> stream q = chunk_rest c @ stream q' \<and> limit q' = limit q"
    and adv: "invar q (c # out) \<Longrightarrow> n \<le> length (chunk_rest c) \<Longrightarrow>
      invar q (chunk_advance n c # out) \<and>
      chunk_rest c = take n (chunk_rest c) @ chunk_rest (chunk_advance n c)"
    and req: "invar q (c # out) \<Longrightarrow> requeue c q = (res, q') \<Longrightarrow>
      res = PTY_WRITE_ACCEPTED \<and> invar q' out \<and> stream q' = chunk_rest c @ stream q \<and> limit q' = limit q"
    and compl: "invar q (c # out) \<Longrightarrow>
      invar (complete c q) out \<and> stream (complete c q) = stream q \<and> limit (complete c q) = limit q"
    and bound: "invar q out \<Longrightarrow> unat (pending q) \<le> unat (limit q)"
begin

text \<open>One step of the producer or of the writer; a step that does not apply changes nothing.\<close>

primrec run_op :: "queue_op \<Rightarrow> 'q queue_run \<Rightarrow> 'q queue_run" where
  "run_op (OpEnqueue bytes r) s =
     (if length bytes < 2 ^ 64
      then case enqueue bytes r (qr_queue s) of
             (res, q') \<Rightarrow> s\<lparr>qr_queue := q',
               qr_accepted := qr_accepted s @ (if res = PTY_WRITE_ACCEPTED then bytes else [])\<rparr>
      else s)"
| "run_op OpDequeue s =
     (case qr_held s of
        Some _ \<Rightarrow> s
      | None \<Rightarrow> (case dequeue (qr_queue s) of (c, q') \<Rightarrow> s\<lparr>qr_queue := q', qr_held := c\<rparr>))"
| "run_op (OpWritten n) s =
     (case qr_held s of
        None \<Rightarrow> s
      | Some c \<Rightarrow>
          if n \<le> length (chunk_rest c)
          then s\<lparr>qr_held := Some (chunk_advance n c), qr_written := qr_written s @ take n (chunk_rest c)\<rparr>
          else s)"
| "run_op OpRequeue s =
     (case qr_held s of
        None \<Rightarrow> s
      | Some c \<Rightarrow> s\<lparr>qr_queue := snd (requeue c (qr_queue s)), qr_held := None\<rparr>)"
| "run_op OpComplete s =
     (case qr_held s of
        None \<Rightarrow> s
      | Some c \<Rightarrow> s\<lparr>qr_queue := complete c (qr_queue s), qr_held := None,
                   qr_dropped := (qr_dropped s \<or> chunk_rest c \<noteq> [])\<rparr>)"

definition held_list :: "'q queue_run \<Rightarrow> write_chunk list" where
  "held_list s = (case qr_held s of None \<Rightarrow> [] | Some c \<Rightarrow> [c])"

definition run_inv :: "'q queue_run \<Rightarrow> bool" where
  "run_inv s \<longleftrightarrow> invar (qr_queue s) (held_list s) \<and>
     (qr_dropped s \<or> qr_accepted s = qr_written s @ concat (map chunk_rest (held_list s)) @ stream (qr_queue s))"

lemma run_op_inv: "run_inv s \<Longrightarrow> run_inv (run_op op s) \<and> limit (qr_queue (run_op op s)) = limit (qr_queue s)"
proof (induction op)
  case (OpEnqueue bytes r)
  obtain res q' where e: "enqueue bytes r (qr_queue s) = (res, q')" by fastforce
  show ?case
    using OpEnqueue enq [OF _ _ e, of "held_list s"]
    by (auto simp: run_inv_def e held_list_def split: if_splits)
next
  case OpDequeue
  show ?case
  proof (cases "qr_held s")
    case None
    obtain c q' where d: "dequeue (qr_queue s) = (c, q')" by fastforce
    show ?thesis
      using OpDequeue None deq_none [of "qr_queue s" "[]" q'] deq_some [of "qr_queue s" "[]" _ q']
      by (cases c) (auto simp: run_inv_def d held_list_def)
  next
    case (Some c)
    then show ?thesis using OpDequeue by simp
  qed
next
  case (OpWritten n)
  show ?case
    using OpWritten adv [of "qr_queue s" _ "[]" n]
    by (auto simp: run_inv_def held_list_def split: option.splits)
next
  case OpRequeue
  show ?case
    using OpRequeue req [of "qr_queue s" _ "[]"]
    by (cases "qr_held s") (auto simp: run_inv_def held_list_def prod_eq_iff split: option.splits)
next
  case OpComplete
  show ?case
    using OpComplete compl [of "qr_queue s" _ "[]"]
    by (cases "qr_held s") (auto simp: run_inv_def held_list_def split: option.splits)
qed

lemma run_ops_inv:
  "run_inv s \<Longrightarrow> run_inv (fold run_op ops s) \<and> limit (qr_queue (fold run_op ops s)) = limit (qr_queue s)"
proof (induction ops arbitrary: s)
  case Nil
  then show ?case by simp
next
  case (Cons op ops)
  then show ?case using run_op_inv [of s op] by simp
qed

text \<open>First in, first out, without loss: unless a chunk was dropped unfinished, the accepted bytes
  are the written ones, then the rest of the chunk in hand, then the queue's content; and the bytes
  pending never exceed the limit.\<close>

lemma run_ops_fifo:
  assumes "run_inv s" and "\<not> qr_dropped (fold run_op ops s)"
  shows "\<exists>rest. qr_accepted (fold run_op ops s) = qr_written (fold run_op ops s) @ rest @
      stream (qr_queue (fold run_op ops s))"
    and "unat (pending (qr_queue (fold run_op ops s))) \<le> unat (limit (qr_queue s))"
proof -
  have "run_inv (fold run_op ops s)" and lim: "limit (qr_queue (fold run_op ops s)) = limit (qr_queue s)"
    using run_ops_inv [OF assms(1), of ops] by simp_all
  then have inv: "invar (qr_queue (fold run_op ops s)) (held_list (fold run_op ops s))"
    and "qr_accepted (fold run_op ops s) = qr_written (fold run_op ops s) @
      concat (map chunk_rest (held_list (fold run_op ops s))) @ stream (qr_queue (fold run_op ops s))"
    using assms(2) by (simp_all add: run_inv_def)
  then show "\<exists>rest. qr_accepted (fold run_op ops s) = qr_written (fold run_op ops s) @ rest @
      stream (qr_queue (fold run_op ops s))"
    by blast
  show "unat (pending (qr_queue (fold run_op ops s))) \<le> unat (limit (qr_queue s))"
    using bound [OF inv] lim by simp
qed

end

interpretation lq: byte_queue wq_try_enqueue wq_dequeue wq_requeue_front wq_complete wq_pending
  wq_limit queue_rest queue_inv
proof
  show "if length bytes = 0 \<or> unat (wq_pending q) + length bytes \<le> unat (wq_limit q)
        then res = PTY_WRITE_ACCEPTED \<and> queue_inv q' out \<and> queue_rest q' = queue_rest q @ bytes \<and>
             wq_limit q' = wq_limit q
        else res = PTY_WRITE_BACKPRESSURED \<and> q' = q"
    if "queue_inv q out" "length bytes < 2 ^ 64" "wq_try_enqueue bytes r q = (res, q')"
    for q out bytes r res q'
    using that enqueue_result [OF that(1,2), of r] enqueue_inv [OF that(1,2), of r q']
    by (auto simp: queue_inv_pending) (auto simp: wq_try_enqueue_def Let_def split: if_splits)
  show "q' = q \<and> queue_rest q = []" if "wq_dequeue q = (None, q')" for q q'
    using that by (auto simp: wq_dequeue_def queue_rest_def split: list.splits)
  show "queue_inv q' (c # out) \<and> queue_rest q = chunk_rest c @ queue_rest q' \<and> wq_limit q' = wq_limit q"
    if "queue_inv q out" "wq_dequeue q = (Some c, q')" for q out c q'
    using dequeue_inv [OF that] by simp
  show "queue_inv q (chunk_advance n c # out) \<and>
      chunk_rest c = take n (chunk_rest c) @ chunk_rest (chunk_advance n c)"
    if "queue_inv q (c # out)" "n \<le> length (chunk_rest c)" for q c out n
    using advance_inv [OF that] by simp
  show "res = PTY_WRITE_ACCEPTED \<and> queue_inv q' out \<and> queue_rest q' = chunk_rest c @ queue_rest q \<and>
      wq_limit q' = wq_limit q"
    if "queue_inv q (c # out)" "wq_requeue_front c q = (res, q')" for q c out res q'
    using requeue_inv [OF that(1)] that(2) by auto
  show "queue_inv (wq_complete c q) out \<and> queue_rest (wq_complete c q) = queue_rest q \<and>
      wq_limit (wq_complete c q) = wq_limit q"
    if "queue_inv q (c # out)" for q c out
    using complete_inv [OF that] by simp
  show "unat (wq_pending q) \<le> unat (wq_limit q)" if "queue_inv q out" for q out
    using that queue_inv_pending [OF that] by (simp add: queue_inv_def)
qed

end
