(* ===== verification/Write_Queue.thy ===== *)
theory Write_Queue
  imports Write_Queue_Spec Debug_Stats
begin

section \<open>The linked write queue (common/pty_write_queue.c)\<close>

text \<open>
  The queue as the C code has it: a structure with head and tail pointers into a heap of chunk
  nodes, byte counts, and the diagnostic counters it moves. Each operation runs under the queue's
  mutex, so it is one function here. The result \<open>None\<close> of an operation is undefined behaviour
  (a dangling pointer, a read past the caller's buffer); \<open>malloc\<close> answers with the address in the
  argument, or fails with \<open>None\<close>.
\<close>

subsection \<open>State\<close>

type_synonym addr = nat

record PtyWriteChunk =
  cn_next :: "addr option"
  cn_bytes :: "u8 list"
  cn_length :: u64
  cn_offset :: u64
  cn_request_id :: u64
  cn_accounted_bytes :: u64

record PtyWriteQueue =
  q_head :: "addr option"
  q_tail :: "addr option"
  q_limit :: u64
  q_queued_bytes :: u64
  q_inflight_bytes :: u64
  q_initialized :: bool

type_synonym chunk_heap = "addr \<rightharpoonup> PtyWriteChunk"

text \<open>The queue pointer of a call, the heap and the counters.\<close>

record qstate =
  qs_queue :: "PtyWriteQueue option"
  qs_heap :: chunk_heap
  qs_stats :: PtyDebugStats

subsection \<open>Operations\<close>

definition pty_write_queue_init :: "u64 \<Rightarrow> qstate \<Rightarrow> qstate" where
  "pty_write_queue_init limit st =
     (case qs_queue st of
        None \<Rightarrow> st
      | Some _ \<Rightarrow> st\<lparr>qs_queue := Some \<lparr>q_head = None, q_tail = None, q_limit = limit,
           q_queued_bytes = 0, q_inflight_bytes = 0, q_initialized = True\<rparr>\<rparr>)"

text \<open>Freeing NULL does nothing; freeing a dangling pointer is undefined.\<close>

definition pty_write_chunk_free :: "addr option \<Rightarrow> chunk_heap \<Rightarrow> chunk_heap option" where
  "pty_write_chunk_free chunk heap =
     (case chunk of
        None \<Rightarrow> Some heap
      | Some a \<Rightarrow> (case heap a of None \<Rightarrow> None | Some _ \<Rightarrow> Some (heap(a := None))))"

text \<open>The loop of the disposal; on a cyclic list it would not return.\<close>

partial_function (option) dispose_loop ::
  "addr option \<Rightarrow> chunk_heap \<Rightarrow> PtyDebugStats \<Rightarrow> (chunk_heap \<times> PtyDebugStats) option" where
  "dispose_loop chunk heap stats =
     (case chunk of
        None \<Rightarrow> Some (heap, stats)
      | Some a \<Rightarrow>
          (case heap a of
             None \<Rightarrow> None
           | Some n \<Rightarrow>
               (case pty_write_chunk_free chunk heap of
                  None \<Rightarrow> None
                | Some heap' \<Rightarrow>
                    dispose_loop (cn_next n) heap'
                      (pty_debug_pending_write_discarded (cn_length n - cn_offset n) stats))))"

definition pty_write_queue_dispose :: "qstate \<Rightarrow> qstate option" where
  "pty_write_queue_dispose st =
     (case qs_queue st of
        None \<Rightarrow> Some st
      | Some q \<Rightarrow>
          if \<not> q_initialized q then Some st
          else (case dispose_loop (q_head q) (qs_heap st) (qs_stats st) of
                  None \<Rightarrow> None
                | Some (heap', stats') \<Rightarrow>
                    Some \<lparr>qs_queue = Some (q\<lparr>q_head := None, q_tail := None, q_queued_bytes := 0,
                            q_initialized := False\<rparr>),
                          qs_heap = heap', qs_stats = stats'\<rparr>))"

definition pty_write_queue_try_enqueue ::
  "u64 \<Rightarrow> addr option \<Rightarrow> bool \<Rightarrow> u8 list option \<Rightarrow> u64 \<Rightarrow> u64 \<Rightarrow> qstate \<Rightarrow>
     (PtyTryWriteResult \<times> qstate) option" where
  "pty_write_queue_try_enqueue size_max chunk_alloc bytes_alloc bytes len request_id st =
     (case qs_queue st of
        None \<Rightarrow> Some (PTY_WRITE_ERROR, st)
      | Some q \<Rightarrow>
          if \<not> q_initialized q \<or> (len \<noteq> 0 \<and> bytes = None) then Some (PTY_WRITE_ERROR, st)
          else if len = 0 then Some (PTY_WRITE_ACCEPTED, st)
          else if len > size_max \<or> len > q_limit q then Some (PTY_WRITE_BACKPRESSURED, st)
          else (case chunk_alloc of
                  None \<Rightarrow> Some (PTY_WRITE_ERROR, st)
                | Some a \<Rightarrow>
                    if \<not> bytes_alloc then Some (PTY_WRITE_ERROR, st)
                    else if length (the bytes) < unat len then None
                    else
                      (let node = \<lparr>cn_next = None, cn_bytes = take (unat len) (the bytes),
                             cn_length = len, cn_offset = 0, cn_request_id = request_id,
                             cn_accounted_bytes = 0\<rparr>;
                           heap = (qs_heap st)(a \<mapsto> node) in
                       if q_queued_bytes q > q_limit q \<or>
                          q_inflight_bytes q > q_limit q - q_queued_bytes q \<or>
                          len > q_limit q - q_queued_bytes q - q_inflight_bytes q
                       then (case pty_write_chunk_free (Some a) heap of
                               None \<Rightarrow> None
                             | Some heap' \<Rightarrow> Some (PTY_WRITE_BACKPRESSURED, st\<lparr>qs_heap := heap'\<rparr>))
                       else
                         (case (case q_tail q of
                                  None \<Rightarrow> Some (Some a, heap)
                                | Some t \<Rightarrow>
                                    (case heap t of
                                       None \<Rightarrow> None
                                     | Some tn \<Rightarrow>
                                         Some (q_head q, heap(t \<mapsto> tn\<lparr>cn_next := Some a\<rparr>)))) of
                            None \<Rightarrow> None
                          | Some (head', heap') \<Rightarrow>
                              Some (PTY_WRITE_ACCEPTED,
                                \<lparr>qs_queue = Some (q\<lparr>q_head := head', q_tail := Some a,
                                   q_queued_bytes := q_queued_bytes q + len\<rparr>),
                                 qs_heap = heap',
                                 qs_stats = pty_debug_pending_write_enqueued len (qs_stats st)\<rparr>)))))"

definition pty_write_queue_dequeue :: "qstate \<Rightarrow> (addr option \<times> qstate) option" where
  "pty_write_queue_dequeue st =
     (case qs_queue st of
        None \<Rightarrow> Some (None, st)
      | Some q \<Rightarrow>
          if \<not> q_initialized q then Some (None, st)
          else (case q_head q of
                  None \<Rightarrow> Some (None, st)
                | Some a \<Rightarrow>
                    (case qs_heap st a of
                       None \<Rightarrow> None
                     | Some n \<Rightarrow>
                         (let remaining = cn_length n - cn_offset n in
                          Some (Some a,
                            \<lparr>qs_queue = Some (q\<lparr>q_head := cn_next n,
                               q_tail := (if cn_next n = None then None else q_tail q),
                               q_queued_bytes := q_queued_bytes q - remaining,
                               q_inflight_bytes := q_inflight_bytes q + remaining\<rparr>),
                             qs_heap = (qs_heap st)(a \<mapsto>
                               n\<lparr>cn_accounted_bytes := remaining, cn_next := None\<rparr>),
                             qs_stats = pty_debug_pending_write_started remaining (qs_stats st)\<rparr>)))))"

definition pty_write_queue_requeue_front ::
  "addr option \<Rightarrow> qstate \<Rightarrow> (PtyTryWriteResult \<times> qstate) option" where
  "pty_write_queue_requeue_front chunk st =
     (case qs_queue st of
        None \<Rightarrow> Some (PTY_WRITE_ERROR, st)
      | Some q \<Rightarrow>
          if \<not> q_initialized q then Some (PTY_WRITE_ERROR, st)
          else (case chunk of
                  None \<Rightarrow> Some (PTY_WRITE_ERROR, st)
                | Some a \<Rightarrow>
                    (case qs_heap st a of
                       None \<Rightarrow> None
                     | Some n \<Rightarrow>
                         if cn_offset n > cn_length n then Some (PTY_WRITE_ERROR, st)
                         else
                           (let remaining = cn_length n - cn_offset n in
                            if cn_accounted_bytes n < remaining \<or>
                               q_inflight_bytes q < cn_accounted_bytes n
                            then Some (PTY_WRITE_BACKPRESSURED, st)
                            else Some (PTY_WRITE_ACCEPTED,
                              \<lparr>qs_queue = Some (q\<lparr>q_head := Some a,
                                 q_tail := (if q_tail q = None then Some a else q_tail q),
                                 q_inflight_bytes := q_inflight_bytes q - cn_accounted_bytes n,
                                 q_queued_bytes := q_queued_bytes q + remaining\<rparr>),
                               qs_heap = (qs_heap st)(a \<mapsto>
                                 n\<lparr>cn_next := q_head q, cn_accounted_bytes := remaining\<rparr>),
                               qs_stats = pty_debug_pending_write_requeued
                                 (cn_accounted_bytes n) remaining (qs_stats st)\<rparr>)))))"

definition pty_write_queue_complete_chunk :: "addr option \<Rightarrow> qstate \<Rightarrow> qstate option" where
  "pty_write_queue_complete_chunk chunk st =
     (case chunk of
        None \<Rightarrow> Some st
      | Some a \<Rightarrow>
          (case qs_heap st a of
             None \<Rightarrow> None
           | Some n \<Rightarrow>
               (let accounted_bytes = cn_accounted_bytes n;
                    (queue', accounted_bytes') =
                      (case qs_queue st of
                         None \<Rightarrow> (None, accounted_bytes)
                       | Some q \<Rightarrow>
                           if \<not> q_initialized q then (Some q, accounted_bytes)
                           else
                             (let clamped = (if accounted_bytes > q_inflight_bytes q
                                             then q_inflight_bytes q else accounted_bytes)
                              in (Some (q\<lparr>q_inflight_bytes := q_inflight_bytes q - clamped\<rparr>), clamped)))
                in (case pty_write_chunk_free chunk (qs_heap st) of
                      None \<Rightarrow> None
                    | Some heap' \<Rightarrow>
                        Some \<lparr>qs_queue = queue', qs_heap = heap',
                              qs_stats = pty_debug_pending_write_completed accounted_bytes' (qs_stats st)\<rparr>))))"

definition pty_write_queue_pending_bytes :: "qstate \<Rightarrow> u64" where
  "pty_write_queue_pending_bytes st =
     (case qs_queue st of
        None \<Rightarrow> 0
      | Some q \<Rightarrow> if \<not> q_initialized q then 0 else q_queued_bytes q + q_inflight_bytes q)"

definition pty_write_queue_queued_bytes :: "qstate \<Rightarrow> u64" where
  "pty_write_queue_queued_bytes st =
     (case qs_queue st of
        None \<Rightarrow> 0 | Some q \<Rightarrow> if \<not> q_initialized q then 0 else q_queued_bytes q)"

definition pty_write_queue_inflight_bytes :: "qstate \<Rightarrow> u64" where
  "pty_write_queue_inflight_bytes st =
     (case qs_queue st of
        None \<Rightarrow> 0 | Some q \<Rightarrow> if \<not> q_initialized q then 0 else q_inflight_bytes q)"

lemmas queue_op_defs = pty_write_queue_init_def pty_write_queue_try_enqueue_def
  pty_write_queue_dequeue_def pty_write_queue_requeue_front_def pty_write_queue_complete_chunk_def
  pty_write_queue_pending_bytes_def pty_write_queue_queued_bytes_def
  pty_write_queue_inflight_bytes_def pty_write_chunk_free_def

subsection \<open>The list a heap represents\<close>

definition chunk_of :: "PtyWriteChunk \<Rightarrow> write_chunk" where
  "chunk_of n = \<lparr>wc_bytes = cn_bytes n, wc_length = cn_length n, wc_offset = cn_offset n,
     wc_request_id = cn_request_id n, wc_accounted = cn_accounted_bytes n\<rparr>"

lemma chunk_of_simps [simp]:
  "wc_bytes (chunk_of n) = cn_bytes n" "wc_length (chunk_of n) = cn_length n"
  "wc_offset (chunk_of n) = cn_offset n" "wc_request_id (chunk_of n) = cn_request_id n"
  "wc_accounted (chunk_of n) = cn_accounted_bytes n"
  "wc_remaining (chunk_of n) = cn_length n - cn_offset n"
  "chunk_of (n\<lparr>cn_next := p\<rparr>) = chunk_of n"
  "chunk_of (n\<lparr>cn_accounted_bytes := w\<rparr>) = (chunk_of n)\<lparr>wc_accounted := w\<rparr>"
  by (simp_all add: chunk_of_def wc_remaining_def)

text \<open>The pointer \<open>p\<close> starts a NULL-terminated chain of the nodes at the addresses \<open>as\<close>, holding \<open>cs\<close>.\<close>

fun chain :: "chunk_heap \<Rightarrow> addr option \<Rightarrow> addr list \<Rightarrow> write_chunk list \<Rightarrow> bool" where
  "chain heap p [] [] \<longleftrightarrow> p = None"
| "chain heap p (a # as) (c # cs) \<longleftrightarrow>
     p = Some a \<and> (case heap a of None \<Rightarrow> False
                    | Some n \<Rightarrow> chunk_of n = c \<and> chain heap (cn_next n) as cs)"
| "chain heap p _ _ \<longleftrightarrow> False"

definition last_addr :: "addr list \<Rightarrow> addr option" where
  "last_addr as = (if as = [] then None else Some (last as))"

definition represents :: "qstate \<Rightarrow> addr list \<Rightarrow> write_queue \<Rightarrow> bool" where
  "represents st as aq \<longleftrightarrow>
     (case qs_queue st of
        None \<Rightarrow> False
      | Some q \<Rightarrow> q_initialized q \<and> chain (qs_heap st) (q_head q) as (wq_chunks aq) \<and> distinct as \<and>
          q_tail q = last_addr as \<and> q_limit q = wq_limit aq \<and> q_queued_bytes q = wq_queued aq \<and>
          q_inflight_bytes q = wq_inflight aq)"

text \<open>A chunk the queue has handed out: its node is in the heap but not in the chain.\<close>

definition holds :: "qstate \<Rightarrow> addr list \<Rightarrow> addr \<Rightarrow> write_chunk \<Rightarrow> bool" where
  "holds st as a c \<longleftrightarrow> map_option chunk_of (qs_heap st a) = Some c \<and> a \<notin> set as"

text \<open>The counters have moved by what the queue has gained (modulo \<open>2 ^ 64\<close>).\<close>

definition stats_track :: "qstate \<Rightarrow> write_queue \<Rightarrow> qstate \<Rightarrow> write_queue \<Rightarrow> int \<Rightarrow> bool" where
  "stats_track st aq st' aq' chunks \<longleftrightarrow>
     ds_pending_write_bytes (qs_stats st') - ds_pending_write_bytes (qs_stats st)
       = wq_queued aq' - wq_queued aq \<and>
     ds_inflight_write_bytes (qs_stats st') - ds_inflight_write_bytes (qs_stats st)
       = wq_inflight aq' - wq_inflight aq \<and>
     ds_pending_write_chunks (qs_stats st') - ds_pending_write_chunks (qs_stats st) = of_int chunks"

lemma chain_length: "chain heap p as cs \<Longrightarrow> length cs = length as"
  by (induction heap p as cs rule: chain.induct) (auto split: option.splits)

lemma chain_frame: "a \<notin> set as \<Longrightarrow> chain (heap(a := v)) p as cs = chain heap p as cs"
  by (induction heap p as cs rule: chain.induct) (auto split: option.splits)

lemma chain_in_heap: "chain heap p as cs \<Longrightarrow> b \<in> set as \<Longrightarrow> heap b \<noteq> None"
  by (induction heap p as cs rule: chain.induct) (auto split: option.splits)

lemma chain_None: "chain heap None as cs \<longleftrightarrow> as = [] \<and> cs = []"
  by (cases as; cases cs) auto

lemma chain_Some:
  "chain heap (Some a) as cs \<longleftrightarrow>
     (\<exists>n as' cs'. as = a # as' \<and> cs = chunk_of n # cs' \<and> heap a = Some n \<and>
        chain heap (cn_next n) as' cs')"
  by (cases as; cases cs) (auto split: option.splits)

text \<open>Linking a fresh node behind the last one.\<close>

lemma chain_snoc:
  assumes "chain heap p as cs" and "distinct as" and "as \<noteq> []" and "a \<notin> set as"
    and "heap (last as) = Some tn" and "cn_next node = None"
  shows "chain (heap(a \<mapsto> node, last as \<mapsto> tn\<lparr>cn_next := Some a\<rparr>)) p (as @ [a]) (cs @ [chunk_of node])"
  using assms
proof (induction heap p as cs rule: chain.induct)
  case (2 heap p b as c cs)
  show ?case
  proof (cases "as = []")
    case True
    with 2 show ?thesis
      by (cases cs) (auto split: option.splits)
  next
    case False
    with 2 show ?thesis
      by (auto split: option.splits)
  qed
qed simp_all

subsection \<open>Refinement\<close>

lemma refine_init:
  assumes "qs_queue st \<noteq> None"
  shows "represents (pty_write_queue_init limit st) [] (wq_new limit)"
  using assms by (auto simp: pty_write_queue_init_def represents_def wq_new_def last_addr_def)

lemma refine_enqueue:
  assumes rep: "represents st as aq" and fresh: "qs_heap st a = None"
    and len: "length bytes < 2 ^ 64" and fit: "of_nat (length bytes) \<le> size_max"
    and spec: "wq_try_enqueue bytes r aq = (res, aq')"
  shows "\<exists>st' as'. pty_write_queue_try_enqueue size_max (Some a) True (Some bytes)
       (of_nat (length bytes)) r st = Some (res, st') \<and>
     represents st' as' aq' \<and> stats_track st aq st' aq' (int (length as') - int (length as)) \<and>
     (\<forall>b c. b \<noteq> a \<longrightarrow> holds st as b c \<longrightarrow> holds st' as' b c)"
proof -
  obtain q where q: "qs_queue st = Some q" "q_initialized q"
    and ch: "chain (qs_heap st) (q_head q) as (wq_chunks aq)" "distinct as" "q_tail q = last_addr as"
    and flds: "q_limit q = wq_limit aq" "q_queued_bytes q = wq_queued aq"
      "q_inflight_bytes q = wq_inflight aq"
    using rep by (auto simp: represents_def split: option.splits)
  let ?len = "of_nat (length bytes) :: u64"
  have ulen: "unat ?len = length bytes" using len by (simp add: unat_of_nat_less)
  then have len0: "?len = 0 \<longleftrightarrow> bytes = []" by (metis length_0_conv unat_0 unat_eq_zero)
  have nfit: "\<not> ?len > size_max" using fit by (simp add: not_less)
  have anotin: "a \<notin> set as" using ch(1) fresh by (metis chain_in_heap)
  show ?thesis
  proof (cases "res = PTY_WRITE_ACCEPTED \<and> bytes \<noteq> []")
    case False
    then have "aq' = aq" using spec by (auto simp: wq_try_enqueue_def Let_def split: if_splits)
    moreover have "pty_write_queue_try_enqueue size_max (Some a) True (Some bytes) ?len r st = Some (res, st)"
      using False spec nfit len0 ulen fresh
      by (auto simp: pty_write_queue_try_enqueue_def wq_try_enqueue_def pty_write_chunk_free_def q flds
          Let_def fun_upd_idem split: if_splits)
    ultimately show ?thesis using rep by (auto simp: stats_track_def)
  next
    case True
    then have ok: "\<not> (?len > wq_limit aq \<or> wq_queued aq > wq_limit aq \<or>
              wq_inflight aq > wq_limit aq - wq_queued aq \<or>
              ?len > wq_limit aq - wq_queued aq - wq_inflight aq)"
      and aq': "aq' = aq\<lparr>wq_chunks := wq_chunks aq @ [\<lparr>wc_bytes = bytes, wc_length = ?len, wc_offset = 0,
                 wc_request_id = r, wc_accounted = 0\<rparr>], wq_queued := wq_queued aq + ?len\<rparr>"
      using spec by (auto simp: wq_try_enqueue_def Let_def split: if_splits)
    let ?node = "\<lparr>cn_next = None, cn_bytes = bytes, cn_length = ?len, cn_offset = 0,
      cn_request_id = r, cn_accounted_bytes = 0\<rparr>"
    let ?heap = "(qs_heap st)(a \<mapsto> ?node)"
    let ?st' = "\<lambda>h p. \<lparr>qs_queue = Some (q\<lparr>q_head := p, q_tail := Some a,
        q_queued_bytes := q_queued_bytes q + ?len\<rparr>), qs_heap = h,
        qs_stats = pty_debug_pending_write_enqueued ?len (qs_stats st)\<rparr>"
    show ?thesis
    proof (cases "as = []")
      case True
      then have "q_tail q = None" "wq_chunks aq = []"
        using ch chain_length [OF ch(1)] by (simp_all add: last_addr_def)
      then have "pty_write_queue_try_enqueue size_max (Some a) True (Some bytes) ?len r st
          = Some (PTY_WRITE_ACCEPTED, ?st' ?heap (Some a))"
        using ok nfit len0 ulen \<open>res = _ \<and> bytes \<noteq> []\<close>
        by (simp add: pty_write_queue_try_enqueue_def q flds Let_def)
      moreover have "represents (?st' ?heap (Some a)) [a] aq'"
        using q flds \<open>wq_chunks aq = []\<close> by (simp add: represents_def aq' last_addr_def chunk_of_def)
      ultimately show ?thesis
        using True \<open>res = _ \<and> bytes \<noteq> []\<close>
        by (intro exI [of _ "?st' ?heap (Some a)"] exI [of _ "[a]"])
          (auto simp: stats_track_def holds_def aq' stats_defs)
    next
      case False
      then have tail: "q_tail q = Some (last as)" using ch by (simp add: last_addr_def)
      obtain tn where tn: "qs_heap st (last as) = Some tn"
        using chain_in_heap [OF ch(1) last_in_set [OF False]] by auto
      have la: "last as \<noteq> a" using anotin False by auto
      let ?heap' = "?heap(last as \<mapsto> tn\<lparr>cn_next := Some a\<rparr>)"
      have "pty_write_queue_try_enqueue size_max (Some a) True (Some bytes) ?len r st
          = Some (PTY_WRITE_ACCEPTED, ?st' ?heap' (q_head q))"
        using ok nfit len0 ulen tail tn la \<open>res = _ \<and> bytes \<noteq> []\<close>
        by (simp add: pty_write_queue_try_enqueue_def q flds Let_def)
      moreover have "represents (?st' ?heap' (q_head q)) (as @ [a]) aq'"
        using q flds chain_snoc [OF ch(1,2) False anotin tn, of ?node] ch(2) anotin
        by (simp add: represents_def aq' last_addr_def chunk_of_def)
      ultimately show ?thesis
        using \<open>res = _ \<and> bytes \<noteq> []\<close> last_in_set [OF False]
        by (intro exI [of _ "?st' ?heap' (q_head q)"] exI [of _ "as @ [a]"])
          (auto simp: stats_track_def holds_def aq' stats_defs)
    qed
  qed
qed

lemma refine_dequeue:
  assumes rep: "represents st as aq" and spec: "wq_dequeue aq = (c, aq')"
  shows "\<exists>st' as'. pty_write_queue_dequeue st
        = Some (map_option (\<lambda>_. hd as) c, st') \<and>
     represents st' as' aq' \<and> stats_track st aq st' aq' 0 \<and> as' = (if c = None then as else tl as) \<and>
     (\<forall>c'. c = Some c' \<longrightarrow> as = hd as # as' \<and> holds st' as' (hd as) c') \<and>
     (\<forall>b c'. holds st as b c' \<longrightarrow> holds st' as' b c')"
proof -
  obtain q where q: "qs_queue st = Some q" "q_initialized q"
    and ch: "chain (qs_heap st) (q_head q) as (wq_chunks aq)" "distinct as" "q_tail q = last_addr as"
    and flds: "q_limit q = wq_limit aq" "q_queued_bytes q = wq_queued aq"
      "q_inflight_bytes q = wq_inflight aq"
    using rep by (auto simp: represents_def split: option.splits)
  show ?thesis
  proof (cases "wq_chunks aq")
    case Nil
    then have "q_head q = None" using ch(1) by (cases as) auto
    then show ?thesis
      using spec Nil rep by (auto simp: wq_dequeue_def pty_write_queue_dequeue_def q stats_track_def)
  next
    case (Cons c0 cs)
    then obtain a as' n where as: "as = a # as'" "q_head q = Some a" "qs_heap st a = Some n"
      and c0: "c0 = chunk_of n" and rest: "chain (qs_heap st) (cn_next n) as' cs"
      using ch(1) by (cases as) (auto split: option.splits)
    have a: "a \<notin> set as'" using ch(2) as by simp
    have nx: "cn_next n = None \<longleftrightarrow> as' = []"
      using rest by (cases as'; cases cs) auto
    have tl: "(if cn_next n = None then None else q_tail q) = last_addr as'"
      using nx ch(3) as by (auto simp: last_addr_def)
    have c: "c = Some (c0\<lparr>wc_accounted := wc_remaining c0\<rparr>)"
      and aq': "aq' = aq\<lparr>wq_chunks := cs, wq_queued := wq_queued aq - wc_remaining c0,
           wq_inflight := wq_inflight aq + wc_remaining c0\<rparr>"
      using spec Cons by (simp_all add: wq_dequeue_def)
    let ?st' = "\<lparr>qs_queue = Some (q\<lparr>q_head := cn_next n,
                   q_tail := (if cn_next n = None then None else q_tail q),
                   q_queued_bytes := q_queued_bytes q - (cn_length n - cn_offset n),
                   q_inflight_bytes := q_inflight_bytes q + (cn_length n - cn_offset n)\<rparr>),
                 qs_heap = (qs_heap st)(a \<mapsto>
                   n\<lparr>cn_accounted_bytes := cn_length n - cn_offset n, cn_next := None\<rparr>),
                 qs_stats = pty_debug_pending_write_started (cn_length n - cn_offset n) (qs_stats st)\<rparr>"
    have "pty_write_queue_dequeue st = Some (Some a, ?st')"
      by (simp add: pty_write_queue_dequeue_def q as Let_def)
    moreover have "represents ?st' as' aq'"
      using q flds rest a ch(2) as tl by (simp add: represents_def aq' c0 chain_frame)
    moreover have "holds ?st' as' a (c0\<lparr>wc_accounted := wc_remaining c0\<rparr>)"
      using a by (simp add: holds_def c0)
    ultimately show ?thesis
      using as by (intro exI [of _ ?st'] exI [of _ as'])
        (auto simp: c stats_track_def aq' c0 stats_defs holds_def)
  qed
qed

lemma refine_requeue:
  assumes rep: "represents st as aq" and held: "holds st as a c"
    and spec: "wq_requeue_front c aq = (res, aq')"
  shows "\<exists>st' as'. pty_write_queue_requeue_front (Some a) st = Some (res, st') \<and>
     represents st' as' aq' \<and> stats_track st aq st' aq' 0 \<and>
     as' = (if res = PTY_WRITE_ACCEPTED then a # as else as)"
proof -
  obtain q where q: "qs_queue st = Some q" "q_initialized q"
    and ch: "chain (qs_heap st) (q_head q) as (wq_chunks aq)" "distinct as" "q_tail q = last_addr as"
    and flds: "q_limit q = wq_limit aq" "q_queued_bytes q = wq_queued aq"
      "q_inflight_bytes q = wq_inflight aq"
    using rep by (auto simp: represents_def split: option.splits)
  obtain n where n: "qs_heap st a = Some n" "chunk_of n = c" and a: "a \<notin> set as"
    using held by (auto simp: holds_def)
  show ?thesis
  proof (cases "res = PTY_WRITE_ACCEPTED")
    case False
    then have "aq' = aq" using spec by (auto simp: wq_requeue_front_def split: if_splits)
    then show ?thesis
      using False spec rep n(2)
      by (auto simp: wq_requeue_front_def pty_write_queue_requeue_front_def q n(1) flds Let_def
          stats_track_def split: if_splits)
  next
    case True
    then have ok: "\<not> wc_offset c > wc_length c" "\<not> (wc_accounted c < wc_remaining c \<or> wq_inflight aq < wc_accounted c)"
      and aq': "aq' = aq\<lparr>wq_chunks := c\<lparr>wc_accounted := wc_remaining c\<rparr> # wq_chunks aq,
              wq_inflight := wq_inflight aq - wc_accounted c,
              wq_queued := wq_queued aq + wc_remaining c\<rparr>"
      using spec by (auto simp: wq_requeue_front_def split: if_splits)
    let ?st' = "\<lparr>qs_queue = Some (q\<lparr>q_head := Some a,
                  q_tail := (if q_tail q = None then Some a else q_tail q),
                  q_inflight_bytes := q_inflight_bytes q - cn_accounted_bytes n,
                  q_queued_bytes := q_queued_bytes q + (cn_length n - cn_offset n)\<rparr>),
                qs_heap = (qs_heap st)(a \<mapsto>
                  n\<lparr>cn_next := q_head q, cn_accounted_bytes := cn_length n - cn_offset n\<rparr>),
                qs_stats = pty_debug_pending_write_requeued
                  (cn_accounted_bytes n) (cn_length n - cn_offset n) (qs_stats st)\<rparr>"
    have "pty_write_queue_requeue_front (Some a) st = Some (PTY_WRITE_ACCEPTED, ?st')"
      using ok n(2) by (auto simp: pty_write_queue_requeue_front_def q n(1) flds Let_def)
    moreover have "represents ?st' (a # as) aq'"
      using q flds ch a n(2) by (auto simp: represents_def aq' chain_frame last_addr_def)
    ultimately show ?thesis
      using True n(2) by (intro exI [of _ ?st'] exI [of _ "a # as"])
        (auto simp: stats_track_def aq' stats_defs)
  qed
qed

lemma refine_complete:
  assumes rep: "represents st as aq" and held: "holds st as a c"
  shows "\<exists>st'. pty_write_queue_complete_chunk (Some a) st = Some st' \<and>
     represents st' as (wq_complete c aq) \<and> stats_track st aq st' (wq_complete c aq) (-1) \<and>
     qs_heap st' = (qs_heap st)(a := None)"
proof -
  obtain q where q: "qs_queue st = Some q" "q_initialized q"
    and ch: "chain (qs_heap st) (q_head q) as (wq_chunks aq)" "distinct as" "q_tail q = last_addr as"
    and flds: "q_limit q = wq_limit aq" "q_queued_bytes q = wq_queued aq"
      "q_inflight_bytes q = wq_inflight aq"
    using rep by (auto simp: represents_def split: option.splits)
  obtain n where n: "qs_heap st a = Some n" "chunk_of n = c" and a: "a \<notin> set as"
    using held by (auto simp: holds_def)
  let ?clamped = "min (cn_accounted_bytes n) (q_inflight_bytes q)"
  let ?st' = "\<lparr>qs_queue = Some (q\<lparr>q_inflight_bytes := q_inflight_bytes q - ?clamped\<rparr>),
      qs_heap = (qs_heap st)(a := None),
      qs_stats = pty_debug_pending_write_completed ?clamped (qs_stats st)\<rparr>"
  have "pty_write_queue_complete_chunk (Some a) st = Some ?st'"
    by (simp add: pty_write_queue_complete_chunk_def pty_write_chunk_free_def q n(1) min_def Let_def
        not_le)
  moreover have "represents ?st' as (wq_complete c aq)"
    using q flds ch a n(2) by (auto simp: represents_def wq_complete_def chain_frame)
  ultimately show ?thesis
    using flds n(2) by (auto simp: stats_track_def wq_complete_def stats_defs)
qed

text \<open>The disposal loop returns on every represented queue, frees exactly its chunks and takes
  their rest off the counters.\<close>

lemma dispose_loop_chain:
  assumes "chain heap p as cs" and "distinct as"
  shows "\<exists>stats'. dispose_loop p heap stats = Some (heap |` (- set as), stats') \<and>
     ds_pending_write_chunks stats' = ds_pending_write_chunks stats - of_nat (length as) \<and>
     ds_pending_write_bytes stats' = ds_pending_write_bytes stats - (\<Sum>c\<leftarrow>cs. wc_remaining c) \<and>
     ds_inflight_write_bytes stats' = ds_inflight_write_bytes stats"
  using assms
proof (induction as arbitrary: heap p cs stats)
  case Nil
  then show ?case by (cases cs) (simp_all add: dispose_loop.simps restrict_map_def)
next
  case (Cons a as)
  then obtain n cs' where n: "p = Some a" "heap a = Some n" "cs = chunk_of n # cs'"
    "chain heap (cn_next n) as cs'" and a: "a \<notin> set as" "distinct as"
    by (cases cs) (auto split: option.splits)
  let ?stats1 = "pty_debug_pending_write_discarded (cn_length n - cn_offset n) stats"
  have "chain (heap(a := None)) (cn_next n) as cs'"
    using n a by (simp add: chain_frame)
  then obtain stats' where stats': "dispose_loop (cn_next n) (heap(a := None)) ?stats1
      = Some (heap(a := None) |` (- set as), stats')"
    "ds_pending_write_chunks stats' = ds_pending_write_chunks ?stats1 - of_nat (length as)"
    "ds_pending_write_bytes stats' = ds_pending_write_bytes ?stats1 - (\<Sum>c\<leftarrow>cs'. wc_remaining c)"
    "ds_inflight_write_bytes stats' = ds_inflight_write_bytes ?stats1"
    using Cons.IH [of "heap(a := None)" "cn_next n" cs' ?stats1] a(2) by blast
  have "heap(a := None) |` (- set as) = heap |` (- set (a # as))"
    by (rule ext) (simp add: restrict_map_def)
  then show ?case
    using stats' n
    by (simp add: dispose_loop.simps [of "Some a" heap stats] pty_write_chunk_free_def stats_defs)
qed

subsection \<open>Properties\<close>

text \<open>C2: admission. With a valid queue and memory available, enqueueing through the linked list does
  exactly what the sequence specification says: accepted chunks are linked behind the tail, the byte
  count and the counters move by the length, a request over the limit (counting queued and in-flight
  bytes) is refused with nothing changed, no dangling pointer is followed, and every chunk handed
  out before stays as it was.\<close>

theorem enqueue_refines:
  assumes "represents st as aq" and "qs_heap st a = None"
    and "length bytes < 2 ^ 64" and "of_nat (length bytes) \<le> size_max"
  shows "\<exists>st' as'. pty_write_queue_try_enqueue size_max (Some a) True (Some bytes)
       (of_nat (length bytes)) r st = Some (fst (wq_try_enqueue bytes r aq), st') \<and>
     represents st' as' (snd (wq_try_enqueue bytes r aq)) \<and>
     stats_track st aq st' (snd (wq_try_enqueue bytes r aq)) (int (length as') - int (length as)) \<and>
     (\<forall>b c. b \<noteq> a \<longrightarrow> holds st as b c \<longrightarrow> holds st' as' b c)"
  by (rule refine_enqueue [OF assms]) simp

definition example_qstate :: qstate where
  "example_qstate = pty_write_queue_init 4
     \<lparr>qs_queue = Some undefined, qs_heap = Map.empty, qs_stats = stats_zero\<rparr>"

lemma example_represents: "represents example_qstate [] (wq_new 4)"
  by (simp add: example_qstate_def refine_init)

theorem enqueue_refines_witness:
  "\<exists>st' as'. pty_write_queue_try_enqueue (-1) (Some 7) True (Some [1, 2, 3])
       (of_nat (length [1 :: u8, 2, 3])) 11 example_qstate
       = Some (fst (wq_try_enqueue [1, 2, 3] 11 (wq_new 4)), st') \<and>
     represents st' as' (snd (wq_try_enqueue [1, 2, 3] 11 (wq_new 4))) \<and>
     stats_track example_qstate (wq_new 4) st' (snd (wq_try_enqueue [1, 2, 3] 11 (wq_new 4)))
       (int (length as') - int (length ([] :: addr list))) \<and>
     (\<forall>b c. b \<noteq> 7 \<longrightarrow> holds example_qstate [] b c \<longrightarrow> holds st' as' b c)"
  by (rule enqueue_refines [OF example_represents])
    (simp_all add: example_qstate_def pty_write_queue_init_def)


text \<open>A queue of one linked chunk, and another chunk in hand.\<close>

definition example_busy :: qstate where
  "example_busy = \<lparr>qs_queue = Some \<lparr>q_head = Some 1, q_tail = Some 1, q_limit = 8, q_queued_bytes = 1,
       q_inflight_bytes = 2, q_initialized = True\<rparr>,
     qs_heap = [1 \<mapsto> \<lparr>cn_next = None, cn_bytes = [9], cn_length = 1, cn_offset = 0,
         cn_request_id = 5, cn_accounted_bytes = 0\<rparr>,
       2 \<mapsto> \<lparr>cn_next = None, cn_bytes = [7, 8], cn_length = 2, cn_offset = 1,
         cn_request_id = 4, cn_accounted_bytes = 2\<rparr>],
     qs_stats = stats_zero\<rparr>"


text \<open>C4: disposal terminates on every valid queue, frees exactly the queue's chunks, and leaves the
  counters without them.\<close>

theorem dispose_frees_all:
  assumes "represents st as aq" and "queue_inv aq []"
  shows "\<exists>st'. pty_write_queue_dispose st = Some st' \<and> qs_heap st' = qs_heap st |` (- set as) \<and>
     stats_track st aq st' (wq_new (wq_limit aq)) (- int (length as)) \<and>
     pty_write_queue_pending_bytes st' = 0"
proof -
  obtain q where q: "qs_queue st = Some q" "q_initialized q"
    and ch: "chain (qs_heap st) (q_head q) as (wq_chunks aq)" "distinct as"
    using assms(1) by (auto simp: represents_def split: option.splits)
  obtain stats' where d: "dispose_loop (q_head q) (qs_heap st) (qs_stats st)
      = Some (qs_heap st |` (- set as), stats')"
    "ds_pending_write_chunks stats' = ds_pending_write_chunks (qs_stats st) - of_nat (length as)"
    "ds_pending_write_bytes stats' = ds_pending_write_bytes (qs_stats st) - (\<Sum>c\<leftarrow>wq_chunks aq. wc_remaining c)"
    "ds_inflight_write_bytes stats' = ds_inflight_write_bytes (qs_stats st)"
    using dispose_loop_chain [OF ch] by blast
  have "unat (wq_queued aq) = (\<Sum>c\<leftarrow>wq_chunks aq. unat (wc_remaining c))"
    using assms(2) by (simp add: queue_inv_def)
  then have "of_nat (unat (wq_queued aq)) = (of_nat (\<Sum>c\<leftarrow>wq_chunks aq. unat (wc_remaining c)) :: u64)"
    by simp
  also have "\<dots> = (\<Sum>c\<leftarrow>wq_chunks aq. wc_remaining c)"
    by (rule of_nat_sum_unat)
  finally have "wq_queued aq = (\<Sum>c\<leftarrow>wq_chunks aq. wc_remaining c)" by simp
  moreover have "wq_inflight aq = 0"
    using assms(2) by (simp add: queue_inv_def unat_eq_zero)
  ultimately show ?thesis
    using d q by (auto simp: pty_write_queue_dispose_def stats_track_def wq_new_def
        pty_write_queue_pending_bytes_def)
qed

theorem dispose_frees_all_witness:
  "\<exists>st'. pty_write_queue_dispose example_qstate = Some st' \<and> pty_write_queue_pending_bytes st' = 0"
  using dispose_frees_all [OF example_represents] by (auto simp: queue_inv_new)

subsection \<open>Whole runs of the linked queue\<close>

text \<open>
  A producer and one writer on the C queue: the operations of \<open>queue_op\<close>, with the answer of
  \<open>malloc\<close> for an enqueue (an address that is not in use, or NULL). The writer advances the offset
  of the chunk in hand itself, as both sessions do.
\<close>

datatype linked_op =
    LEnqueue "addr option" "u8 list" u64
  | LDequeue
  | LWritten nat
  | LRequeue
  | LComplete

record linked_run =
  lr_state :: qstate
  lr_held :: "addr option"
  lr_accepted :: "u8 list"
  lr_written :: "u8 list"
  lr_dropped :: bool

definition in_use :: "qstate \<Rightarrow> addr option \<Rightarrow> bool" where
  "in_use st alloc \<longleftrightarrow> (case alloc of None \<Rightarrow> False | Some a \<Rightarrow> qs_heap st a \<noteq> None)"

definition node_rest :: "PtyWriteChunk \<Rightarrow> u8 list" where
  "node_rest n = drop (unat (cn_offset n)) (cn_bytes n)"

primrec linked_step :: "linked_op \<Rightarrow> linked_run \<Rightarrow> linked_run option" where
  "linked_step (LEnqueue alloc bytes r) s =
     (if length bytes \<ge> 2 ^ 64 \<or> in_use (lr_state s) alloc then Some s
      else case pty_write_queue_try_enqueue (-1) alloc True (Some bytes) (of_nat (length bytes)) r
                  (lr_state s) of
             None \<Rightarrow> None
           | Some (res, st') \<Rightarrow> Some (s\<lparr>lr_state := st',
               lr_accepted := lr_accepted s @ (if res = PTY_WRITE_ACCEPTED then bytes else [])\<rparr>))"
| "linked_step LDequeue s =
     (case lr_held s of
        Some _ \<Rightarrow> Some s
      | None \<Rightarrow> (case pty_write_queue_dequeue (lr_state s) of
                   None \<Rightarrow> None
                 | Some (chunk, st') \<Rightarrow> Some (s\<lparr>lr_state := st', lr_held := chunk\<rparr>)))"
| "linked_step (LWritten n) s =
     (case lr_held s of
        None \<Rightarrow> Some s
      | Some a \<Rightarrow>
          (case qs_heap (lr_state s) a of
             None \<Rightarrow> None
           | Some node \<Rightarrow>
               if n \<le> length (node_rest node)
               then Some (s\<lparr>lr_state := (lr_state s)\<lparr>qs_heap := (qs_heap (lr_state s))(a \<mapsto>
                        node\<lparr>cn_offset := cn_offset node + of_nat n\<rparr>)\<rparr>,
                      lr_written := lr_written s @ take n (node_rest node)\<rparr>)
               else Some s))"
| "linked_step LRequeue s =
     (case lr_held s of
        None \<Rightarrow> Some s
      | Some a \<Rightarrow> (case pty_write_queue_requeue_front (Some a) (lr_state s) of
                     None \<Rightarrow> None
                   | Some (res, st') \<Rightarrow> Some (s\<lparr>lr_state := st', lr_held := None\<rparr>)))"
| "linked_step LComplete s =
     (case lr_held s of
        None \<Rightarrow> Some s
      | Some a \<Rightarrow>
          (case (qs_heap (lr_state s) a, pty_write_queue_complete_chunk (Some a) (lr_state s)) of
             (Some node, Some st') \<Rightarrow> Some (s\<lparr>lr_state := st', lr_held := None,
                lr_dropped := (lr_dropped s \<or> node_rest node \<noteq> [])\<rparr>)
           | _ \<Rightarrow> None))"

primrec linked_steps :: "linked_op list \<Rightarrow> linked_run \<Rightarrow> linked_run option" where
  "linked_steps [] s = Some s"
| "linked_steps (op # ops) s =
     (case linked_step op s of None \<Rightarrow> None | Some s' \<Rightarrow> linked_steps ops s')"

text \<open>The simulation by the sequence queue of \<open>lq\<close>.\<close>

definition linked_sim :: "linked_run \<Rightarrow> addr list \<Rightarrow> write_queue queue_run \<Rightarrow> bool" where
  "linked_sim s as t \<longleftrightarrow> represents (lr_state s) as (qr_queue t) \<and> lq.run_inv t \<and>
     (case lr_held s of
        None \<Rightarrow> qr_held t = None
      | Some a \<Rightarrow> (\<exists>c. qr_held t = Some c \<and> holds (lr_state s) as a c)) \<and>
     lr_accepted s = qr_accepted t \<and> lr_written s = qr_written t \<and> lr_dropped s = qr_dropped t"

primrec seq_op :: "linked_op \<Rightarrow> linked_run \<Rightarrow> queue_op" where
  "seq_op (LEnqueue alloc bytes r) s =
     OpEnqueue (if alloc = None \<or> in_use (lr_state s) alloc then [] else bytes) r"
| "seq_op LDequeue s = OpDequeue"
| "seq_op (LWritten n) s = OpWritten n"
| "seq_op LRequeue s = OpRequeue"
| "seq_op LComplete s = OpComplete"

lemma node_rest_chunk: "node_rest n = chunk_rest (chunk_of n)"
  by (simp add: node_rest_def chunk_rest_def)

lemma run_enqueue_nil: "lq.run_op (OpEnqueue [] r) t = t"
  by (simp add: wq_try_enqueue_def)

lemma enqueue_no_memory:
  assumes "represents st as aq"
  shows "\<exists>res. pty_write_queue_try_enqueue (-1) None True (Some bytes) len r st = Some (res, st) \<and>
     (res = PTY_WRITE_ACCEPTED \<longrightarrow> len = 0)"
  using assms by (auto simp: pty_write_queue_try_enqueue_def represents_def split: option.splits)

lemma sim_enqueue:
  assumes sim: "linked_sim s as t" and op: "op = LEnqueue alloc bytes r"
  shows "\<exists>s' as'. linked_step op s = Some s' \<and> linked_sim s' as' (lq.run_op (seq_op op s) t)"
proof -
  have rep: "represents (lr_state s) as (qr_queue t)" using sim by (simp add: linked_sim_def)
  have inv: "lq.run_inv (lq.run_op (seq_op op s) t)"
    using sim lq.run_op_inv by (simp add: linked_sim_def)
  consider (skip) "length bytes \<ge> 2 ^ 64 \<or> in_use (lr_state s) alloc"
    | (nomem) "length bytes < 2 ^ 64" "alloc = None"
    | (fresh) a where "length bytes < 2 ^ 64" "alloc = Some a" "qs_heap (lr_state s) a = None"
    by (cases alloc) (fastforce simp: in_use_def not_le)+
  then show ?thesis
  proof cases
    case skip
    then have "linked_step op s = Some s" by (auto simp: op)
    moreover have "lq.run_op (seq_op op s) t = t"
      using skip by (cases "in_use (lr_state s) alloc") (simp_all add: op wq_try_enqueue_def)
    ultimately show ?thesis using sim by metis
  next
    case nomem
    then obtain res where res: "pty_write_queue_try_enqueue (-1) None True (Some bytes)
        (of_nat (length bytes)) r (lr_state s) = Some (res, lr_state s)"
      and acc: "res = PTY_WRITE_ACCEPTED \<longrightarrow> (of_nat (length bytes) :: u64) = 0"
      using enqueue_no_memory [OF rep] by blast
    have "res = PTY_WRITE_ACCEPTED \<longrightarrow> bytes = []"
      using acc nomem(1) by (metis length_0_conv unat_0 unat_of_nat_less_64)
    then have "linked_step op s = Some s"
      using nomem res by (cases "res = PTY_WRITE_ACCEPTED") (auto simp: op not_le in_use_def)
    moreover have "lq.run_op (seq_op op s) t = t"
      using nomem by (simp add: op run_enqueue_nil del: lq.run_op.simps)
    ultimately show ?thesis using sim by metis
  next
    case fresh
    obtain res aq' where spec: "wq_try_enqueue bytes r (qr_queue t) = (res, aq')" by fastforce
    obtain st' as' where st': "pty_write_queue_try_enqueue (-1) (Some a) True (Some bytes)
        (of_nat (length bytes)) r (lr_state s) = Some (res, st')" "represents st' as' aq'"
        "\<forall>b c. b \<noteq> a \<longrightarrow> holds (lr_state s) as b c \<longrightarrow> holds st' as' b c"
      using refine_enqueue [OF rep fresh(3,1) _ spec, of "-1"] by auto
    have held: "b \<noteq> a" if "holds (lr_state s) as b c" for b c
      using that fresh(3) by (auto simp: holds_def)
    let ?s' = "s\<lparr>lr_state := st',
        lr_accepted := lr_accepted s @ (if res = PTY_WRITE_ACCEPTED then bytes else [])\<rparr>"
    have "linked_step op s = Some ?s'" using fresh st'(1) by (simp add: op in_use_def)
    moreover have "linked_sim ?s' as' (lq.run_op (seq_op op s) t)"
      using sim inv st'(2,3) held fresh spec
      by (auto simp: linked_sim_def op in_use_def split: option.splits)
    ultimately show ?thesis by blast
  qed
qed

lemma sim_dequeue:
  assumes sim: "linked_sim s as t"
  shows "\<exists>s' as'. linked_step LDequeue s = Some s' \<and> linked_sim s' as' (lq.run_op OpDequeue t)"
proof (cases "lr_held s")
  case (Some a)
  then show ?thesis using sim by (auto simp: linked_sim_def)
next
  case None
  have inv: "lq.run_inv (lq.run_op OpDequeue t)"
    using sim lq.run_op_inv by (simp add: linked_sim_def del: lq.run_op.simps)
  have rep: "represents (lr_state s) as (qr_queue t)" and held: "qr_held t = None"
    using sim None by (simp_all add: linked_sim_def)
  obtain c aq' where spec: "wq_dequeue (qr_queue t) = (c, aq')" by fastforce
  obtain st' as' where st': "pty_write_queue_dequeue (lr_state s) = Some (map_option (\<lambda>_. hd as) c, st')"
      "represents st' as' aq'" "\<forall>c'. c = Some c' \<longrightarrow> holds st' as' (hd as) c'"
    using refine_dequeue [OF rep spec] by blast
  have "linked_sim (s\<lparr>lr_state := st', lr_held := map_option (\<lambda>_. hd as) c\<rparr>) as' (lq.run_op OpDequeue t)"
    using sim inv st' held spec by (cases c) (auto simp: linked_sim_def)
  then show ?thesis using None st'(1) by auto
qed

lemma sim_written:
  assumes sim: "linked_sim s as t"
  shows "\<exists>s' as'. linked_step (LWritten n) s = Some s' \<and> linked_sim s' as' (lq.run_op (OpWritten n) t)"
proof (cases "lr_held s")
  case None
  then show ?thesis using sim by (auto simp: linked_sim_def)
next
  case (Some a)
  have inv: "lq.run_inv (lq.run_op (OpWritten n) t)"
    using sim lq.run_op_inv by (simp add: linked_sim_def del: lq.run_op.simps)
  obtain node where node: "qs_heap (lr_state s) a = Some node" "qr_held t = Some (chunk_of node)"
      and a: "a \<notin> set as"
    using sim Some by (auto simp: linked_sim_def holds_def)
  show ?thesis
  proof (cases "n \<le> length (node_rest node)")
    case False
    then show ?thesis using sim Some node by (auto simp: node_rest_chunk)
  next
    case True
    let ?st' = "(lr_state s)\<lparr>qs_heap := (qs_heap (lr_state s))(a \<mapsto>
        node\<lparr>cn_offset := cn_offset node + of_nat n\<rparr>)\<rparr>"
    have "represents ?st' as (qr_queue t)"
      using sim a by (auto simp: linked_sim_def represents_def chain_frame split: option.splits)
    moreover have "holds ?st' as a (chunk_advance n (chunk_of node))"
      using a by (simp add: holds_def chunk_of_def chunk_advance_def)
    ultimately have "linked_sim (s\<lparr>lr_state := ?st', lr_written := lr_written s @ take n (node_rest node)\<rparr>) as
        (lq.run_op (OpWritten n) t)"
      using sim inv Some node True by (auto simp: linked_sim_def node_rest_chunk)
    then show ?thesis using Some node True by auto
  qed
qed

lemma sim_requeue:
  assumes sim: "linked_sim s as t"
  shows "\<exists>s' as'. linked_step LRequeue s = Some s' \<and> linked_sim s' as' (lq.run_op OpRequeue t)"
proof (cases "lr_held s")
  case None
  then show ?thesis using sim by (auto simp: linked_sim_def)
next
  case (Some a)
  have inv: "lq.run_inv (lq.run_op OpRequeue t)"
    using sim lq.run_op_inv by (simp add: linked_sim_def del: lq.run_op.simps)
  obtain c where c: "qr_held t = Some c" "holds (lr_state s) as a c"
      and rep: "represents (lr_state s) as (qr_queue t)"
    using sim Some by (auto simp: linked_sim_def)
  obtain res aq' where spec: "wq_requeue_front c (qr_queue t) = (res, aq')" by fastforce
  obtain st' as' where "pty_write_queue_requeue_front (Some a) (lr_state s) = Some (res, st')"
      "represents st' as' aq'"
    using refine_requeue [OF rep c(2) spec] by blast
  then show ?thesis using sim inv Some c spec by (auto simp: linked_sim_def)
qed

lemma sim_complete:
  assumes sim: "linked_sim s as t"
  shows "\<exists>s' as'. linked_step LComplete s = Some s' \<and> linked_sim s' as' (lq.run_op OpComplete t)"
proof (cases "lr_held s")
  case None
  then show ?thesis using sim by (auto simp: linked_sim_def)
next
  case (Some a)
  have inv: "lq.run_inv (lq.run_op OpComplete t)"
    using sim lq.run_op_inv by (simp add: linked_sim_def del: lq.run_op.simps)
  obtain node where c: "qr_held t = Some (chunk_of node)" "holds (lr_state s) as a (chunk_of node)"
      "qs_heap (lr_state s) a = Some node" and rep: "represents (lr_state s) as (qr_queue t)"
    using sim Some by (auto simp: linked_sim_def holds_def)
  obtain st' where "pty_write_queue_complete_chunk (Some a) (lr_state s) = Some st'"
      "represents st' as (wq_complete (chunk_of node) (qr_queue t))"
    using refine_complete [OF rep c(2)] by blast
  then show ?thesis using sim inv Some c by (auto simp: linked_sim_def node_rest_chunk)
qed

lemma linked_step_sim:
  assumes "linked_sim s as t"
  shows "\<exists>s' as'. linked_step op s = Some s' \<and> linked_sim s' as' (lq.run_op (seq_op op s) t)"
  using sim_enqueue [OF assms] sim_dequeue [OF assms] sim_written [OF assms] sim_requeue [OF assms]
    sim_complete [OF assms]
  by (cases op) (simp_all only: seq_op.simps)

lemma linked_steps_sim:
  "linked_sim s as t \<Longrightarrow>
    \<exists>s' as' ops'. linked_steps ops s = Some s' \<and> linked_sim s' as' (fold lq.run_op ops' t)"
proof (induction ops arbitrary: s as t)
  case Nil
  then show ?case by (intro exI [of _ s] exI [of _ as] exI [of _ "[]"]) simp
next
  case (Cons op ops)
  obtain s1 as1 where s1: "linked_step op s = Some s1" "linked_sim s1 as1 (lq.run_op (seq_op op s) t)"
    using linked_step_sim [OF Cons.prems] by blast
  from Cons.IH [OF s1(2)] obtain s' as' ops' where
    "linked_steps ops s1 = Some s'" "linked_sim s' as' (fold lq.run_op ops' (lq.run_op (seq_op op s) t))"
    by blast
  then show ?case
    using s1(1) by (intro exI [of _ s'] exI [of _ as'] exI [of _ "seq_op op s # ops'"]) simp
qed

definition linked_start :: "u64 \<Rightarrow> qstate \<Rightarrow> linked_run" where
  "linked_start limit st = \<lparr>lr_state = pty_write_queue_init limit st, lr_held = None, lr_accepted = [],
     lr_written = [], lr_dropped = False\<rparr>"

lemma linked_start_sim:
  assumes "qs_queue st \<noteq> None"
  shows "linked_sim (linked_start limit st) [] \<lparr>qr_queue = wq_new limit, qr_held = None,
     qr_accepted = [], qr_written = [], qr_dropped = False\<rparr>"
  using refine_init [OF assms, of limit]
  by (simp add: linked_sim_def linked_start_def lq.run_inv_def lq.held_list_def queue_inv_new)
    (simp add: queue_rest_def wq_new_def)

lemma held_rest_pending:
  assumes "lq.run_inv t"
  shows "length (concat (map chunk_rest (lq.held_list t)) @ queue_rest (qr_queue t))
      \<le> unat (wq_pending (qr_queue t))"
    and "unat (wq_pending (qr_queue t)) \<le> unat (wq_limit (qr_queue t))"
proof -
  have inv: "queue_inv (qr_queue t) (lq.held_list t)" using assms by (simp add: lq.run_inv_def)
  have "length (concat (map chunk_rest cs)) \<le> (\<Sum>c\<leftarrow>cs. unat (wc_accounted c))"
    if "\<forall>c \<in> set cs. chunk_wf c \<and> wc_remaining c \<le> wc_accounted c" for cs
    using that by (induction cs) (auto simp: length_chunk_rest word_le_nat_alt intro!: add_mono)
  then have "length (concat (map chunk_rest (lq.held_list t))) \<le> unat (wq_inflight (qr_queue t))"
    using inv by (simp add: queue_inv_def)
  then show "length (concat (map chunk_rest (lq.held_list t)) @ queue_rest (qr_queue t))
      \<le> unat (wq_pending (qr_queue t))"
    by (simp add: queue_rest_length [OF inv] queue_inv_pending [OF inv])
  show "unat (wq_pending (qr_queue t)) \<le> unat (wq_limit (qr_queue t))"
    by (rule lq.bound [OF inv])
qed

lemma represents_pending: "represents st as aq \<Longrightarrow> pty_write_queue_pending_bytes st = wq_pending aq"
  by (auto simp: represents_def pty_write_queue_pending_bytes_def wq_pending_def split: option.splits)

text \<open>C1: first in, first out, nothing lost, bounded and without undefined behaviour: for every
  sequence of producer and writer steps on a freshly initialised C queue, every operation returns;
  until a chunk is given up unfinished, the accepted bytes are the written bytes followed by bytes
  still in hand or queued, in order and no more of them than are pending; and the pending bytes
  never exceed the limit.\<close>

theorem linked_queue_fifo:
  assumes "qs_queue st \<noteq> None"
  shows "\<exists>s. linked_steps ops (linked_start limit st) = Some s \<and>
    (lr_dropped s \<or> (\<exists>rest. lr_accepted s = lr_written s @ rest \<and>
       length rest \<le> unat (pty_write_queue_pending_bytes (lr_state s)))) \<and>
    unat (pty_write_queue_pending_bytes (lr_state s)) \<le> unat limit"
proof -
  let ?init = "\<lparr>qr_queue = wq_new limit, qr_held = None, qr_accepted = [], qr_written = [], qr_dropped = False\<rparr>"
  from linked_steps_sim [OF linked_start_sim [OF assms, of limit], of ops] obtain s as ops' where
    run: "linked_steps ops (linked_start limit st) = Some s"
    and sim: "linked_sim s as (fold lq.run_op ops' ?init)" by blast
  let ?t = "fold lq.run_op ops' ?init"
  have start: "lq.run_inv ?init"
    using linked_start_sim [OF assms, of limit] unfolding linked_sim_def by blast
  have inv: "lq.run_inv ?t"
    using lq.run_ops_inv [OF start, of ops'] by blast
  have "wq_limit (qr_queue ?t) = wq_limit (qr_queue ?init)"
    using lq.run_ops_inv [OF start, of ops'] by blast
  then have lim: "wq_limit (qr_queue ?t) = limit"
    by (simp add: wq_new_def)
  have pend: "pty_write_queue_pending_bytes (lr_state s) = wq_pending (qr_queue ?t)"
    using sim unfolding linked_sim_def by (blast intro: represents_pending)
  have "lr_dropped s \<or> lr_accepted s = lr_written s @
      (concat (map chunk_rest (lq.held_list ?t)) @ queue_rest (qr_queue ?t))"
    using sim inv unfolding linked_sim_def lq.run_inv_def by metis
  then have "lr_dropped s \<or> (\<exists>rest. lr_accepted s = lr_written s @ rest \<and>
      length rest \<le> unat (wq_pending (qr_queue ?t)))"
    using held_rest_pending(1) [OF inv] by metis
  moreover have "unat (wq_pending (qr_queue ?t)) \<le> unat limit"
    using held_rest_pending(2) [OF inv] unfolding lim .
  ultimately show ?thesis
    by (intro exI [of _ s] conjI run; unfold pend)
qed

theorem linked_queue_fifo_witness:
  "\<exists>s. linked_steps [LEnqueue (Some 7) [1, 2, 3] 11, LDequeue, LWritten 2, LRequeue, LDequeue]
      (linked_start 4 example_qstate) = Some s \<and>
    (lr_dropped s \<or> (\<exists>rest. lr_accepted s = lr_written s @ rest \<and>
       length rest \<le> unat (pty_write_queue_pending_bytes (lr_state s)))) \<and>
    unat (pty_write_queue_pending_bytes (lr_state s)) \<le> unat (4 :: u64)"
  by (rule linked_queue_fifo) (simp add: example_qstate_def pty_write_queue_init_def)

end
