(* ===== verification/Output_Credit.thy ===== *)
theory Output_Credit
  imports Pty_Prelude
begin

section \<open>Output flow control (pty_internal.h, the readers of both platforms)\<close>

text \<open>
  The window of output bytes Dart has not acknowledged: the reader asks for at most the credit,
  takes what it read off the credit, and \<open>pty_session_ack_output\<close> gives bytes back. The three
  pieces of arithmetic are the definitions; the runs below interleave them the way the platform
  mutex allows: an acknowledgement may fall between the computation of a capacity and the charge
  for the bytes read.
\<close>

definition pty_output_credit_after_ack :: "u64 \<Rightarrow> u64 \<Rightarrow> u64 \<Rightarrow> u64" where
  "pty_output_credit_after_ack credit limit byte_count =
     (if credit \<ge> limit \<or> byte_count > limit - credit then limit else credit + byte_count)"

text \<open>The stack buffers of the two readers.\<close>

abbreviation (input) PTY_REACTOR_BUFFER_SIZE :: u64 where "PTY_REACTOR_BUFFER_SIZE \<equiv> 16384"
abbreviation (input) PTY_WINDOWS_IO_BUFFER_SIZE :: u64 where "PTY_WINDOWS_IO_BUFFER_SIZE \<equiv> 65536"

definition read_capacity :: "u64 \<Rightarrow> bool \<Rightarrow> u64 \<Rightarrow> u64" where
  "read_capacity buffer_size discard credit =
     (if \<not> discard \<and> credit < buffer_size then credit else buffer_size)"

definition charge_credit :: "u64 \<Rightarrow> u64 \<Rightarrow> u64" where
  "charge_credit credit result = (if credit \<ge> result then credit - result else 0)"

lemma unat_after_ack:
  "unat (pty_output_credit_after_ack credit limit n) = min (unat limit) (unat credit + unat n)
    \<or> unat limit < unat credit"
proof (cases "credit \<ge> limit \<or> n > limit - credit")
  case True
  then have "unat limit \<le> unat credit + unat n"
    by (cases "credit \<ge> limit") (auto simp: word_le_nat_alt word_less_nat_alt unat_sub)
  then show ?thesis using True by (auto simp: pty_output_credit_after_ack_def)
next
  case False
  then have *: "unat credit + unat n \<le> unat limit"
    by (auto simp: word_le_nat_alt word_less_nat_alt unat_sub not_le not_less)
  moreover have "unat (credit + n) = unat credit + unat n"
    using * unat_u64_bound [of limit] by (intro unat_add_no_wrap) simp
  ultimately show ?thesis using False by (simp add: pty_output_credit_after_ack_def)
qed

lemma after_ack_window:
  assumes "unat credit \<le> unat limit"
  shows "unat (pty_output_credit_after_ack credit limit n) = min (unat limit) (unat credit + unat n)"
  using unat_after_ack [of credit limit n] assms by auto

lemma read_capacity_le: "unat (read_capacity b False credit) \<le> unat credit"
  by (simp add: read_capacity_def word_less_nat_alt)

lemma read_capacity_buffer: "unat (read_capacity b discard credit) \<le> unat b"
  by (auto simp: read_capacity_def word_less_nat_alt)

lemma unat_charge_credit: "unat (charge_credit credit n) = unat credit - unat n"
  by (simp add: charge_credit_def word_le_nat_alt unat_sub)

subsection \<open>Runs of a reader and an acknowledging consumer\<close>

datatype credit_op = CrBeginRead | CrFinishRead u64 | CrAck u64

record credit_run =
  cr_credit :: u64
  cr_capacity :: "u64 option"
  cr_posted :: nat
  cr_acked :: nat

primrec credit_step :: "u64 \<Rightarrow> u64 \<Rightarrow> credit_op \<Rightarrow> credit_run \<Rightarrow> credit_run" where
  "credit_step b limit CrBeginRead s =
     (if cr_capacity s = None \<and> cr_credit s \<noteq> 0
      then s\<lparr>cr_capacity := Some (read_capacity b False (cr_credit s))\<rparr> else s)"
| "credit_step b limit (CrFinishRead n) s =
     (case cr_capacity s of
        None \<Rightarrow> s
      | Some capacity \<Rightarrow>
          if n > capacity then s
          else s\<lparr>cr_capacity := None, cr_credit := charge_credit (cr_credit s) n,
                 cr_posted := cr_posted s + unat n\<rparr>)"
| "credit_step b limit (CrAck n) s =
     s\<lparr>cr_credit := pty_output_credit_after_ack (cr_credit s) limit n,
       cr_acked := cr_acked s + unat n\<rparr>"

definition credit_start :: "u64 \<Rightarrow> credit_run" where
  "credit_start limit = \<lparr>cr_credit = limit, cr_capacity = None, cr_posted = 0, cr_acked = 0\<rparr>"

definition credit_inv :: "u64 \<Rightarrow> credit_run \<Rightarrow> bool" where
  "credit_inv limit s \<longleftrightarrow> unat (cr_credit s) \<le> unat limit \<and>
     cr_posted s + unat (cr_credit s) \<le> unat limit + cr_acked s \<and>
     (case cr_capacity s of None \<Rightarrow> True | Some capacity \<Rightarrow> unat capacity \<le> unat (cr_credit s))"

lemma credit_step_inv: "credit_inv limit s \<Longrightarrow> credit_inv limit (credit_step b limit op s)"
proof (induction op)
  case CrBeginRead
  then show ?case by (auto simp: credit_inv_def read_capacity_le)
next
  case (CrFinishRead n)
  then show ?case
    by (auto simp: credit_inv_def unat_charge_credit word_le_nat_alt not_less split: option.splits)
next
  case (CrAck n)
  then show ?case
    by (auto simp: credit_inv_def after_ack_window split: option.splits)
qed

lemma credit_steps_inv: "credit_inv limit s \<Longrightarrow> credit_inv limit (fold (credit_step b limit) ops s)"
  by (induction ops arbitrary: s) (simp_all add: credit_step_inv)

text \<open>C8: an acknowledgement saturates at the window: the new credit is exactly the smaller of the
  window and the sum, for every 64-bit count, so no acknowledgement can wrap or widen the window.\<close>

theorem ack_saturates:
  "unat (pty_output_credit_after_ack credit limit n) = min (unat limit) (unat credit + unat n) \<or>
   (limit < credit \<and> pty_output_credit_after_ack credit limit n = limit)"
proof (cases "limit < credit")
  case True
  then show ?thesis by (simp add: pty_output_credit_after_ack_def less_imp_le)
next
  case False
  then show ?thesis using unat_after_ack [of credit limit n] by (simp add: word_less_nat_alt)
qed

text \<open>C7: the window holds for whole runs: however reads and acknowledgements (of any size, also
  more than was posted) interleave, the bytes posted and not acknowledged never exceed the window,
  and the reader is never charged for more than the credit it had.\<close>

theorem window_respected:
  "let s = fold (credit_step b limit) ops (credit_start limit) in
     cr_posted s + unat (cr_credit s) \<le> unat limit + cr_acked s \<and> cr_credit s \<le> limit"
proof -
  have "credit_inv limit (credit_start limit)"
    by (simp add: credit_inv_def credit_start_def)
  from credit_steps_inv [OF this, of b ops] show ?thesis
    by (simp add: Let_def credit_inv_def word_le_nat_alt)
qed

end
