(* ===== verification/Interleaving.thy ===== *)
theory Interleaving
  imports Pty_Prelude
begin

section \<open>Interleaved threads and token accounting\<close>

text \<open>
  A system is a shared state and a list of threads, each a stack of program points. One step takes
  the top point of any thread and replaces it by the points the step function gives back; threads it
  starts are appended. The two locales turn a law about single steps into a law about all runs:
  \<open>token_law\<close> counts tokens that points and state hold and that no step creates, \<open>stack_law\<close> lifts a
  property of single points to the points of all stacks.
\<close>

type_synonym ('s, 'i) config = "'s \<times> 'i list list"

definition run_thread ::
  "('i \<Rightarrow> 's \<Rightarrow> 's \<times> 'i list \<times> 'i list list) \<Rightarrow> nat \<Rightarrow> ('s, 'i) config \<Rightarrow> ('s, 'i) config" where
  "run_thread exec t cfg =
     (if t < length (snd cfg)
      then (case snd cfg ! t of
              [] \<Rightarrow> cfg
            | i # rest \<Rightarrow>
                (case exec i (fst cfg) of (s', push, new) \<Rightarrow> (s', (snd cfg)[t := push @ rest] @ new)))
      else cfg)"

definition stack_sum :: "('i \<Rightarrow> int) \<Rightarrow> 'i list \<Rightarrow> int" where
  "stack_sum w st = (\<Sum>i\<leftarrow>st. w i)"

definition thread_sum :: "('i \<Rightarrow> int) \<Rightarrow> 'i list list \<Rightarrow> int" where
  "thread_sum w ths = (\<Sum>st\<leftarrow>ths. stack_sum w st)"

lemma stack_sum_simps [simp]:
  "stack_sum w [] = 0" "stack_sum w (i # st) = w i + stack_sum w st"
  "stack_sum w (xs @ ys) = stack_sum w xs + stack_sum w ys"
  by (simp_all add: stack_sum_def)

lemma thread_sum_simps [simp]:
  "thread_sum w [] = 0" "thread_sum w (st # ths) = stack_sum w st + thread_sum w ths"
  "thread_sum w (xs @ ys) = thread_sum w xs + thread_sum w ys"
  by (simp_all add: thread_sum_def)

lemma thread_sum_update:
  "t < length ths \<Longrightarrow> thread_sum w (ths[t := st]) = thread_sum w ths - stack_sum w (ths ! t) + stack_sum w st"
  by (simp add: thread_sum_def sum_list_update_nat)

lemma stack_sum_nonneg: "(\<forall>i \<in> set st. 0 \<le> w i) \<Longrightarrow> 0 \<le> stack_sum w st"
  by (induction st) simp_all

lemma thread_sum_nonneg: "(\<forall>st \<in> set ths. \<forall>i \<in> set st. 0 \<le> w i) \<Longrightarrow> 0 \<le> thread_sum w ths"
  by (induction ths) (simp_all add: stack_sum_nonneg)

lemma stack_sum_member:
  "i \<in> set st \<Longrightarrow> (\<forall>j \<in> set st. 0 \<le> w j) \<Longrightarrow> w i \<le> stack_sum w st"
proof (induction st)
  case (Cons j st)
  then show ?case
    using stack_sum_nonneg [of st w] by (cases "i = j") auto
qed simp

lemma thread_sum_member:
  "st \<in> set ths \<Longrightarrow> (\<forall>st \<in> set ths. \<forall>j \<in> set st. 0 \<le> w j) \<Longrightarrow> stack_sum w st \<le> thread_sum w ths"
proof (induction ths)
  case (Cons st' ths)
  then show ?case
    using thread_sum_nonneg [of ths w] stack_sum_nonneg [of st' w] by (cases "st = st'") auto
qed simp

lemma stack_sum_mono: "(\<forall>i \<in> set st. v i \<le> w i) \<Longrightarrow> stack_sum v st \<le> stack_sum w st"
  by (induction st) (simp_all add: add_mono)

lemma thread_sum_mono: "(\<forall>st \<in> set ths. \<forall>i \<in> set st. v i \<le> w i) \<Longrightarrow> thread_sum v ths \<le> thread_sum w ths"
  by (induction ths) (simp_all add: add_mono stack_sum_mono)

text \<open>The two cases of a step.\<close>

lemma run_thread_cases:
  obtains (idle) "run_thread exec t cfg = cfg"
  | (step) i rest s' push new where "t < length (snd cfg)" "snd cfg ! t = i # rest"
      "exec i (fst cfg) = (s', push, new)"
      "run_thread exec t cfg = (s', (snd cfg)[t := push @ rest] @ new)"
proof (cases "t < length (snd cfg) \<and> snd cfg ! t \<noteq> []")
  case True
  then obtain i rest where ir: "snd cfg ! t = i # rest" by (cases "snd cfg ! t") auto
  obtain s' push new where e: "exec i (fst cfg) = (s', push, new)" by (cases "exec i (fst cfg)") auto
  show ?thesis
    by (rule step [of i rest s' push new]) (use True ir e in \<open>simp_all add: run_thread_def\<close>)
next
  case False
  then have "run_thread exec t cfg = cfg"
    by (cases "snd cfg ! t") (auto simp: run_thread_def)
  then show ?thesis by (rule idle)
qed

subsection \<open>Tokens\<close>

text \<open>A point \<open>i\<close> holds \<open>weight i\<close> tokens and the state \<open>pot s\<close>; where the precondition \<open>good\<close> of the
  executed point holds, a step creates none.\<close>

locale token_law =
  fixes exec :: "'i \<Rightarrow> 's \<Rightarrow> 's \<times> 'i list \<times> 'i list list"
    and weight :: "'i \<Rightarrow> int" and pot :: "'s \<Rightarrow> int" and good :: "'i \<Rightarrow> 's \<Rightarrow> bool"
  assumes law: "exec i s = (s', push, new) \<Longrightarrow> good i s \<Longrightarrow>
    pot s' + stack_sum weight push + thread_sum weight new \<le> pot s + weight i"
begin

definition tokens :: "('s, 'i) config \<Rightarrow> int" where
  "tokens cfg = pot (fst cfg) + thread_sum weight (snd cfg)"

definition good_top :: "nat \<Rightarrow> ('s, 'i) config \<Rightarrow> bool" where
  "good_top t cfg \<longleftrightarrow> (\<forall>i rest. t < length (snd cfg) \<longrightarrow> snd cfg ! t = i # rest \<longrightarrow> good i (fst cfg))"

lemma run_thread_tokens: "good_top t cfg \<Longrightarrow> tokens (run_thread exec t cfg) \<le> tokens cfg"
proof (cases rule: run_thread_cases [of exec t cfg])
  case (step i rest s' push new)
  assume "good_top t cfg"
  then have "good i (fst cfg)" using step by (auto simp: good_top_def)
  from law [OF step(3) this] show ?thesis
    using step by (simp add: tokens_def thread_sum_update)
qed simp

end

text \<open>When no step destroys tokens either, their number is constant.\<close>

locale token_conservation = token_law +
  assumes conserve: "exec i s = (s', push, new) \<Longrightarrow> good i s \<Longrightarrow>
    pot s + weight i \<le> pot s' + stack_sum weight push + thread_sum weight new"
begin

lemma run_thread_conserves: "good_top t cfg \<Longrightarrow> tokens (run_thread exec t cfg) = tokens cfg"
proof (cases rule: run_thread_cases [of exec t cfg])
  case (step i rest s' push new)
  assume g: "good_top t cfg"
  then have "good i (fst cfg)" using step by (auto simp: good_top_def)
  from conserve [OF step(3) this] have "tokens cfg \<le> tokens (run_thread exec t cfg)"
    using step by (simp add: tokens_def thread_sum_update)
  with run_thread_tokens [OF g] show ?thesis by simp
qed simp

end

subsection \<open>Points\<close>

text \<open>A fact about the state at every point of every stack.\<close>

definition all_points :: "('i \<Rightarrow> bool) \<Rightarrow> 'i list list \<Rightarrow> bool" where
  "all_points Q ths \<longleftrightarrow> (\<forall>st \<in> set ths. \<forall>j \<in> set st. Q j)"

lemma all_points_simps [simp]:
  "all_points Q []" "all_points Q (st # ths) \<longleftrightarrow> (\<forall>j \<in> set st. Q j) \<and> all_points Q ths"
  "all_points Q (xs @ ys) \<longleftrightarrow> all_points Q xs \<and> all_points Q ys"
  by (auto simp: all_points_def)

lemma all_points_nth: "all_points Q ths \<Longrightarrow> t < length ths \<Longrightarrow> ths ! t = i # rest \<Longrightarrow> Q i"
  unfolding all_points_def by (metis list.set_intros(1) nth_mem)

lemma all_points_update:
  "all_points Q ths \<Longrightarrow> (\<forall>j \<in> set st. Q j) \<Longrightarrow> all_points Q (ths[t := st])"
  by (auto simp: all_points_def dest!: set_update_subset_insert [THEN subsetD])

lemma all_points_rest:
  "all_points Q ths \<Longrightarrow> t < length ths \<Longrightarrow> ths ! t = i # rest \<Longrightarrow> (\<forall>j \<in> set rest. Q j)"
  unfolding all_points_def by (metis list.set_intros(2) nth_mem)

lemma all_points_mono: "all_points Q ths \<Longrightarrow> (\<And>j. Q j \<Longrightarrow> R j) \<Longrightarrow> all_points R ths"
  by (auto simp: all_points_def)

locale point_invariant =
  fixes exec :: "'i \<Rightarrow> 's \<Rightarrow> 's \<times> 'i list \<times> 'i list list"
    and P :: "'s \<Rightarrow> 'i \<Rightarrow> bool"
  assumes pushed: "exec i s = (s', push, new) \<Longrightarrow> P s i \<Longrightarrow> (\<forall>j \<in> set push. P s' j) \<and> all_points (P s') new"
    and stable: "exec i s = (s', push, new) \<Longrightarrow> P s i \<Longrightarrow> P s j \<Longrightarrow> P s' j"
begin

lemma run_thread_points:
  "all_points (P (fst cfg)) (snd cfg) \<Longrightarrow>
    all_points (P (fst (run_thread exec t cfg))) (snd (run_thread exec t cfg))"
proof (cases rule: run_thread_cases [of exec t cfg])
  case (step i rest s' push new)
  assume all: "all_points (P (fst cfg)) (snd cfg)"
  have i: "P (fst cfg) i" using all step by (simp add: all_points_nth)
  have "all_points (P s') (snd cfg)"
    using all stable [OF step(3) i] by (rule all_points_mono)
  then have "all_points (P s') ((snd cfg)[t := push @ rest])"
    using all_points_rest [OF _ step(1,2), of "P s'"] pushed [OF step(3) i]
    by (intro all_points_update) auto
  with step pushed [OF step(3) i] show ?thesis by simp
qed simp

end

end
