(* ===== verification/Unix_State.thy ===== *)
theory Unix_State
  imports Session_Core Write_Queue_Spec Output_Credit
begin

section \<open>The Unix session (unix/pty_unix_session.c)\<close>

text \<open>
  The shared state of a session and the code that runs on it, cut at its synchronisation points.
  A thread is a stack of program points (type \<open>point\<close>); executing the top one performs one atomic
  piece of the C code (one mutex section, one atomic access, one system call, one event post) and
  replaces it by the points that remain of its function, with the points of a called function on
  top. Each \<open>point\<close> names a place of a C function and carries that function's live locals.

  The input queue is the sequence queue of \<open>Write_Queue_Spec\<close>, which theory \<open>Write_Queue\<close> proves the
  linked list to implement. What the operating system and the allocator answer is an argument of
  every step (record \<open>answers\<close>). Fields with the prefix \<open>y_\<close> that the C code does not have are history:
  posted events, operating system calls in order, bytes accepted and written.
\<close>

subsection \<open>State\<close>

type_synonym fd = int
type_synonym pid_t = int

record PtyUnixPlatform =
  p_master_fd :: fd
  p_slave_fd :: fd
  p_process_id :: pid_t
  p_exit_fd :: fd
  p_release_fd :: fd
  p_process_released :: bool
  p_wake_read :: fd
  p_wake_write :: fd
  p_reactor_started :: bool
  p_waiter_started :: bool
  p_reactor_done :: bool
  p_waiter_done :: bool
  p_close_started :: bool
  p_close_done :: bool
  p_stopping :: bool
  p_write_backpressured :: bool
  p_discard_output :: bool
  p_output_hung_up :: bool
  p_output_closed :: bool
  p_input_closed :: bool
  p_session_closed_posted :: bool
  p_write_queue :: write_queue

text \<open>Calls with an effect outside the session, in the order they happen. \<open>OsRelease\<close> is the point
  from which the supervisor may reap the program and its pid may be reused.\<close>

datatype os_call =
    OsKill pid_t int
  | OsRelease
  | OsClose fd
  | OsSetWindow fd winsize

record sys =
  y_session :: "PtyUnixPlatform PtySession"
  y_freed :: bool
  y_fault :: bool
  y_port_open :: bool
  y_live :: bool
  y_wake :: bool
  y_stats :: PtyDebugStats
  y_dart :: int
  y_events :: "pty_event list"
  y_os :: "os_call list"
  y_accepted :: "u8 list"
  y_written :: "u8 list"
  y_dropped :: bool
  y_out_posted :: nat
  y_acked :: nat

subsection \<open>What the environment answers\<close>

datatype read_answer = ReadBytes "u8 list" | ReadErrno i32
datatype write_answer = WriteCount nat | WriteErrno i32

record poll_revents =
  rv_in :: bool
  rv_out :: bool
  rv_hup :: bool

datatype poll_answer = PollReady poll_revents | PollErrno i32

text \<open>The answer of \<open>pty_unix_spawn\<close>: an error, or the master, the slave, and the process.\<close>

record PtyUnixProcess =
  proc_process_id :: pid_t
  proc_exit_fd :: fd
  proc_release_fd :: fd

datatype spawn_answer = SpawnError PtyError | SpawnOk fd fd PtyUnixProcess

text \<open>\<open>pty_unix_read_exit\<close>: a report (signaled, value), the end of the pipe, or an error.\<close>

datatype exit_answer = ExitReport bool i32 | ExitEof | ExitErrno i32

record answers =
  an_alloc :: bool
  an_thread :: "i32 \<times> i32 \<times> i32"
  an_read :: read_answer
  an_write :: write_answer
  an_errno :: i32
  an_poll :: poll_answer
  an_tcgetpgrp :: int
  an_kill :: int
  an_ioctl :: int
  an_spawn :: spawn_answer
  an_exit :: exit_answer
  an_mutex_init :: i32
  an_pipe :: "(fd \<times> fd) option"
  an_nonblock :: "int \<times> int"
  an_dup :: fd

text \<open>\<open>strerror\<close> is a parameter of the platform; every error below goes through it.\<close>

type_synonym strerror = "i32 \<Rightarrow> string"

abbreviation (input) SIGKILL :: int where "SIGKILL \<equiv> 9"
abbreviation (input) PTY_CAPABILITIES :: u64 where "PTY_CAPABILITIES \<equiv> 7"

definition make_error :: "strerror \<Rightarrow> PtyErrorKind \<Rightarrow> i32 \<Rightarrow> string \<Rightarrow> PtyError" where
  "make_error strerror knd error_number operation =
     the (pty_error_set_errno strerror (Some undefined) knd error_number (Some operation))"

definition internal_error :: "PtyErrorKind \<Rightarrow> i32 \<Rightarrow> string \<Rightarrow> PtyError" where
  "internal_error knd code msg =
     the (pty_error_set (Some undefined) PTY_ERROR_DOMAIN_INTERNAL knd (scast code) (Some msg))"

subsection \<open>Program points\<close>

datatype PtyReadResult =
    PTY_READ_CLOSED | PTY_READ_EMPTY | PTY_READ_DATA | PTY_READ_CREDIT_EXHAUSTED

text \<open>Where \<open>read_output\<close> was called from: the drain loop after the process exit, the readable
  master, or the hang-up branch.\<close>

datatype read_site = SiteDrain poll_revents | SiteReadable poll_revents | SiteHangup

text \<open>The reactor's local copy of what it polls for.\<close>

record poll_request =
  rq_in :: bool
  rq_out :: bool
  rq_monitor :: bool
  rq_may_read :: bool

text \<open>Operations any thread may be in the middle of: posting, abandoning, releasing, signalling.\<close>

datatype session_point =
    PostEvent pty_event
  | PostNow pty_event
  | Abandon
  | ReleaseSession
  | MarkClosing
  | MarkClosed
  | WorkerStarted PtyDebugWorkerKind
  | WorkerFinished PtyDebugWorkerKind
  | CloseFd fd
  | WakeReactor
  | StopProcess
  | ReleaseProcess

datatype mark_point =
    MaybePostSessionClosed
  | MarkOutputClosed
  | StoreOutputClosed
  | MarkInputClosed "PtyError option"
  | StoreInputClosed
  | DiscardPendingWrites
  | DiscardComplete write_chunk
  | MaybePostWritable
  | CloseSlave

text \<open>\<open>pty_session_begin_close\<close> and \<open>close_worker\<close>.\<close>

datatype close_point =
    BeginClose
  | BeginCloseFromStarting
  | BeginCloseFromRunning
  | BeginClosePlatform
  | BeginCloseRetain
  | BeginCloseRetain2
  | BeginCloseCreate
  | BeginCloseFallback
  | CloserStart
  | CloserFinish

text \<open>\<open>pty_unix_flush_write_queue\<close> and \<open>read_output\<close>, both called by the reactor only.\<close>

datatype io_point =
    Flush poll_revents
  | FlushDequeue fd poll_revents
  | FlushWrite fd write_chunk poll_revents
  | FlushComplete fd write_chunk poll_revents
  | FlushGiveUp write_chunk PtyError poll_revents
  | ReadOutput read_site
  | ReadMaster fd bool u64 read_site
  | ReadCharge "u8 list" read_site
  | ReadPost "u8 list" read_site
  | ReadPostNow "u8 list" read_site
  | ReadPostFailed read_site
  | ReadFailed read_site

datatype reactor_point =
    ReactorLoop
  | ReactorPoll fd poll_request
  | ReactorWoken poll_revents bool
  | ReactorCheckStop poll_revents bool bool
  | ReactorCheckExit poll_revents
  | ReactorWritable poll_revents
  | ReactorFlushed poll_revents bool
  | ReactorFlushFailed
  | ReactorHangup poll_revents bool PtyReadResult
  | ReactorHungUp PtyReadResult
  | ReactorAfterEmpty
  | ReactorFinish

datatype waiter_point =
    WaiterStart
  | WaiterRead fd
  | WaiterExited exit_answer
  | WaiterFinish

datatype boot_point =
    BootSpawn
  | BootSetup fd fd PtyUnixProcess
  | BootCleanup PtyUnixProcess i32
  | BootPublish PtyUnixPlatform
  | BootCheckClosing
  | BootUnstarted
  | BootRetainReactor
  | BootCreateReactor
  | BootReactorFailed i32
  | BootRetainWaiter
  | BootCreateWaiter
  | BootWaiterFailed i32
  | BootRunning
  | BootLostRace

text \<open>The entry points Dart calls (\<open>pty_session_begin_close\<close> and \<open>pty_session_abandon\<close> are above).\<close>

datatype api_point =
    ApiTryWrite u64 "u8 list"
  | ApiAckOutput u64
  | ApiResize PtySize
  | ApiKill
  | ApiSendSignal int int
  | ApiDiscardOutput

datatype point =
    PS session_point
  | PM mark_point
  | PC close_point
  | PI io_point
  | PR reactor_point
  | PW waiter_point
  | PB boot_point
  | PA api_point

end
