(* ===== verification/Unix_Session.thy ===== *)
theory Unix_Session
  imports Unix_State
begin

section \<open>The operations of the Unix session (unix/pty_unix_session.c)\<close>

text \<open>
  One definition per atomic piece of the C functions. A result is the new state, the program points
  to run next (of the rest of the function and of the functions it calls), and the threads started.
  A dereference of a NULL platform, or any use of the session after it was freed, sets \<open>y_fault\<close>
  (undefined behaviour) and ends the thread.
\<close>

type_synonym step_result = "sys \<times> point list \<times> point list list"

subsection \<open>Access\<close>

definition platform_for :: "sys \<Rightarrow> PtyUnixPlatform option" where
  "platform_for s = pty_session_platform_load (Some (y_session s))"

definition update_session :: "(PtyUnixPlatform PtySession \<Rightarrow> PtyUnixPlatform PtySession) \<Rightarrow> sys \<Rightarrow> sys" where
  "update_session f s = s\<lparr>y_session := f (y_session s)\<rparr>"

definition set_platform :: "PtyUnixPlatform \<Rightarrow> sys \<Rightarrow> sys" where
  "set_platform p s = update_session (\<lambda>ss. ss\<lparr>s_platform := Some p\<rparr>) s"

definition continue_with :: "sys \<Rightarrow> point list \<Rightarrow> step_result" where
  "continue_with s ps = (s, ps, [])"

definition crash :: "sys \<Rightarrow> step_result" where
  "crash s = (s\<lparr>y_fault := True\<rparr>, [], [])"

text \<open>A function that returns early on a NULL platform, and one that dereferences it.\<close>

definition if_platform :: "sys \<Rightarrow> (PtyUnixPlatform \<Rightarrow> step_result) \<Rightarrow> step_result" where
  "if_platform s f = (case platform_for s of None \<Rightarrow> continue_with s [] | Some p \<Rightarrow> f p)"

definition deref_platform :: "sys \<Rightarrow> (PtyUnixPlatform \<Rightarrow> step_result) \<Rightarrow> step_result" where
  "deref_platform s f = (case platform_for s of None \<Rightarrow> crash s | Some p \<Rightarrow> f p)"

definition os :: "os_call list \<Rightarrow> sys \<Rightarrow> sys" where
  "os calls s = s\<lparr>y_os := y_os s @ calls\<rparr>"

definition count_stats :: "(PtyDebugStats \<Rightarrow> PtyDebugStats) \<Rightarrow> sys \<Rightarrow> sys" where
  "count_stats f s = s\<lparr>y_stats := f (y_stats s)\<rparr>"

text \<open>\<open>if (fd >= 0) close(fd)\<close>\<close>

definition close_if :: "fd \<Rightarrow> point list" where
  "close_if d = (if d \<ge> 0 then [PS (CloseFd d)] else [])"

definition close_calls :: "fd list \<Rightarrow> os_call list" where
  "close_calls fds = map OsClose (filter (\<lambda>d. d \<ge> 0) fds)"

subsection \<open>Posting, releasing, signalling\<close>

text \<open>\<open>post_session_event\<close>: nothing is posted for an abandoned session; the result is discarded by
  every caller but \<open>read_output\<close>, which has its own points.\<close>

definition post_session_event :: "pty_event \<Rightarrow> sys \<Rightarrow> step_result" where
  "post_session_event ev s =
     continue_with s (if pty_session_is_abandoned (Some (y_session s)) then [] else [PS (PostNow ev)])"

definition handle_posted_session_event :: "pty_event \<Rightarrow> sys \<Rightarrow> step_result" where
  "handle_posted_session_event ev s =
     (if y_port_open s then continue_with (s\<lparr>y_events := y_events s @ [ev]\<rparr>) []
      else continue_with s [PS Abandon])"

text \<open>Marking transfers the Dart reference to the caller, which releases it last.\<close>

definition pty_session_abandon :: "sys \<Rightarrow> step_result" where
  "pty_session_abandon s =
     (case pty_session_mark_abandoned (Some (y_session s)) of
        (False, _) \<Rightarrow> continue_with s []
      | (True, ss) \<Rightarrow>
          continue_with (s\<lparr>y_session := the ss, y_dart := y_dart s - 1\<rparr>)
            [PC BeginClose, PS ReleaseSession])"

definition free_unix_session :: "sys \<Rightarrow> sys" where
  "free_unix_session s =
     (case platform_for s of
        None \<Rightarrow> s\<lparr>y_freed := True\<rparr>
      | Some p \<Rightarrow>
          os (close_calls
               [p_master_fd p, p_slave_fd p, p_exit_fd p, p_release_fd p, p_wake_read p, p_wake_write p])
            (count_stats (\<lambda>st. fold (\<lambda>c. pty_debug_pending_write_discarded (wc_remaining c))
               (wq_chunks (p_write_queue p)) st) (s\<lparr>y_freed := True\<rparr>)))"

definition release_session :: "sys \<Rightarrow> step_result" where
  "release_session s =
     (case pty_session_release (Some (y_session s)) (y_stats s) of
        (outcome, ss, st) \<Rightarrow>
          (let s' = s\<lparr>y_session := the ss, y_stats := st\<rparr> in
           continue_with
             (case outcome of
                StillReferenced \<Rightarrow> s'
              | CallsFreeFunction _ \<Rightarrow> free_unix_session s'
              | CallsFree \<Rightarrow> s'\<lparr>y_freed := True\<rparr>) []))"

definition retain_session :: "sys \<Rightarrow> sys" where
  "retain_session s = update_session (\<lambda>ss. the (pty_session_retain (Some ss))) s"

text \<open>The wake pipe is non-blocking: a full pipe stays readable, so the result of the write does not
  matter.\<close>

definition wake_reactor :: "sys \<Rightarrow> step_result" where
  "wake_reactor s = deref_platform s (\<lambda>_. continue_with (s\<lparr>y_wake := True\<rparr>) [])"

definition pty_unix_drain_wake_pipe :: "sys \<Rightarrow> sys" where
  "pty_unix_drain_wake_pipe s = s\<lparr>y_wake := False\<rparr>"

definition stop_calls :: "answers \<Rightarrow> PtyUnixPlatform \<Rightarrow> os_call list" where
  "stop_calls a p =
     (let foreground = (if p_master_fd p \<ge> 0 then an_tcgetpgrp a else -1) in
      (if foreground > 0 then [OsKill (- foreground) SIGKILL] else []) @
      [OsKill (- p_process_id p) SIGKILL, OsKill (p_process_id p) SIGKILL])"

definition stop_process :: "answers \<Rightarrow> sys \<Rightarrow> step_result" where
  "stop_process a s =
     if_platform s (\<lambda>p.
       if p_process_id p \<le> 0 then continue_with s []
       else if p_process_released p \<or> s_process_exited (y_session s) then continue_with s []
       else continue_with (os (stop_calls a p) s) [])"

definition release_process :: "sys \<Rightarrow> step_result" where
  "release_process s =
     deref_platform s (\<lambda>p.
       continue_with
         (os [OsRelease] (set_platform
            (p\<lparr>p_exit_fd := -1, p_release_fd := -1, p_process_released := True\<rparr>) s))
         (close_if (p_release_fd p) @ close_if (p_exit_fd p)))"

fun session_step :: "answers \<Rightarrow> session_point \<Rightarrow> sys \<Rightarrow> step_result" where
  "session_step a (PostEvent ev) s = post_session_event ev s"
| "session_step a (PostNow ev) s = handle_posted_session_event ev s"
| "session_step a Abandon s = pty_session_abandon s"
| "session_step a ReleaseSession s = release_session s"
| "session_step a MarkClosing s =
     continue_with (update_session (\<lambda>ss. the (pty_session_mark_closing (Some ss))) s) []"
| "session_step a MarkClosed s =
     continue_with (update_session (\<lambda>ss. the (pty_session_mark_closed (Some ss))) s) []"
| "session_step a (WorkerStarted k) s = continue_with (count_stats (pty_debug_worker_started k) s) []"
| "session_step a (WorkerFinished k) s = continue_with (count_stats (pty_debug_worker_finished k) s) []"
| "session_step a (CloseFd d) s = continue_with (os [OsClose d] s) []"
| "session_step a WakeReactor s = wake_reactor s"
| "session_step a StopProcess s = stop_process a s"
| "session_step a ReleaseProcess s = release_process s"

subsection \<open>Closure events and the input queue\<close>

definition maybe_post_session_closed :: "sys \<Rightarrow> step_result" where
  "maybe_post_session_closed s =
     if_platform s (\<lambda>p.
       if p_stopping p \<and> p_reactor_done p \<and> p_waiter_done p \<and> p_close_done p \<and>
          \<not> p_session_closed_posted p
       then continue_with (set_platform (p\<lparr>p_session_closed_posted := True\<rparr>) s)
              [PS MarkClosed, PS (PostEvent EvSessionClosed)]
       else continue_with s [])"

definition mark_output_closed :: "sys \<Rightarrow> step_result" where
  "mark_output_closed s =
     if_platform s (\<lambda>p.
       if \<not> p_output_closed p
       then continue_with (set_platform (p\<lparr>p_output_closed := True\<rparr>) s)
              [PM StoreOutputClosed, PS (PostEvent EvOutputClosed)]
       else continue_with s [])"

definition mark_input_closed :: "strerror \<Rightarrow> PtyError option \<Rightarrow> sys \<Rightarrow> step_result" where
  "mark_input_closed strerror error s =
     if_platform s (\<lambda>p.
       if \<not> p_input_closed p
       then continue_with (set_platform (p\<lparr>p_input_closed := True\<rparr>) s)
              [PM StoreInputClosed,
               PS (PostEvent (EvInputClosed
                 (case error of
                    None \<Rightarrow> make_error strerror PTY_ERROR_CLOSED EPIPE ''PTY input closed''
                  | Some e \<Rightarrow> e)))]
       else continue_with s [])"

text \<open>The two counters of the queue move with it, as \<open>Write_Queue\<close> has them.\<close>

definition queue_dequeue :: "PtyUnixPlatform \<Rightarrow> sys \<Rightarrow> write_chunk option \<times> sys" where
  "queue_dequeue p s =
     (case wq_dequeue (p_write_queue p) of
        (None, _) \<Rightarrow> (None, s)
      | (Some c, q) \<Rightarrow>
          (Some c, count_stats (pty_debug_pending_write_started (wc_accounted c))
             (set_platform (p\<lparr>p_write_queue := q\<rparr>) s)))"

definition queue_complete :: "write_chunk \<Rightarrow> PtyUnixPlatform \<Rightarrow> sys \<Rightarrow> sys" where
  "queue_complete c p s =
     count_stats (pty_debug_pending_write_completed
         (min (wc_accounted c) (wq_inflight (p_write_queue p))))
       (set_platform (p\<lparr>p_write_queue := wq_complete c (p_write_queue p)\<rparr>)
         (s\<lparr>y_dropped := (y_dropped s \<or> chunk_rest c \<noteq> [])\<rparr>))"

definition discard_pending_writes :: "sys \<Rightarrow> step_result" where
  "discard_pending_writes s =
     deref_platform s (\<lambda>p.
       (case queue_dequeue p s of
          (None, s') \<Rightarrow> continue_with s' []
        | (Some c, s') \<Rightarrow> continue_with s' [PM (DiscardComplete c)]))"

definition discard_complete :: "write_chunk \<Rightarrow> sys \<Rightarrow> step_result" where
  "discard_complete c s =
     deref_platform s (\<lambda>p. continue_with (queue_complete c p s) [PM DiscardPendingWrites])"

definition maybe_post_writable :: "sys \<Rightarrow> step_result" where
  "maybe_post_writable s =
     if_platform s (\<lambda>p.
       if p_write_backpressured p \<and>
          wq_pending (p_write_queue p) \<le> s_input_buffer_limit (y_session s) div 2
       then continue_with (set_platform (p\<lparr>p_write_backpressured := False\<rparr>) s)
              [PS (PostEvent EvWritable)]
       else continue_with s [])"

definition close_slave :: "sys \<Rightarrow> step_result" where
  "close_slave s =
     if_platform s (\<lambda>p. continue_with (set_platform (p\<lparr>p_slave_fd := -1\<rparr>) s) (close_if (p_slave_fd p)))"

fun mark_step :: "strerror \<Rightarrow> mark_point \<Rightarrow> sys \<Rightarrow> step_result" where
  "mark_step str MaybePostSessionClosed s = maybe_post_session_closed s"
| "mark_step str MarkOutputClosed s = mark_output_closed s"
| "mark_step str StoreOutputClosed s =
     continue_with (update_session (\<lambda>ss. ss\<lparr>s_output_closed := True\<rparr>) s) []"
| "mark_step str (MarkInputClosed e) s = mark_input_closed str e s"
| "mark_step str StoreInputClosed s =
     continue_with (update_session (\<lambda>ss. ss\<lparr>s_input_closed := True\<rparr>) s) []"
| "mark_step str DiscardPendingWrites s = discard_pending_writes s"
| "mark_step str (DiscardComplete c) s = discard_complete c s"
| "mark_step str MaybePostWritable s = maybe_post_writable s"
| "mark_step str CloseSlave s = close_slave s"

subsection \<open>Writing: \<open>pty_unix_flush_write_queue\<close>\<close>

text \<open>It is called by the reactor, which goes on at \<open>ReactorFlushed\<close> with the result.\<close>

definition flush_begin :: "poll_revents \<Rightarrow> sys \<Rightarrow> step_result" where
  "flush_begin rv s =
     (case platform_for s of
        None \<Rightarrow> continue_with s [PR (ReactorFlushed rv False)]
      | Some p \<Rightarrow>
          if p_master_fd p < 0 then continue_with s [PR (ReactorFlushed rv False)]
          else continue_with s [PI (FlushDequeue (p_master_fd p) rv)])"

definition flush_dequeue :: "fd \<Rightarrow> poll_revents \<Rightarrow> sys \<Rightarrow> step_result" where
  "flush_dequeue d rv s =
     deref_platform s (\<lambda>p.
       (case queue_dequeue p s of
          (None, s') \<Rightarrow> continue_with s' [PR (ReactorFlushed rv True)]
        | (Some c, s') \<Rightarrow> continue_with s' [PI (FlushWrite d c rv)]))"

text \<open>One round of the inner loop. \<open>write\<close> takes at most what it was offered.\<close>

definition flush_requeue :: "strerror \<Rightarrow> write_chunk \<Rightarrow> poll_revents \<Rightarrow> sys \<Rightarrow> step_result" where
  "flush_requeue strerror c rv s =
     deref_platform s (\<lambda>p.
       (case wq_requeue_front c (p_write_queue p) of
          (PTY_WRITE_ACCEPTED, q) \<Rightarrow>
            continue_with
              (count_stats (pty_debug_pending_write_requeued (wc_accounted c) (wc_remaining c))
                (set_platform (p\<lparr>p_write_queue := q\<rparr>) s))
              [PM MaybePostWritable, PR (ReactorFlushed rv True)]
        | (_, _) \<Rightarrow>
            continue_with s
              [PI (FlushGiveUp c (make_error strerror PTY_ERROR_IO ENOBUFS
                ''requeuing partial write failed'') rv)]))"

definition flush_write :: "strerror \<Rightarrow> answers \<Rightarrow> fd \<Rightarrow> write_chunk \<Rightarrow> poll_revents \<Rightarrow> sys \<Rightarrow> step_result" where
  "flush_write strerror a d c rv s =
     (if wc_offset c < wc_length c then
        (case an_write a of
           WriteCount n \<Rightarrow>
             if 0 < n \<and> n \<le> length (chunk_rest c) then
               continue_with (s\<lparr>y_written := y_written s @ take n (chunk_rest c)\<rparr>)
                 [PI (FlushWrite d (chunk_advance n c) rv)]
             else if n = 0 then
               continue_with s
                 [PI (FlushGiveUp c (make_error strerror PTY_ERROR_IO (an_errno a)
                   ''writing PTY input failed'') rv)]
             else continue_with s [PI (FlushWrite d c rv)]
         | WriteErrno e \<Rightarrow>
             if e = EINTR then continue_with s [PI (FlushWrite d c rv)]
             else if e = EAGAIN then flush_requeue strerror c rv s
             else continue_with s
               [PI (FlushGiveUp c (make_error strerror PTY_ERROR_IO e ''writing PTY input failed'') rv)])
      else continue_with s
        [PS (PostEvent (EvWriteComplete (wc_request_id c))), PI (FlushComplete d c rv)])"

definition flush_complete :: "fd \<Rightarrow> write_chunk \<Rightarrow> poll_revents \<Rightarrow> sys \<Rightarrow> step_result" where
  "flush_complete d c rv s =
     deref_platform s (\<lambda>p.
       continue_with (queue_complete c p s) [PM MaybePostWritable, PI (FlushDequeue d rv)])"

definition flush_give_up :: "write_chunk \<Rightarrow> PtyError \<Rightarrow> poll_revents \<Rightarrow> sys \<Rightarrow> step_result" where
  "flush_give_up c e rv s =
     deref_platform s (\<lambda>p.
       continue_with (queue_complete c p s)
         [PM (MarkInputClosed (Some e)), PR (ReactorFlushed rv False)])"

subsection \<open>Reading: \<open>read_output\<close>\<close>

text \<open>Where the three callers go on with the result.\<close>

definition reactor_done :: "point list" where
  "reactor_done = [PM MarkOutputClosed, PM (MarkInputClosed None), PR ReactorFinish]"

fun read_return :: "PtyReadResult \<Rightarrow> read_site \<Rightarrow> point list" where
  "read_return r (SiteDrain rv) =
     (case r of
        PTY_READ_DATA \<Rightarrow> [PI (ReadOutput (SiteDrain rv))]
      | PTY_READ_EMPTY \<Rightarrow> [PM CloseSlave, PR (ReactorWritable rv)]
      | PTY_READ_CLOSED \<Rightarrow> reactor_done
      | PTY_READ_CREDIT_EXHAUSTED \<Rightarrow> [PR (ReactorWritable rv)])"
| "read_return r (SiteReadable rv) =
     (if r = PTY_READ_CLOSED then reactor_done else [PR (ReactorHangup rv True r)])"
| "read_return r SiteHangup =
     (if r = PTY_READ_CLOSED \<or> r = PTY_READ_EMPTY then reactor_done else [PR ReactorLoop])"

definition read_output :: "read_site \<Rightarrow> sys \<Rightarrow> step_result" where
  "read_output site s =
     (case platform_for s of
        None \<Rightarrow> continue_with s (read_return PTY_READ_CLOSED site)
      | Some p \<Rightarrow>
          (let discard = p_discard_output p; credit = s_output_credit (y_session s);
               capacity = read_capacity PTY_REACTOR_BUFFER_SIZE discard credit in
           if p_master_fd p < 0 then continue_with s (read_return PTY_READ_CLOSED site)
           else if \<not> discard \<and> credit = 0
           then continue_with s (read_return PTY_READ_CREDIT_EXHAUSTED site)
           else if capacity = 0
           then continue_with s (read_return PTY_READ_CREDIT_EXHAUSTED site)
           else continue_with s [PI (ReadMaster (p_master_fd p) discard capacity site)]))"

definition read_master ::
  "strerror \<Rightarrow> answers \<Rightarrow> fd \<Rightarrow> bool \<Rightarrow> u64 \<Rightarrow> read_site \<Rightarrow> sys \<Rightarrow> step_result" where
  "read_master strerror a d discard capacity site s =
     (case an_read a of
        ReadBytes bytes \<Rightarrow>
          if length bytes > unat capacity then continue_with s [PI (ReadMaster d discard capacity site)]
          else if bytes = [] then continue_with s (read_return PTY_READ_CLOSED site)
          else if discard then continue_with s (read_return PTY_READ_DATA site)
          else continue_with s [PI (ReadCharge bytes site)]
      | ReadErrno e \<Rightarrow>
          if e = EINTR then continue_with s [PI (ReadMaster d discard capacity site)]
          else if e = EAGAIN then continue_with s (read_return PTY_READ_EMPTY site)
          else if e = EIO then continue_with s (read_return PTY_READ_CLOSED site)
          else continue_with s
            [PS (PostEvent (EvAsyncError (make_error strerror PTY_ERROR_IO e ''reading PTY output failed''))),
             PI (ReadFailed site)])"

definition read_charge :: "u8 list \<Rightarrow> read_site \<Rightarrow> sys \<Rightarrow> step_result" where
  "read_charge bytes site s =
     deref_platform s (\<lambda>p.
       if p_discard_output p then continue_with s (read_return PTY_READ_DATA site)
       else continue_with
         (update_session (\<lambda>ss. ss\<lparr>s_output_credit :=
            charge_credit (s_output_credit ss) (of_nat (length bytes))\<rparr>) s)
         [PI (ReadPost bytes site)])"

definition read_post :: "u8 list \<Rightarrow> read_site \<Rightarrow> sys \<Rightarrow> step_result" where
  "read_post bytes site s =
     continue_with s
       [if pty_session_is_abandoned (Some (y_session s)) then PI (ReadPostFailed site)
        else PI (ReadPostNow bytes site)]"

definition read_post_now :: "u8 list \<Rightarrow> read_site \<Rightarrow> sys \<Rightarrow> step_result" where
  "read_post_now bytes site s =
     (if y_port_open s
      then continue_with (s\<lparr>y_events := y_events s @ [EvOutput bytes],
                            y_out_posted := y_out_posted s + length bytes\<rparr>)
             (read_return PTY_READ_DATA site)
      else continue_with s [PS Abandon, PI (ReadPostFailed site)])"

definition read_post_failed :: "read_site \<Rightarrow> sys \<Rightarrow> step_result" where
  "read_post_failed site s =
     deref_platform s (\<lambda>p.
       continue_with (set_platform (p\<lparr>p_discard_output := True\<rparr>) s) (read_return PTY_READ_CLOSED site))"

fun io_step :: "strerror \<Rightarrow> answers \<Rightarrow> io_point \<Rightarrow> sys \<Rightarrow> step_result" where
  "io_step str a (Flush rv) s = flush_begin rv s"
| "io_step str a (FlushDequeue d rv) s = flush_dequeue d rv s"
| "io_step str a (FlushWrite d c rv) s = flush_write str a d c rv s"
| "io_step str a (FlushComplete d c rv) s = flush_complete d c rv s"
| "io_step str a (FlushGiveUp c e rv) s = flush_give_up c e rv s"
| "io_step str a (ReadOutput site) s = read_output site s"
| "io_step str a (ReadMaster d discard capacity site) s = read_master str a d discard capacity site s"
| "io_step str a (ReadCharge bytes site) s = read_charge bytes site s"
| "io_step str a (ReadPost bytes site) s = read_post bytes site s"
| "io_step str a (ReadPostNow bytes site) s = read_post_now bytes site s"
| "io_step str a (ReadPostFailed site) s = read_post_failed site s"
| "io_step str a (ReadFailed site) s = continue_with s (read_return PTY_READ_CLOSED site)"

subsection \<open>The reactor: \<open>reactor_worker\<close>\<close>

text \<open>One round of the loop: the first section, \<open>poll\<close>, the drained wake pipe, the second look at
  \<open>stopping\<close>, the drain of the output after the exit, the write side, the read side, the hang-up.\<close>

definition reactor_loop :: "sys \<Rightarrow> step_result" where
  "reactor_loop s =
     deref_platform s (\<lambda>p.
       (let may_read = (p_discard_output p \<or> s_output_credit (y_session s) > 0);
            has_writes = (wq_queued (p_write_queue p) \<noteq> 0);
            want_out = (has_writes \<and> \<not> p_output_hung_up p)
        in if p_stopping p \<or> p_master_fd p < 0 then continue_with s reactor_done
           else continue_with s
             [PR (ReactorPoll (p_master_fd p)
                \<lparr>rq_in = may_read, rq_out = want_out,
                 rq_monitor = (\<not> (p_output_hung_up p \<and> \<not> may_read \<and> \<not> want_out)),
                 rq_may_read = may_read\<rparr>)]))"

text \<open>\<open>poll\<close> waits without a timeout: it returns when the wake pipe is readable or a requested event
  (a hang-up is always reported) happens on a monitored master.\<close>

definition poll_filter :: "poll_request \<Rightarrow> poll_revents \<Rightarrow> poll_revents" where
  "poll_filter rq rv =
     \<lparr>rv_in = (rv_in rv \<and> rq_in rq \<and> rq_monitor rq),
      rv_out = (rv_out rv \<and> rq_out rq \<and> rq_monitor rq),
      rv_hup = (rv_hup rv \<and> rq_monitor rq)\<rparr>"

definition reactor_poll :: "strerror \<Rightarrow> answers \<Rightarrow> fd \<Rightarrow> poll_request \<Rightarrow> sys \<Rightarrow> step_result" where
  "reactor_poll strerror a d rq s =
     (case an_poll a of
        PollErrno e \<Rightarrow>
          if e = EINTR then continue_with s [PR (ReactorPoll d rq)]
          else continue_with s
            (PS (PostEvent (EvAsyncError (make_error strerror PTY_ERROR_IO e ''polling PTY failed'')))
             # reactor_done)
      | PollReady rv0 \<Rightarrow>
          (let rv = poll_filter rq rv0 in
           if y_wake s then continue_with s [PR (ReactorWoken rv (rq_may_read rq))]
           else if rv_in rv \<or> rv_out rv \<or> rv_hup rv
           then continue_with s [PR (ReactorCheckStop rv False (rq_may_read rq))]
           else continue_with s [PR (ReactorPoll d rq)]))"

definition reactor_check_stop :: "poll_revents \<Rightarrow> bool \<Rightarrow> bool \<Rightarrow> sys \<Rightarrow> step_result" where
  "reactor_check_stop rv wake_ready may_read s =
     deref_platform s (\<lambda>p.
       if p_stopping p then continue_with s reactor_done
       else if wake_ready \<and> may_read then continue_with s [PR (ReactorCheckExit rv)]
       else continue_with s [PR (ReactorWritable rv)])"

definition reactor_check_exit :: "poll_revents \<Rightarrow> sys \<Rightarrow> step_result" where
  "reactor_check_exit rv s =
     continue_with s
       (if s_process_exited (y_session s) then [PI (ReadOutput (SiteDrain rv))]
        else [PR (ReactorWritable rv)])"

definition reactor_writable :: "poll_revents \<Rightarrow> sys \<Rightarrow> step_result" where
  "reactor_writable rv s =
     continue_with s (if rv_out rv then [PI (Flush rv)] else [PR (ReactorFlushed rv True)])"

definition reactor_flushed :: "poll_revents \<Rightarrow> bool \<Rightarrow> sys \<Rightarrow> step_result" where
  "reactor_flushed rv flushed s =
     continue_with s
       (if \<not> flushed then [PM DiscardPendingWrites, PR ReactorFlushFailed]
        else if rv_in rv then [PI (ReadOutput (SiteReadable rv))]
        else [PR (ReactorHangup rv False PTY_READ_EMPTY)])"

definition reactor_flush_failed :: "sys \<Rightarrow> step_result" where
  "reactor_flush_failed s =
     deref_platform s (\<lambda>p. continue_with s (if p_stopping p then reactor_done else [PR ReactorLoop]))"

definition reactor_hangup :: "poll_revents \<Rightarrow> bool \<Rightarrow> PtyReadResult \<Rightarrow> sys \<Rightarrow> step_result" where
  "reactor_hangup rv attempted_read read_result s =
     (if rv_hup rv then
        deref_platform s (\<lambda>p.
          continue_with (set_platform (p\<lparr>p_output_hung_up := True\<rparr>) s)
            [PM (MarkInputClosed None), PM DiscardPendingWrites, PR (ReactorHungUp read_result)])
      else if attempted_read \<and> read_result = PTY_READ_EMPTY then continue_with s [PR ReactorAfterEmpty]
      else continue_with s [PR ReactorLoop])"

definition reactor_hung_up :: "PtyReadResult \<Rightarrow> sys \<Rightarrow> step_result" where
  "reactor_hung_up read_result s =
     continue_with s
       (if read_result \<noteq> PTY_READ_DATA \<and> read_result \<noteq> PTY_READ_CREDIT_EXHAUSTED
        then [PI (ReadOutput SiteHangup)] else [PR ReactorLoop])"

definition reactor_after_empty :: "sys \<Rightarrow> step_result" where
  "reactor_after_empty s =
     continue_with s
       ((if s_process_exited (y_session s) then [PM CloseSlave] else []) @ [PR ReactorLoop])"

definition reactor_finish :: "sys \<Rightarrow> step_result" where
  "reactor_finish s =
     deref_platform s (\<lambda>p.
       continue_with (set_platform (p\<lparr>p_master_fd := -1, p_reactor_done := True\<rparr>) s)
         (close_if (p_master_fd p) @
          [PS (WorkerFinished PTY_DEBUG_WORKER_READ), PM MaybePostSessionClosed, PS ReleaseSession]))"

fun reactor_step :: "strerror \<Rightarrow> answers \<Rightarrow> reactor_point \<Rightarrow> sys \<Rightarrow> step_result" where
  "reactor_step str a ReactorLoop s = reactor_loop s"
| "reactor_step str a (ReactorPoll d rq) s = reactor_poll str a d rq s"
| "reactor_step str a (ReactorWoken rv may_read) s =
     continue_with (pty_unix_drain_wake_pipe s) [PR (ReactorCheckStop rv True may_read)]"
| "reactor_step str a (ReactorCheckStop rv wake_ready may_read) s =
     reactor_check_stop rv wake_ready may_read s"
| "reactor_step str a (ReactorCheckExit rv) s = reactor_check_exit rv s"
| "reactor_step str a (ReactorWritable rv) s = reactor_writable rv s"
| "reactor_step str a (ReactorFlushed rv flushed) s = reactor_flushed rv flushed s"
| "reactor_step str a ReactorFlushFailed s = reactor_flush_failed s"
| "reactor_step str a (ReactorHangup rv attempted r) s = reactor_hangup rv attempted r s"
| "reactor_step str a (ReactorHungUp r) s = reactor_hung_up r s"
| "reactor_step str a ReactorAfterEmpty s = reactor_after_empty s"
| "reactor_step str a ReactorFinish s = reactor_finish s"

subsection \<open>The waiter and the close worker\<close>

definition waiter_start :: "sys \<Rightarrow> step_result" where
  "waiter_start s = deref_platform s (\<lambda>p. continue_with s [PW (WaiterRead (p_exit_fd p))])"

definition waiter_read :: "answers \<Rightarrow> sys \<Rightarrow> step_result" where
  "waiter_read a s =
     continue_with s
       (case an_exit a of
          ExitReport _ _ \<Rightarrow> [PW (WaiterExited (an_exit a))]
        | _ \<Rightarrow> [PS StopProcess, PW (WaiterExited (an_exit a))])"

definition exit_event :: "strerror \<Rightarrow> exit_answer \<Rightarrow> pty_event" where
  "exit_event strerror r =
     (case r of
        ExitReport signaled v \<Rightarrow> EvProcessExit signaled (scast v)
      | ExitEof \<Rightarrow> EvAsyncError (make_error strerror PTY_ERROR_IO EPIPE ''waiting for PTY process failed'')
      | ExitErrno e \<Rightarrow> EvAsyncError (make_error strerror PTY_ERROR_IO e ''waiting for PTY process failed''))"

definition waiter_exited :: "strerror \<Rightarrow> exit_answer \<Rightarrow> sys \<Rightarrow> step_result" where
  "waiter_exited strerror r s =
     deref_platform s (\<lambda>p.
       continue_with (update_session (\<lambda>ss. ss\<lparr>s_process_exited := True\<rparr>) s)
         [PS ReleaseProcess, PS WakeReactor, PS (PostEvent (exit_event strerror r)), PW WaiterFinish])"

definition waiter_finish :: "sys \<Rightarrow> step_result" where
  "waiter_finish s =
     deref_platform s (\<lambda>p.
       continue_with (set_platform (p\<lparr>p_waiter_done := True\<rparr>) s)
         [PS (WorkerFinished PTY_DEBUG_WORKER_WAIT), PM MaybePostSessionClosed, PS ReleaseSession])"

fun waiter_step :: "strerror \<Rightarrow> answers \<Rightarrow> waiter_point \<Rightarrow> sys \<Rightarrow> step_result" where
  "waiter_step str a WaiterStart s = waiter_start s"
| "waiter_step str a (WaiterRead d) s = waiter_read a s"
| "waiter_step str a (WaiterExited r) s = waiter_exited str r s"
| "waiter_step str a WaiterFinish s = waiter_finish s"

text \<open>\<open>create_detached_worker\<close>: the three results of the pthread calls, the first failure wins; the
  thread runs only when all are zero.\<close>

definition create_detached_worker :: "i32 \<times> i32 \<times> i32 \<Rightarrow> i32" where
  "create_detached_worker results =
     (case results of (attr_init, set_detached, create) \<Rightarrow>
        if attr_init \<noteq> 0 then attr_init
        else if set_detached \<noteq> 0 then set_detached else create)"

definition begin_close_load :: "sys \<Rightarrow> step_result" where
  "begin_close_load s =
     continue_with s
       (case s_lifecycle (y_session s) of
          PTY_LIFECYCLE_STARTING \<Rightarrow> [PC BeginCloseFromStarting]
        | PTY_LIFECYCLE_RUNNING \<Rightarrow> [PC BeginCloseFromRunning]
        | PTY_LIFECYCLE_CLOSING \<Rightarrow> [PC BeginClosePlatform]
        | PTY_LIFECYCLE_CLOSED \<Rightarrow> [])"

text \<open>A compare-and-exchange to CLOSING; a lost race starts the loop again.\<close>

definition begin_close_exchange :: "PtyLifecycle \<Rightarrow> point list \<Rightarrow> sys \<Rightarrow> step_result" where
  "begin_close_exchange expected next s =
     (if s_lifecycle (y_session s) = expected
      then continue_with (update_session (\<lambda>ss. ss\<lparr>s_lifecycle := PTY_LIFECYCLE_CLOSING\<rparr>) s) next
      else continue_with s [PC BeginClose])"

definition begin_close_platform :: "sys \<Rightarrow> step_result" where
  "begin_close_platform s =
     if_platform s (\<lambda>p.
       if p_close_started p \<or> p_close_done p then continue_with s []
       else continue_with (set_platform (p\<lparr>p_close_started := True\<rparr>) s)
              [PS (WorkerStarted PTY_DEBUG_WORKER_CLOSE), PC BeginCloseRetain])"

definition begin_close_create :: "answers \<Rightarrow> sys \<Rightarrow> step_result" where
  "begin_close_create a s =
     (if create_detached_worker (an_thread a) = 0
      then (s, [PS ReleaseSession], [[PC CloserStart]])
      else continue_with s
        [PS (WorkerFinished PTY_DEBUG_WORKER_CLOSE), PS ReleaseSession, PS ReleaseSession,
         PC BeginCloseFallback])"

definition begin_close_fallback :: "sys \<Rightarrow> step_result" where
  "begin_close_fallback s =
     deref_platform s (\<lambda>p.
       continue_with (set_platform (p\<lparr>p_stopping := True, p_close_done := True\<rparr>) s)
         [PS StopProcess, PS WakeReactor, PM MaybePostSessionClosed])"

definition closer_start :: "sys \<Rightarrow> step_result" where
  "closer_start s =
     deref_platform s (\<lambda>p.
       continue_with (set_platform (p\<lparr>p_stopping := True\<rparr>) s)
         [PS StopProcess, PS WakeReactor, PC CloserFinish])"

definition closer_finish :: "sys \<Rightarrow> step_result" where
  "closer_finish s =
     deref_platform s (\<lambda>p.
       continue_with (set_platform (p\<lparr>p_close_done := True\<rparr>) s)
         [PS (WorkerFinished PTY_DEBUG_WORKER_CLOSE), PM MaybePostSessionClosed, PS ReleaseSession])"

fun close_step :: "answers \<Rightarrow> close_point \<Rightarrow> sys \<Rightarrow> step_result" where
  "close_step a BeginClose s = begin_close_load s"
| "close_step a BeginCloseFromStarting s = begin_close_exchange PTY_LIFECYCLE_STARTING [] s"
| "close_step a BeginCloseFromRunning s =
     begin_close_exchange PTY_LIFECYCLE_RUNNING [PC BeginClosePlatform] s"
| "close_step a BeginClosePlatform s = begin_close_platform s"
| "close_step a BeginCloseRetain s = continue_with (retain_session s) [PC BeginCloseRetain2]"
| "close_step a BeginCloseRetain2 s = continue_with (retain_session s) [PC BeginCloseCreate]"
| "close_step a BeginCloseCreate s = begin_close_create a s"
| "close_step a BeginCloseFallback s = begin_close_fallback s"
| "close_step a CloserStart s = closer_start s"
| "close_step a CloserFinish s = closer_finish s"

subsection \<open>Startup: \<open>bootstrap_worker\<close>\<close>

text \<open>The bootstrap structure and its copied options belong to this thread alone and are not part of
  the state. \<open>pty_unix_spawn\<close> is a system call here; theory \<open>Unix_Spawn\<close> is about its own pieces.\<close>

definition bootstrap_spawn :: "answers \<Rightarrow> sys \<Rightarrow> step_result" where
  "bootstrap_spawn a s =
     continue_with s
       (case an_spawn a of
          SpawnError e \<Rightarrow>
            [PS (PostEvent (EvSpawnFailed e)), PS (PostEvent EvOutputClosed), PS MarkClosing,
             PS MarkClosed, PS (PostEvent EvSessionClosed), PS ReleaseSession]
        | SpawnOk master slave proc \<Rightarrow> [PB (BootSetup master slave proc)])"

definition set_nonblocking_cloexec :: "int \<times> int \<times> int \<times> int \<Rightarrow> int" where
  "set_nonblocking_cloexec results =
     (case results of (getfl, setfl, getfd, setfd) \<Rightarrow>
        if getfl < 0 \<or> setfl < 0 then -1 else if getfd < 0 then -1 else setfd)"

text \<open>The result with the descriptors left in the platform and the ones already closed.\<close>

definition create_wake_pipe :: "answers \<Rightarrow> int \<times> fd \<times> fd \<times> fd list" where
  "create_wake_pipe a =
     (case an_pipe a of
        None \<Rightarrow> (-1, -1, -1, [])
      | Some (r, w) \<Rightarrow>
          if fst (an_nonblock a) = 0 \<and> snd (an_nonblock a) = 0 then (0, r, w, [])
          else (-1, -1, -1, [r, w]))"

definition new_platform :: PtyUnixPlatform where
  "new_platform =
     \<lparr>p_master_fd = -1, p_slave_fd = -1, p_process_id = 0, p_exit_fd = -1, p_release_fd = -1,
      p_process_released = False, p_wake_read = -1, p_wake_write = -1, p_reactor_started = False,
      p_waiter_started = False, p_reactor_done = False, p_waiter_done = False,
      p_close_started = False, p_close_done = False, p_stopping = False,
      p_write_backpressured = False, p_discard_output = False, p_output_hung_up = False,
      p_output_closed = False, p_input_closed = False, p_session_closed_posted = False,
      p_write_queue = wq_new 0\<rparr>"

text \<open>The allocation and descriptor setup. Its failures all end in the cleanup of everything
  \<open>pty_unix_spawn\<close> returned.\<close>

definition bootstrap_setup :: "answers \<Rightarrow> fd \<Rightarrow> fd \<Rightarrow> PtyUnixProcess \<Rightarrow> sys \<Rightarrow> step_result" where
  "bootstrap_setup a master slave proc s =
     (let give_up = (\<lambda>fds err. continue_with (os (close_calls fds) s)
             ([PS (CloseFd master), PS (CloseFd slave), PB (BootCleanup proc err)]))
      in if \<not> an_alloc a then give_up [] ENOMEM
         else if an_mutex_init a \<noteq> 0 then give_up [] (an_mutex_init a)
         else (case create_wake_pipe a of (result, wake_read, wake_write, closed) \<Rightarrow>
           if result \<noteq> 0 then give_up closed (an_errno a)
           else if an_dup a < 0 then give_up [wake_read, wake_write] (an_errno a)
           else continue_with s
             [PS (CloseFd slave),
              PB (BootPublish (new_platform
                \<lparr>p_wake_read := wake_read, p_wake_write := wake_write, p_master_fd := master,
                 p_slave_fd := an_dup a, p_process_id := proc_process_id proc,
                 p_exit_fd := proc_exit_fd proc, p_release_fd := proc_release_fd proc,
                 p_write_queue := wq_new (s_input_buffer_limit (y_session s))\<rparr>))]))"

definition cleanup_spawned_process :: "PtyUnixProcess \<Rightarrow> os_call list" where
  "cleanup_spawned_process proc =
     (if proc_process_id proc > 0
      then [OsKill (- proc_process_id proc) SIGKILL, OsKill (proc_process_id proc) SIGKILL] else []) @
     [OsRelease] @ close_calls [proc_release_fd proc, proc_exit_fd proc]"

definition bootstrap_cleanup :: "strerror \<Rightarrow> PtyUnixProcess \<Rightarrow> i32 \<Rightarrow> sys \<Rightarrow> step_result" where
  "bootstrap_cleanup strerror proc setup_error s =
     continue_with (os (cleanup_spawned_process proc) s)
       [PS (PostEvent (EvSpawnFailed (make_error strerror PTY_ERROR_OUT_OF_MEMORY setup_error
          ''allocating Unix PTY session failed''))),
        PS MarkClosing, PS MarkClosed, PS (PostEvent EvSessionClosed), PS ReleaseSession]"

definition bootstrap_publish :: "PtyUnixPlatform \<Rightarrow> sys \<Rightarrow> step_result" where
  "bootstrap_publish p s =
     continue_with (update_session (\<lambda>ss. the (pty_session_platform_store (Some ss) (Some p))) s)
       [PB BootCheckClosing]"

definition bootstrap_check_closing :: "sys \<Rightarrow> step_result" where
  "bootstrap_check_closing s =
     deref_platform s (\<lambda>p.
       continue_with s
         (if p_stopping p \<or> s_lifecycle (y_session s) = PTY_LIFECYCLE_CLOSING
          then [PS StopProcess, PB BootUnstarted]
          else [PS (WorkerStarted PTY_DEBUG_WORKER_READ), PB BootRetainReactor]))"

definition startup_cancelled :: pty_event where
  "startup_cancelled = EvSpawnFailed (internal_error PTY_ERROR_CLOSED EPIPE ''PTY session closed during startup'')"

definition finish_unstarted_close :: "sys \<Rightarrow> step_result" where
  "finish_unstarted_close s =
     deref_platform s (\<lambda>p.
       continue_with (set_platform (p\<lparr>p_master_fd := -1, p_slave_fd := -1, p_stopping := True,
            p_reactor_done := True, p_waiter_done := True, p_close_done := True,
            p_output_closed := True, p_session_closed_posted := True\<rparr>) s)
         (close_if (p_master_fd p) @ close_if (p_slave_fd p) @
          [PS ReleaseProcess, PS (PostEvent startup_cancelled), PM StoreOutputClosed, PS MarkClosed,
           PS (PostEvent EvOutputClosed), PS (PostEvent EvSessionClosed), PS ReleaseSession]))"

definition bootstrap_create_reactor :: "answers \<Rightarrow> sys \<Rightarrow> step_result" where
  "bootstrap_create_reactor a s =
     deref_platform s (\<lambda>p.
       (let result = create_detached_worker (an_thread a) in
        if result \<noteq> 0
        then continue_with s
          [PS (WorkerFinished PTY_DEBUG_WORKER_READ), PS ReleaseSession, PS MarkClosing, PS StopProcess,
           PS ReleaseProcess, PB (BootReactorFailed result)]
        else (set_platform (p\<lparr>p_reactor_started := True\<rparr>) s,
              [PS (WorkerStarted PTY_DEBUG_WORKER_WAIT), PB BootRetainWaiter], [[PR ReactorLoop]])))"

definition bootstrap_reactor_failed :: "strerror \<Rightarrow> i32 \<Rightarrow> sys \<Rightarrow> step_result" where
  "bootstrap_reactor_failed strerror reactor_result s =
     deref_platform s (\<lambda>p.
       (let post_session_closed = (\<not> p_close_started p);
            p1 = p\<lparr>p_stopping := True, p_reactor_done := True, p_waiter_done := True,
                   p_output_closed := True\<rparr>;
            p2 = (if post_session_closed
                  then p1\<lparr>p_close_started := True, p_close_done := True,
                          p_session_closed_posted := True\<rparr>
                  else p1)
        in continue_with (set_platform p2 s)
             ([PS (PostEvent (EvSpawnFailed (make_error strerror PTY_ERROR_INTERNAL reactor_result
                 ''starting PTY reactor failed''))),
               PM StoreOutputClosed, PS (PostEvent EvOutputClosed)] @
              (if post_session_closed then [PS MarkClosed, PS (PostEvent EvSessionClosed)]
               else [PM MaybePostSessionClosed]) @
              [PS ReleaseSession])))"

definition bootstrap_create_waiter :: "answers \<Rightarrow> sys \<Rightarrow> step_result" where
  "bootstrap_create_waiter a s =
     deref_platform s (\<lambda>p.
       (let result = create_detached_worker (an_thread a) in
        if result \<noteq> 0
        then continue_with s
          [PS (WorkerFinished PTY_DEBUG_WORKER_WAIT), PS ReleaseSession, PB (BootWaiterFailed result)]
        else (set_platform (p\<lparr>p_waiter_started := True\<rparr>) s, [PB BootRunning], [[PW WaiterStart]])))"

text \<open>The close is reserved for the bootstrap thread unless a closer has it already.\<close>

definition reserve_close :: "PtyUnixPlatform \<Rightarrow> PtyUnixPlatform" where
  "reserve_close p =
     (if \<not> p_close_started p then p\<lparr>p_close_started := True, p_close_done := True\<rparr> else p)"

definition bootstrap_waiter_failed :: "strerror \<Rightarrow> i32 \<Rightarrow> sys \<Rightarrow> step_result" where
  "bootstrap_waiter_failed strerror waiter_result s =
     deref_platform s (\<lambda>p.
       continue_with (set_platform (reserve_close (p\<lparr>p_stopping := True, p_waiter_done := True\<rparr>)) s)
         [PS StopProcess, PS WakeReactor, PS ReleaseProcess, PS MarkClosing,
          PS (PostEvent (EvSpawnFailed (make_error strerror PTY_ERROR_INTERNAL waiter_result
            ''starting PTY waiter failed''))),
          PM MaybePostSessionClosed, PS ReleaseSession])"

definition bootstrap_running :: "sys \<Rightarrow> step_result" where
  "bootstrap_running s =
     deref_platform s (\<lambda>p.
       if s_lifecycle (y_session s) = PTY_LIFECYCLE_STARTING
       then continue_with (update_session (\<lambda>ss. ss\<lparr>s_lifecycle := PTY_LIFECYCLE_RUNNING\<rparr>) s)
              [PS (PostEvent (EvSpawned (of_int (p_process_id p)) PTY_CAPABILITIES)), PS ReleaseSession]
       else continue_with s [PB BootLostRace])"

definition bootstrap_lost_race :: "sys \<Rightarrow> step_result" where
  "bootstrap_lost_race s =
     deref_platform s (\<lambda>p.
       continue_with (set_platform (reserve_close (p\<lparr>p_stopping := True\<rparr>)) s)
         [PS StopProcess, PS WakeReactor, PS (PostEvent startup_cancelled), PM MaybePostSessionClosed,
          PS ReleaseSession])"

fun boot_step :: "strerror \<Rightarrow> answers \<Rightarrow> boot_point \<Rightarrow> sys \<Rightarrow> step_result" where
  "boot_step str a BootSpawn s = bootstrap_spawn a s"
| "boot_step str a (BootSetup master slave proc) s = bootstrap_setup a master slave proc s"
| "boot_step str a (BootCleanup proc e) s = bootstrap_cleanup str proc e s"
| "boot_step str a (BootPublish p) s = bootstrap_publish p s"
| "boot_step str a BootCheckClosing s = bootstrap_check_closing s"
| "boot_step str a BootUnstarted s = finish_unstarted_close s"
| "boot_step str a BootRetainReactor s = continue_with (retain_session s) [PB BootCreateReactor]"
| "boot_step str a BootCreateReactor s = bootstrap_create_reactor a s"
| "boot_step str a (BootReactorFailed r) s = bootstrap_reactor_failed str r s"
| "boot_step str a BootRetainWaiter s = continue_with (retain_session s) [PB BootCreateWaiter]"
| "boot_step str a BootCreateWaiter s = bootstrap_create_waiter a s"
| "boot_step str a (BootWaiterFailed r) s = bootstrap_waiter_failed str r s"
| "boot_step str a BootRunning s = bootstrap_running s"
| "boot_step str a BootLostRace s = bootstrap_lost_race s"

subsection \<open>The entry points\<close>

text \<open>The result the caller gets (a return value and, for the functions that take one, the error
  structure), with the step. Session pointers are never NULL except where the code tests them.\<close>

record 'r api_result =
  ar_return :: 'r
  ar_error :: "PtyError option"
  ar_step :: step_result

definition set_internal :: "PtyError option \<Rightarrow> PtyErrorKind \<Rightarrow> i32 \<Rightarrow> string \<Rightarrow> PtyError option" where
  "set_internal out_error knd code msg =
     pty_error_set (pty_error_clear out_error) PTY_ERROR_DOMAIN_INTERNAL knd (scast code) (Some msg)"

definition set_errno :: "strerror \<Rightarrow> PtyError option \<Rightarrow> PtyErrorKind \<Rightarrow> i32 \<Rightarrow> string \<Rightarrow> PtyError option" where
  "set_errno strerror out_error knd error_number msg =
     pty_error_set_errno strerror (pty_error_clear out_error) knd error_number (Some msg)"

definition pty_session_pid :: "sys \<Rightarrow> int" where
  "pty_session_pid s = (case platform_for s of None \<Rightarrow> -1 | Some p \<Rightarrow> p_process_id p)"

definition pty_session_has_foreground_process :: "answers \<Rightarrow> sys \<Rightarrow> bool" where
  "pty_session_has_foreground_process a s =
     (case platform_for s of
        None \<Rightarrow> False
      | Some p \<Rightarrow>
          (let is_running = (\<not> p_process_released p \<and> \<not> s_process_exited (y_session s)) in
           is_running \<and> p_master_fd p \<ge> 0 \<and> an_tcgetpgrp a > 0 \<and> an_tcgetpgrp a \<noteq> p_process_id p))"

text \<open>The enqueue with the allocator's answer; the counters move on acceptance.\<close>

definition queue_enqueue ::
  "answers \<Rightarrow> u8 list \<Rightarrow> u64 \<Rightarrow> PtyUnixPlatform \<Rightarrow> sys \<Rightarrow> PtyTryWriteResult \<times> PtyUnixPlatform \<times> sys" where
  "queue_enqueue a bytes request_id p s =
     (if bytes \<noteq> [] \<and> of_nat (length bytes) \<le> wq_limit (p_write_queue p) \<and> \<not> an_alloc a
      then (PTY_WRITE_ERROR, p, s)
      else (case wq_try_enqueue bytes request_id (p_write_queue p) of
              (PTY_WRITE_ACCEPTED, q) \<Rightarrow>
                (PTY_WRITE_ACCEPTED, p\<lparr>p_write_queue := q\<rparr>,
                 count_stats (pty_debug_pending_write_enqueued (of_nat (length bytes)))
                   (s\<lparr>y_accepted := y_accepted s @ bytes\<rparr>))
            | (r, q) \<Rightarrow> (r, p, s)))"

definition pty_session_try_write ::
  "answers \<Rightarrow> sys option \<Rightarrow> u64 \<Rightarrow> u8 list option \<Rightarrow> PtyError option \<Rightarrow> sys \<Rightarrow>
     PtyTryWriteResult api_result" where
  "pty_session_try_write a session request_id bytes out_error s0 =
     (if session = None \<or> bytes = None \<or> the bytes = []
      then \<lparr>ar_return = PTY_WRITE_ERROR,
            ar_error = set_internal out_error PTY_ERROR_INVALID_ARGUMENT EINVAL ''invalid PTY input write'',
            ar_step = continue_with s0 []\<rparr>
      else
        (let s = the session in
         case platform_for s of
           None \<Rightarrow> \<lparr>ar_return = PTY_WRITE_CLOSED, ar_error = pty_error_clear out_error,
                    ar_step = continue_with s []\<rparr>
         | Some p \<Rightarrow>
             if p_stopping p \<or> p_input_closed p \<or>
                lifecycle_value (s_lifecycle (y_session s)) \<ge> lifecycle_value PTY_LIFECYCLE_CLOSING
             then \<lparr>ar_return = PTY_WRITE_CLOSED, ar_error = pty_error_clear out_error,
                   ar_step = continue_with s []\<rparr>
             else
               (case queue_enqueue a (the bytes) request_id p s of (result, p1, s1) \<Rightarrow>
                  (let p2 = (if result = PTY_WRITE_BACKPRESSURED
                             then p1\<lparr>p_write_backpressured := True\<rparr> else p1);
                       s2 = set_platform p2 s1
                   in if result = PTY_WRITE_ERROR
                      then \<lparr>ar_return = PTY_WRITE_ERROR,
                            ar_error = set_internal out_error PTY_ERROR_OUT_OF_MEMORY ENOMEM
                              ''queueing PTY input failed'',
                            ar_step = continue_with s2 []\<rparr>
                      else \<lparr>ar_return = result, ar_error = pty_error_clear out_error,
                            ar_step = continue_with s2
                              (if result = PTY_WRITE_ACCEPTED then [PS WakeReactor] else [])\<rparr>))))"

definition pty_session_ack_output :: "u64 \<Rightarrow> sys \<Rightarrow> step_result" where
  "pty_session_ack_output byte_count s =
     if_platform s (\<lambda>p.
       continue_with
         (update_session (\<lambda>ss. ss\<lparr>s_output_credit :=
            pty_output_credit_after_ack (s_output_credit ss) (s_output_window_limit ss) byte_count\<rparr>)
            (s\<lparr>y_acked := y_acked s + unat byte_count\<rparr>))
         [PS WakeReactor])"

definition pty_session_resize ::
  "strerror \<Rightarrow> answers \<Rightarrow> PtySize \<Rightarrow> PtyError option \<Rightarrow> sys \<Rightarrow> bool api_result" where
  "pty_session_resize strerror a sz out_error s =
     (let closed = \<lparr>ar_return = False,
            ar_error = set_internal out_error PTY_ERROR_CLOSED EPIPE ''PTY session is closed'',
            ar_step = continue_with s []\<rparr>
      in if \<not> pty_size_is_valid sz
         then \<lparr>ar_return = False,
               ar_error = set_internal out_error PTY_ERROR_INVALID_ARGUMENT EINVAL ''invalid Unix PTY size'',
               ar_step = continue_with s []\<rparr>
         else case platform_for s of
           None \<Rightarrow> closed
         | Some p \<Rightarrow>
             if p_master_fd p < 0 then closed
             else
               (let s' = os [OsSetWindow (p_master_fd p) (winsize_of sz)] s in
                if an_ioctl a \<noteq> 0
                then \<lparr>ar_return = False,
                      ar_error = set_errno strerror out_error PTY_ERROR_IO (an_errno a) ''resizing PTY failed'',
                      ar_step = continue_with s' []\<rparr>
                else \<lparr>ar_return = True, ar_error = pty_error_clear out_error,
                      ar_step = continue_with s' []\<rparr>))"

definition pty_session_kill :: "PtyError option \<Rightarrow> sys \<Rightarrow> bool api_result" where
  "pty_session_kill out_error s =
     (case platform_for s of
        None \<Rightarrow> \<lparr>ar_return = False,
                ar_error = set_internal out_error PTY_ERROR_CLOSED EPIPE ''PTY session is closed'',
                ar_step = continue_with s []\<rparr>
      | Some p \<Rightarrow> \<lparr>ar_return = True, ar_error = pty_error_clear out_error,
                  ar_step = continue_with s [PS StopProcess, PS WakeReactor]\<rparr>)"

definition pty_session_send_signal ::
  "strerror \<Rightarrow> answers \<Rightarrow> int \<Rightarrow> int \<Rightarrow> PtyError option \<Rightarrow> sys \<Rightarrow> bool api_result" where
  "pty_session_send_signal strerror a signal_number target out_error s =
     (let fail = (\<lambda>e s'. \<lparr>ar_return = False, ar_error = e, ar_step = continue_with s' []\<rparr>);
          success = (\<lambda>s'. \<lparr>ar_return = True, ar_error = pty_error_clear out_error,
                          ar_step = continue_with s' []\<rparr>)
      in if signal_number \<le> 0 \<or> signal_number > 64 \<or> target < 0 \<or> target > 2
         then fail (set_internal out_error PTY_ERROR_INVALID_ARGUMENT EINVAL ''invalid POSIX signal target'') s
         else case platform_for s of
           None \<Rightarrow> fail (set_internal out_error PTY_ERROR_CLOSED EPIPE ''PTY session is closed'') s
         | Some p \<Rightarrow>
             if p_process_released p \<or> s_process_exited (y_session s) then success s
             else
               (let foreground = (if p_master_fd p \<ge> 0 then an_tcgetpgrp a else -1);
                    target_pid = (if target = 2 then - foreground
                                  else if target = 1 then - p_process_id p else p_process_id p)
                in if target = 2 \<and> foreground \<le> 0
                   then fail (set_errno strerror out_error PTY_ERROR_IO (an_errno a)
                     ''finding foreground process group failed'') s
                   else
                     (let s' = os [OsKill target_pid signal_number] s in
                      if an_kill a \<noteq> 0 \<and> an_errno a \<noteq> ESRCH
                      then fail (set_errno strerror out_error PTY_ERROR_IO (an_errno a)
                        ''sending POSIX signal failed'') s'
                      else success s')))"

definition pty_session_discard_output :: "sys \<Rightarrow> step_result" where
  "pty_session_discard_output s =
     if_platform s (\<lambda>p.
       continue_with (set_platform (p\<lparr>p_discard_output := True\<rparr>) s) [PS WakeReactor])"

fun api_step :: "strerror \<Rightarrow> answers \<Rightarrow> api_point \<Rightarrow> sys \<Rightarrow> step_result" where
  "api_step str a (ApiTryWrite r bytes) s = ar_step (pty_session_try_write a (Some s) r (Some bytes) None s)"
| "api_step str a (ApiAckOutput n) s = pty_session_ack_output n s"
| "api_step str a (ApiResize sz) s = ar_step (pty_session_resize str a sz None s)"
| "api_step str a ApiKill s = ar_step (pty_session_kill None s)"
| "api_step str a (ApiSendSignal sig target) s = ar_step (pty_session_send_signal str a sig target None s)"
| "api_step str a ApiDiscardOutput s = pty_session_discard_output s"

subsection \<open>One step of a thread\<close>

text \<open>The points that touch neither the session nor its platform.\<close>

fun session_free :: "point \<Rightarrow> bool" where
  "session_free (PS (CloseFd d)) = True"
| "session_free (PS (WorkerStarted k)) = True"
| "session_free (PS (WorkerFinished k)) = True"
| "session_free (PB BootSpawn) = True"
| "session_free (PB (BootCleanup proc e)) = True"
| "session_free _ = False"

definition point_step :: "strerror \<Rightarrow> answers \<Rightarrow> point \<Rightarrow> sys \<Rightarrow> step_result" where
  "point_step str a i s =
     (if y_freed s \<and> \<not> session_free i then crash s
      else case i of
             PS x \<Rightarrow> session_step a x s
           | PM x \<Rightarrow> mark_step str x s
           | PC x \<Rightarrow> close_step a x s
           | PI x \<Rightarrow> io_step str a x s
           | PR x \<Rightarrow> reactor_step str a x s
           | PW x \<Rightarrow> waiter_step str a x s
           | PB x \<Rightarrow> boot_step str a x s
           | PA x \<Rightarrow> api_step str a x s)"

subsection \<open>Starting a session\<close>

text \<open>The options as the caller passes them; \<open>clone_answer\<close> is the answer of
  \<open>pty_unix_clone_options\<close>, an error or none.\<close>

record PtySpawnOptions =
  so_executable :: "string option"
  so_argument_count :: i32
  so_environment_count :: i32
  so_size :: PtySize
  so_input_buffer_bytes :: u64
  so_output_window_bytes :: u64
  so_event_port :: port

datatype start_result = StartFailed "PtyError option" PtyDebugStats | Started sys "point list list" "PtyError option"

definition pty_session_start ::
  "strerror \<Rightarrow> bool \<Rightarrow> bool \<Rightarrow> bool \<Rightarrow> PtyError option \<Rightarrow> i32 \<Rightarrow>
     PtySpawnOptions option \<Rightarrow> PtyError option \<Rightarrow> PtyDebugStats \<Rightarrow> start_result" where
  "pty_session_start strerror api_available session_alloc bootstrap_alloc clone_error bootstrap_result
      options out_error st =
     (let fail = (\<lambda>knd code msg st'. StartFailed (set_internal out_error knd code msg) st') in
      if \<not> api_available then fail PTY_ERROR_INTERNAL 0 ''Dart API is unavailable'' st
      else if options = None \<or> so_executable (the options) = None \<or>
              so_executable (the options) = Some [] \<or> sint (so_argument_count (the options)) < 0 \<or>
              sint (so_environment_count (the options)) < 0 \<or>
              so_input_buffer_bytes (the options) = 0 \<or> so_output_window_bytes (the options) = 0 \<or>
              \<not> pty_size_is_valid (so_size (the options))
      then fail PTY_ERROR_INVALID_ARGUMENT EINVAL ''invalid PTY session options'' st
      else if \<not> session_alloc then fail PTY_ERROR_OUT_OF_MEMORY ENOMEM ''allocating PTY session failed'' st
      else
        (case pty_session_init (Some undefined) st of (session0, st1) \<Rightarrow>
          (let o' = the options;
               session = (the session0)\<lparr>s_event_port := so_event_port o',
                 s_input_buffer_limit := so_input_buffer_bytes o',
                 s_output_window_limit := so_output_window_bytes o',
                 s_output_credit := so_output_window_bytes o',
                 s_free_function := Some FREE_UNIX_SESSION\<rparr>;
               s = \<lparr>y_session = session, y_freed = False, y_fault = False, y_port_open = True, y_live = True,
                    y_wake = False, y_stats = st1, y_dart = 1, y_events = [], y_os = [],
                    y_accepted = [], y_written = [], y_dropped = False, y_out_posted = 0, y_acked = 0\<rparr>
           in if \<not> bootstrap_alloc
              then fail PTY_ERROR_OUT_OF_MEMORY ENOMEM ''allocating PTY bootstrap failed''
                     (y_stats (fst (release_session s)))
              else if clone_error \<noteq> None
              then StartFailed clone_error (y_stats (fst (release_session s)))
              else if bootstrap_result \<noteq> 0
              then StartFailed (set_errno strerror out_error PTY_ERROR_INTERNAL bootstrap_result
                       ''starting PTY bootstrap failed'')
                     (y_stats (fst (release_session (fst (release_session (retain_session s))))))
              else Started (retain_session s) [[], [PB BootSpawn]] (pty_error_clear out_error))))"

end
