(* ===== verification/Unix_System.thy ===== *)
theory Unix_System
  imports Unix_Session Interleaving
begin

section \<open>The Unix session as a system of threads and the Dart isolate\<close>

text \<open>
  Thread 0 is the Dart side, thread 1 the bootstrap thread, the others are the workers in the order
  they are started. Dart acts only between its own calls. \<open>strict\<close> selects what the environment is
  assumed to respect: the documented protocol alone, or in addition that Dart lets go of the session
  only after the bootstrap thread has ended and never again once its port is gone.
\<close>

type_synonym unix_config = "(sys, point) config"

datatype dart_action =
    DartCall api_point
  | DartBeginClose
  | DartRelease
  | DartFinalize
  | DartClosePort
  | DartExit
  | DartPortLost

definition session_closed_seen :: "unix_config \<Rightarrow> bool" where
  "session_closed_seen cfg \<longleftrightarrow> EvSessionClosed \<in> set (y_events (fst cfg))"

definition bootstrap_ended :: "unix_config \<Rightarrow> bool" where
  "bootstrap_ended cfg \<longleftrightarrow> snd cfg ! 1 = []"

definition dart_idle :: "unix_config \<Rightarrow> bool" where
  "dart_idle cfg \<longleftrightarrow> snd cfg ! 0 = []"

definition dart_safe :: "unix_config \<Rightarrow> bool" where
  "dart_safe cfg \<longleftrightarrow> y_port_open (fst cfg) \<or> (session_closed_seen cfg \<and> bootstrap_ended cfg)"

primrec dart_allowed :: "bool \<Rightarrow> dart_action \<Rightarrow> unix_config \<Rightarrow> bool" where
  "dart_allowed strict (DartCall x) cfg \<longleftrightarrow>
     dart_idle cfg \<and> y_live (fst cfg) \<and> (y_port_open (fst cfg) \<or> session_closed_seen cfg) \<and>
     (strict \<longrightarrow> dart_safe cfg)"
| "dart_allowed strict DartBeginClose cfg \<longleftrightarrow>
     dart_idle cfg \<and> y_live (fst cfg) \<and> (y_port_open (fst cfg) \<or> session_closed_seen cfg) \<and>
     (strict \<longrightarrow> dart_safe cfg)"
| "dart_allowed strict DartRelease cfg \<longleftrightarrow>
     dart_idle cfg \<and> y_live (fst cfg) \<and> session_closed_seen cfg \<and> (strict \<longrightarrow> bootstrap_ended cfg)"
| "dart_allowed strict DartFinalize cfg \<longleftrightarrow>
     dart_idle cfg \<and> y_live (fst cfg) \<and> (strict \<longrightarrow> dart_safe cfg)"
| "dart_allowed strict DartClosePort cfg \<longleftrightarrow>
     dart_idle cfg \<and> session_closed_seen cfg \<and> (strict \<longrightarrow> bootstrap_ended cfg)"
| "dart_allowed strict DartExit cfg \<longleftrightarrow> dart_idle cfg"
| "dart_allowed strict DartPortLost cfg \<longleftrightarrow> dart_idle cfg \<and> \<not> strict"

definition push_dart :: "point list \<Rightarrow> (sys \<Rightarrow> sys) \<Rightarrow> unix_config \<Rightarrow> unix_config" where
  "push_dart ps f cfg = (f (fst cfg), (snd cfg)[0 := ps @ snd cfg ! 0])"

text \<open>Closing a session hands Dart's reference to \<open>pty_session_release\<close>; the finalizer calls
  \<open>pty_session_abandon\<close>; after either, and after the isolate's exit, Dart does not call any more.\<close>

primrec dart_act :: "dart_action \<Rightarrow> unix_config \<Rightarrow> unix_config" where
  "dart_act (DartCall x) cfg = push_dart [PA x] (\<lambda>s. s) cfg"
| "dart_act DartBeginClose cfg = push_dart [PC BeginClose] (\<lambda>s. s) cfg"
| "dart_act DartRelease cfg =
     push_dart [PS ReleaseSession] (\<lambda>s. s\<lparr>y_live := False, y_dart := y_dart s - 1\<rparr>) cfg"
| "dart_act DartFinalize cfg = push_dart [PS Abandon] (\<lambda>s. s\<lparr>y_live := False\<rparr>) cfg"
| "dart_act DartClosePort cfg = push_dart [] (\<lambda>s. s\<lparr>y_port_open := False\<rparr>) cfg"
| "dart_act DartExit cfg = push_dart [] (\<lambda>s. s\<lparr>y_port_open := False, y_live := False\<rparr>) cfg"
| "dart_act DartPortLost cfg = push_dart [] (\<lambda>s. s\<lparr>y_port_open := False\<rparr>) cfg"

inductive unix_step :: "strerror \<Rightarrow> bool \<Rightarrow> unix_config \<Rightarrow> unix_config \<Rightarrow> bool"
  for str :: strerror and strict :: bool where
  step_thread: "unix_step str strict cfg (run_thread (point_step str a) t cfg)"
| step_dart: "dart_allowed strict act cfg \<Longrightarrow> unix_step str strict cfg (dart_act act cfg)"

text \<open>A session just started, with valid limits.\<close>

definition started :: "unix_config \<Rightarrow> bool" where
  "started cfg \<longleftrightarrow> (\<exists>str clone result st options out_error err.
     pty_session_start str True True True clone result (Some options) out_error st
       = Started (fst cfg) (snd cfg) err)"

inductive unix_reach :: "strerror \<Rightarrow> bool \<Rightarrow> unix_config \<Rightarrow> bool"
  for str :: strerror and strict :: bool where
  reach_start: "started cfg \<Longrightarrow> unix_reach str strict cfg"
| reach_step: "unix_reach str strict cfg \<Longrightarrow> unix_step str strict cfg cfg' \<Longrightarrow> unix_reach str strict cfg'"

text \<open>What every session starts from.\<close>

lemma started_state:
  assumes "started cfg"
  shows "snd cfg = [[], [PB BootSpawn]]" and "s_platform (y_session (fst cfg)) = None"
    and "s_ref_count (y_session (fst cfg)) = 2" and "s_free_function (y_session (fst cfg)) = Some FREE_UNIX_SESSION"
    and "s_lifecycle (y_session (fst cfg)) = PTY_LIFECYCLE_STARTING"
    and "\<not> s_abandoned (y_session (fst cfg))" and "\<not> s_process_exited (y_session (fst cfg))"
    and "s_output_credit (y_session (fst cfg)) = s_output_window_limit (y_session (fst cfg))"
    and "\<not> y_freed (fst cfg)" and "\<not> y_fault (fst cfg)" and "y_port_open (fst cfg)" and "y_live (fst cfg)"
    and "\<not> y_wake (fst cfg)" and "y_dart (fst cfg) = 1" and "y_events (fst cfg) = []" and "y_os (fst cfg) = []"
    and "y_accepted (fst cfg) = []" and "y_written (fst cfg) = []" and "\<not> y_dropped (fst cfg)"
    and "y_out_posted (fst cfg) = 0" and "y_acked (fst cfg) = 0"
proof -
  obtain str clone result st options out_error err where start:
    "pty_session_start str True True True clone result (Some options) out_error st
       = Started (fst cfg) (snd cfg) err"
    using assms by (auto simp: started_def)
  have cfg: "cfg = (\<lparr>y_session = \<lparr>s_ref_count = 2, s_lifecycle = PTY_LIFECYCLE_STARTING,
      s_process_exited = False, s_output_closed = False, s_input_closed = False, s_abandoned = False,
      s_event_port = so_event_port options, s_input_buffer_limit = so_input_buffer_bytes options,
      s_output_window_limit = so_output_window_bytes options,
      s_output_credit = so_output_window_bytes options, s_platform = None,
      s_free_function = Some FREE_UNIX_SESSION\<rparr>, y_freed = False, y_fault = False,
      y_port_open = True, y_live = True, y_wake = False, y_stats = pty_debug_session_started st,
      y_dart = 1, y_events = [], y_os = [], y_accepted = [], y_written = [], y_dropped = False,
      y_out_posted = 0, y_acked = 0\<rparr>, [[], [PB BootSpawn]])"
    using start
    by (cases cfg) (auto simp: pty_session_start_def pty_session_init_def Let_def
        retain_session_def update_session_def pty_session_retain_def split: if_splits prod.splits)
  show "snd cfg = [[], [PB BootSpawn]]" and "s_platform (y_session (fst cfg)) = None"
    and "s_ref_count (y_session (fst cfg)) = 2" and "s_free_function (y_session (fst cfg)) = Some FREE_UNIX_SESSION"
    and "s_lifecycle (y_session (fst cfg)) = PTY_LIFECYCLE_STARTING"
    and "\<not> s_abandoned (y_session (fst cfg))" and "\<not> s_process_exited (y_session (fst cfg))"
    and "s_output_credit (y_session (fst cfg)) = s_output_window_limit (y_session (fst cfg))"
    and "\<not> y_freed (fst cfg)" and "\<not> y_fault (fst cfg)" and "y_port_open (fst cfg)" and "y_live (fst cfg)"
    and "\<not> y_wake (fst cfg)" and "y_dart (fst cfg) = 1" and "y_events (fst cfg) = []" and "y_os (fst cfg) = []"
    and "y_accepted (fst cfg) = []" and "y_written (fst cfg) = []" and "\<not> y_dropped (fst cfg)"
    and "y_out_posted (fst cfg) = 0" and "y_acked (fst cfg) = 0"
    by (simp_all add: cfg)
qed

text \<open>What a Dart action adds to thread 0 and does to the state.\<close>

primrec dart_points :: "dart_action \<Rightarrow> point list" where
  "dart_points (DartCall x) = [PA x]"
| "dart_points DartBeginClose = [PC BeginClose]"
| "dart_points DartRelease = [PS ReleaseSession]"
| "dart_points DartFinalize = [PS Abandon]"
| "dart_points DartClosePort = []"
| "dart_points DartExit = []"
| "dart_points DartPortLost = []"

lemma dart_act_threads: "snd (dart_act act cfg) = (snd cfg)[0 := dart_points act @ snd cfg ! 0]"
  by (cases act) (simp_all add: push_dart_def)

lemma dart_act_sum:
  "2 \<le> length (snd cfg) \<Longrightarrow>
    thread_sum w (snd (dart_act act cfg)) = thread_sum w (snd cfg) + stack_sum w (dart_points act)"
  by (cases "snd cfg") (simp_all add: dart_act_threads thread_sum_update)

lemma dart_act_session:
  "y_session (fst (dart_act act cfg)) = y_session (fst cfg)"
  "y_events (fst (dart_act act cfg)) = y_events (fst cfg)"
  "y_freed (fst (dart_act act cfg)) = y_freed (fst cfg)"
  "y_fault (fst (dart_act act cfg)) = y_fault (fst cfg)"
  "y_os (fst (dart_act act cfg)) = y_os (fst cfg)"
  "y_wake (fst (dart_act act cfg)) = y_wake (fst cfg)"
  "y_accepted (fst (dart_act act cfg)) = y_accepted (fst cfg)"
  "y_written (fst (dart_act act cfg)) = y_written (fst cfg)"
  "y_dropped (fst (dart_act act cfg)) = y_dropped (fst cfg)"
  "y_out_posted (fst (dart_act act cfg)) = y_out_posted (fst cfg)"
  "y_acked (fst (dart_act act cfg)) = y_acked (fst cfg)"
  by (cases act; simp add: push_dart_def)+

lemma dart_act_points:
  "all_points Q (snd cfg) \<Longrightarrow> 2 \<le> length (snd cfg) \<Longrightarrow> (\<forall>j \<in> set (dart_points act). Q j) \<Longrightarrow>
    all_points Q (snd (dart_act act cfg))"
  unfolding dart_act_threads
  by (rule all_points_update, assumption) (cases "snd cfg"; auto simp: all_points_def)

lemma run_thread_length: "length (snd cfg) \<le> length (snd (run_thread exec t cfg))"
  by (cases rule: run_thread_cases [of exec t cfg]) simp_all

text \<open>Induction over runs: an invariant of threads and of Dart's actions holds in every reachable
  configuration.\<close>

lemma unix_reach_threads: "unix_reach str strict cfg \<Longrightarrow> 2 \<le> length (snd cfg)"
proof (induction rule: unix_reach.induct)
  case (reach_start cfg)
  then show ?case by (simp add: started_state)
next
  case (reach_step cfg cfg')
  from reach_step(2) show ?case
  proof cases
    case (step_thread a t)
    then show ?thesis using reach_step(3) run_thread_length [of cfg "point_step str a" t] by simp
  next
    case (step_dart act)
    then show ?thesis using reach_step(3) by (simp add: dart_act_threads)
  qed
qed

lemma unix_invariant [consumes 1, case_names start thread dart]:
  assumes reach: "unix_reach str strict cfg"
    and start: "\<And>c. started c \<Longrightarrow> I c"
    and thread: "\<And>c a t. unix_reach str strict c \<Longrightarrow> I c \<Longrightarrow> I (run_thread (point_step str a) t c)"
    and dart: "\<And>c act. unix_reach str strict c \<Longrightarrow> I c \<Longrightarrow> dart_allowed strict act c \<Longrightarrow>
      2 \<le> length (snd c) \<Longrightarrow> I (dart_act act c)"
  shows "I cfg"
  using reach
proof (induction rule: unix_reach.induct)
  case (reach_start cfg)
  then show ?case by (rule start)
next
  case (reach_step cfg cfg')
  from reach_step(2) show ?case
  proof cases
    case (step_thread a t)
    then show ?thesis using thread [OF reach_step(1,3)] by simp
  next
    case (step_dart act)
    then show ?thesis using dart [OF reach_step(1,3)] unix_reach_threads [OF reach_step(1)] by simp
  qed
qed

lemmas step_basics = continue_with_def crash_def if_platform_def deref_platform_def platform_for_def
  pty_session_platform_load_def update_session_def set_platform_def os_def count_stats_def

lemmas mark_step_defs = maybe_post_session_closed_def mark_output_closed_def mark_input_closed_def
  discard_pending_writes_def discard_complete_def maybe_post_writable_def close_slave_def
  queue_dequeue_def queue_complete_def

lemmas close_step_defs = begin_close_load_def begin_close_exchange_def begin_close_platform_def
  begin_close_create_def begin_close_fallback_def closer_start_def closer_finish_def
  retain_session_def pty_session_retain_def

lemmas io_step_defs = flush_begin_def flush_dequeue_def
  flush_complete_def flush_give_up_def read_output_def read_charge_def read_post_def
  read_post_now_def read_post_failed_def reactor_done_def queue_dequeue_def queue_complete_def

lemmas reactor_step_defs = reactor_loop_def reactor_check_stop_def
  reactor_check_exit_def reactor_writable_def reactor_flushed_def reactor_flush_failed_def
  reactor_hangup_def reactor_hung_up_def reactor_after_empty_def reactor_finish_def
  pty_unix_drain_wake_pipe_def reactor_done_def

lemmas waiter_step_defs = waiter_start_def waiter_read_def waiter_exited_def waiter_finish_def

lemmas boot_step_defs = bootstrap_spawn_def bootstrap_cleanup_def
  bootstrap_publish_def pty_session_platform_store_def
  bootstrap_check_closing_def finish_unstarted_close_def bootstrap_create_reactor_def
  bootstrap_reactor_failed_def bootstrap_create_waiter_def bootstrap_waiter_failed_def
  reserve_close_def bootstrap_running_def bootstrap_lost_race_def retain_session_def
  pty_session_retain_def

lemmas api_step_defs = pty_session_ack_output_def pty_session_kill_def pty_session_discard_output_def

text \<open>Releasing, by its effect on every part of the state.\<close>

definition released :: "sys \<Rightarrow> sys" where
  "released s = fst (release_session s)"

lemma release_session_eq: "release_session s = (released s, [], [])"
  by (simp add: released_def release_session_def pty_session_release_def step_basics Let_def split: prod.splits)

lemma released_simps [simp]:
  "y_session (released s) = (y_session s)\<lparr>s_ref_count := s_ref_count (y_session s) - 1\<rparr>"
  "y_freed (released s) \<longleftrightarrow> y_freed s \<or> s_ref_count (y_session s) = 1"
  "y_fault (released s) = y_fault s" "y_port_open (released s) = y_port_open s"
  "y_live (released s) = y_live s" "y_wake (released s) = y_wake s" "y_dart (released s) = y_dart s"
  "y_events (released s) = y_events s" "y_accepted (released s) = y_accepted s"
  "y_written (released s) = y_written s" "y_dropped (released s) = y_dropped s"
  "y_out_posted (released s) = y_out_posted s" "y_acked (released s) = y_acked s"
  by (auto simp: released_def release_session_def pty_session_release_def free_unix_session_def
      step_basics Let_def split: option.splits)

lemma released_os: "set (y_os (released s)) \<subseteq> set (y_os s) \<union> range OsClose"
  by (auto simp: released_def release_session_def pty_session_release_def free_unix_session_def
      close_calls_def step_basics Let_def split: option.splits)

lemmas session_step_defs = release_session_eq post_session_event_def handle_posted_session_event_def
  pty_session_abandon_def wake_reactor_def stop_process_def release_process_def
  pty_session_mark_abandoned_def
  pty_session_mark_closing_def pty_session_mark_closed_def

text \<open>Descriptors to close stay folded; they hold no tokens of any kind below.\<close>

lemma set_close_if: "j \<in> set (close_if d) \<Longrightarrow> j = PS (CloseFd d)"
  by (auto simp: close_if_def split: if_splits)

lemma close_if_sum [simp]: "w (PS (CloseFd d)) = 0 \<Longrightarrow> stack_sum w (close_if d) = 0"
  by (simp add: close_if_def)

subsection \<open>Outcomes of the steps with many branches\<close>

definition platform_fresh :: "sys \<Rightarrow> PtyUnixPlatform \<Rightarrow> bool" where
  "platform_fresh s p \<longleftrightarrow> \<not> p_reactor_done p \<and> \<not> p_waiter_done p \<and> \<not> p_close_started p \<and>
     \<not> p_close_done p \<and> \<not> p_stopping p \<and> \<not> p_output_closed p \<and> \<not> p_input_closed p \<and>
     \<not> p_session_closed_posted p \<and> \<not> p_process_released p \<and> \<not> p_output_hung_up p \<and>
     \<not> p_discard_output p \<and> p_write_queue p = wq_new (s_input_buffer_limit (y_session s))"

lemma bootstrap_setup_cases:
  assumes "r = bootstrap_setup a master slave proc s"
  obtains (fail) fds e where "r = (os (close_calls fds) s,
      [PS (CloseFd master), PS (CloseFd slave), PB (BootCleanup proc e)], [])"
  | (ok) p where "r = (s, [PS (CloseFd slave), PB (BootPublish p)], [])" "platform_fresh s p"
      "p_master_fd p = master" "p_exit_fd p = proc_exit_fd proc" "p_release_fd p = proc_release_fd proc"
      "p_process_id p = proc_process_id proc"
proof (cases "create_wake_pipe a")
  case (fields result wake_read wake_write closed)
  show ?thesis
  proof (cases "an_alloc a \<and> an_mutex_init a = 0 \<and> result = 0 \<and> 0 \<le> an_dup a")
    case True
    let ?p = "new_platform
                \<lparr>p_wake_read := wake_read, p_wake_write := wake_write, p_master_fd := master,
                 p_slave_fd := an_dup a, p_process_id := proc_process_id proc,
                 p_exit_fd := proc_exit_fd proc, p_release_fd := proc_release_fd proc,
                 p_write_queue := wq_new (s_input_buffer_limit (y_session s))\<rparr>"
    have "r = (s, [PS (CloseFd slave), PB (BootPublish ?p)], [])"
      using assms True fields by (simp add: bootstrap_setup_def continue_with_def Let_def)
    then show ?thesis by (rule ok) (simp_all add: platform_fresh_def new_platform_def)
  next
    case False
    have "\<exists>fds e. r = (os (close_calls fds) s,
      [PS (CloseFd master), PS (CloseFd slave), PB (BootCleanup proc e)], [])"
      using assms False fields by (auto simp: bootstrap_setup_def continue_with_def Let_def split: if_splits)
    then show ?thesis using fail by blast
  qed
qed

lemma flush_write_cases:
  assumes "r = flush_write str a d c rv s"
  obtains (again) "r = (s, [PI (FlushWrite d c rv)], [])"
  | (progress) n where "wc_offset c < wc_length c" "0 < n" "n \<le> length (chunk_rest c)"
      "r = (s\<lparr>y_written := y_written s @ take n (chunk_rest c)\<rparr>, [PI (FlushWrite d (chunk_advance n c) rv)], [])"
  | (error) e where "r = (s, [PI (FlushGiveUp c e rv)], [])"
  | (requeue) "r = flush_requeue str c rv s"
  | (complete) "\<not> wc_offset c < wc_length c"
      "r = (s, [PS (PostEvent (EvWriteComplete (wc_request_id c))), PI (FlushComplete d c rv)], [])"
proof (cases "wc_offset c < wc_length c")
  case False
  then show ?thesis using assms complete by (simp add: flush_write_def continue_with_def)
next
  case True
  show ?thesis
  proof (cases "an_write a")
    case (WriteCount n)
    consider "0 < n \<and> n \<le> length (chunk_rest c)" | "n = 0" | "\<not> (0 < n \<and> n \<le> length (chunk_rest c))" "n \<noteq> 0"
      by blast
    then show ?thesis
    proof cases
      case 1
      show ?thesis
        by (rule progress [of n]) (use assms True 1 WriteCount in \<open>simp_all add: flush_write_def continue_with_def\<close>)
    next
      case 2
      show ?thesis
        by (rule error) (use assms True 2 WriteCount in \<open>simp add: flush_write_def continue_with_def\<close>)
    next
      case 3
      show ?thesis
        by (rule again) (use assms True 3 WriteCount in \<open>simp add: flush_write_def continue_with_def\<close>)
    qed
  next
    case (WriteErrno e)
    consider "e = EINTR" | "e \<noteq> EINTR" "e = EAGAIN" | "e \<noteq> EINTR" "e \<noteq> EAGAIN" by blast
    then show ?thesis
    proof cases
      case 1
      show ?thesis
        by (rule again) (use assms True 1 WriteErrno in \<open>simp add: flush_write_def continue_with_def\<close>)
    next
      case 2
      show ?thesis
        by (rule requeue) (use assms True 2 WriteErrno in \<open>simp add: flush_write_def\<close>)
    next
      case 3
      show ?thesis
        by (rule error) (use assms True 3 WriteErrno in \<open>simp add: flush_write_def continue_with_def\<close>)
    qed
  qed
qed

lemma flush_requeue_cases:
  assumes "r = flush_requeue str c rv s"
  obtains (null) "platform_for s = None" "r = crash s"
  | (accepted) p q where "platform_for s = Some p" "wq_requeue_front c (p_write_queue p) = (PTY_WRITE_ACCEPTED, q)"
      "r = (count_stats (pty_debug_pending_write_requeued (wc_accounted c) (wc_remaining c))
              (set_platform (p\<lparr>p_write_queue := q\<rparr>) s),
            [PM MaybePostWritable, PR (ReactorFlushed rv True)], [])"
  | (rejected) p res q e where "platform_for s = Some p" "wq_requeue_front c (p_write_queue p) = (res, q)"
      "res \<noteq> PTY_WRITE_ACCEPTED" "r = (s, [PI (FlushGiveUp c e rv)], [])"
proof (cases "platform_for s")
  case None
  then show ?thesis using assms null by (simp add: flush_requeue_def deref_platform_def)
next
  case (Some p)
  obtain res q where q: "wq_requeue_front c (p_write_queue p) = (res, q)" by fastforce
  show ?thesis
  proof (cases "res = PTY_WRITE_ACCEPTED")
    case True
    then show ?thesis
      using assms Some q accepted [of p q] by (simp add: flush_requeue_def deref_platform_def continue_with_def)
  next
    case False
    then show ?thesis
      using assms Some q rejected [of p res q]
      by (cases res) (simp_all add: flush_requeue_def deref_platform_def continue_with_def)
  qed
qed

lemma read_master_cases:
  assumes "r = read_master str a d discard capacity site s"
  obtains (again) "r = (s, [PI (ReadMaster d discard capacity site)], [])"
  | (returned) result where "r = (s, read_return result site, [])"
  | (bytes) bytes where "\<not> discard" "bytes \<noteq> []" "length bytes \<le> unat capacity" "r = (s, [PI (ReadCharge bytes site)], [])"
  | (error) e where "r = (s, [PS (PostEvent (EvAsyncError e)), PI (ReadFailed site)], [])"
  using assms that by (auto simp: read_master_def continue_with_def split: if_splits read_answer.splits)

lemma reactor_poll_cases:
  assumes "r = reactor_poll str a d rq s"
  obtains (again) "r = (s, [PR (ReactorPoll d rq)], [])"
  | (error) e where "r = (s, PS (PostEvent (EvAsyncError e)) # reactor_done, [])"
  | (woken) rv where "y_wake s" "r = (s, [PR (ReactorWoken rv (rq_may_read rq))], [])"
  | (ready) rv where "\<not> y_wake s" "r = (s, [PR (ReactorCheckStop rv False (rq_may_read rq))], [])"
  using assms that by (auto simp: reactor_poll_def continue_with_def Let_def split: if_splits poll_answer.splits)

lemma api_write_cases:
  assumes "r = ar_step (pty_session_try_write a (Some s) request (Some bytes) None s)"
  obtains (refused) "r = (s, [], [])"
  | (error) p where "platform_for s = Some p" "r = (set_platform p s, [], [])"
  | (accepted) p q where "platform_for s = Some p" "\<not> p_stopping p" "\<not> p_input_closed p" "bytes \<noteq> []"
      "wq_try_enqueue bytes request (p_write_queue p) = (PTY_WRITE_ACCEPTED, q)"
      "r = (set_platform (p\<lparr>p_write_queue := q\<rparr>)
              (count_stats (pty_debug_pending_write_enqueued (of_nat (length bytes)))
                (s\<lparr>y_accepted := y_accepted s @ bytes\<rparr>)), [PS WakeReactor], [])"
  | (backpressured) p where "platform_for s = Some p"
      "r = (set_platform (p\<lparr>p_write_backpressured := True\<rparr>) s, [], [])"
  using assms that
  by (auto simp: pty_session_try_write_def queue_enqueue_def continue_with_def Let_def
      split: if_splits option.splits prod.splits PtyTryWriteResult.splits)

lemma api_resize_cases:
  assumes "r = ar_step (pty_session_resize str a sz e s)"
  obtains (nothing) "r = (s, [], [])" | (window) d w where "r = (os [OsSetWindow d w] s, [], [])"
  using assms that
  by (auto simp: pty_session_resize_def continue_with_def Let_def split: if_splits option.splits)

lemma api_signal_cases:
  assumes "r = ar_step (pty_session_send_signal str a sig target e s)"
  obtains (nothing) "r = (s, [], [])"
  | (signal) p pid where "platform_for s = Some p" "\<not> p_process_released p" "\<not> s_process_exited (y_session s)"
      "r = (os [OsKill pid sig] s, [], [])"
  using assms that
  by (auto simp: pty_session_send_signal_def continue_with_def Let_def split: if_splits option.splits)

lemmas outcome_elims = bootstrap_setup_cases flush_write_cases flush_requeue_cases read_master_cases
  reactor_poll_cases api_write_cases api_resize_cases api_signal_cases

end
