(* ===== verification/Unix_Refs.thy ===== *)
theory Unix_Refs
  imports Unix_System
begin

section \<open>Ownership of the session\<close>

subsection \<open>Case analysis of a step\<close>

lemma point_stepE:
  assumes "point_step str a i s = r"
  obtains (freed) "y_freed s" "\<not> session_free i" "r = crash s"
  | (PS) x where "i = PS x" "session_step a x s = r" "y_freed s \<Longrightarrow> session_free i"
  | (PM) x where "i = PM x" "mark_step str x s = r" "\<not> y_freed s"
  | (PC) x where "i = PC x" "close_step a x s = r" "\<not> y_freed s"
  | (PI) x where "i = PI x" "io_step str a x s = r" "\<not> y_freed s"
  | (PR) x where "i = PR x" "reactor_step str a x s = r" "\<not> y_freed s"
  | (PW) x where "i = PW x" "waiter_step str a x s = r" "\<not> y_freed s"
  | (PB) x where "i = PB x" "boot_step str a x s = r" "y_freed s \<Longrightarrow> session_free i"
  | (PA) x where "i = PA x" "api_step str a x s = r" "\<not> y_freed s"
  using assms by (cases i) (auto simp: point_step_def split: if_splits)

lemmas point_elims = point_stepE session_step.elims mark_step.elims close_step.elims io_step.elims
  reactor_step.elims waiter_step.elims boot_step.elims api_step.elims outcome_elims

lemmas unix_defs = step_basics session_step_defs mark_step_defs close_step_defs io_step_defs
  reactor_step_defs waiter_step_defs boot_step_defs api_step_defs Let_def

lemmas step_splits = if_splits option.splits prod.splits bool.splits release_outcome.splits
  PtyLifecycle.splits write_answer.splits read_answer.splits PtyTryWriteResult.splits
  poll_answer.splits exit_answer.splits spawn_answer.splits

subsection \<open>The platform is published once and stays\<close>

primrec after_publish :: "point \<Rightarrow> bool" where
  "after_publish (PS x) \<longleftrightarrow> x = WakeReactor \<or> x = ReleaseProcess"
| "after_publish (PM x) \<longleftrightarrow> (case x of DiscardPendingWrites \<Rightarrow> True | DiscardComplete _ \<Rightarrow> True | _ \<Rightarrow> False)"
| "after_publish (PC x) \<longleftrightarrow> (case x of BeginClose \<Rightarrow> False | BeginCloseFromStarting \<Rightarrow> False
     | BeginCloseFromRunning \<Rightarrow> False | BeginClosePlatform \<Rightarrow> False | _ \<Rightarrow> True)"
| "after_publish (PI x) \<longleftrightarrow> True"
| "after_publish (PR x) \<longleftrightarrow> True"
| "after_publish (PW x) \<longleftrightarrow> True"
| "after_publish (PB x) \<longleftrightarrow> (case x of BootSpawn \<Rightarrow> False | BootSetup _ _ _ \<Rightarrow> False | BootCleanup _ _ \<Rightarrow> False
     | BootPublish _ \<Rightarrow> False | _ \<Rightarrow> True)"
| "after_publish (PA x) \<longleftrightarrow> False"

lemma step_keeps_platform:
  assumes "point_step str a i s = (s', push, new)" and "platform_for s \<noteq> None"
  shows "platform_for s' \<noteq> None"
  using assms by (elim point_elims) (auto simp: unix_defs split: step_splits)

lemma read_return_sum:
  assumes "\<And>x. w (PI x) = 1" and "\<And>x. w (PR x) = 1" and "\<And>x. w (PM x) = 0"
  shows "stack_sum w (read_return r site) = 1"
  using assms by (cases site; cases r) (simp_all add: reactor_done_def)

lemma step_no_fault:
  assumes "point_step str a i s = (s', push, new)"
    and "\<not> y_fault s" and "y_freed s \<Longrightarrow> session_free i" and "after_publish i \<Longrightarrow> platform_for s \<noteq> None"
  shows "\<not> y_fault s'"
  using assms by (elim point_elims) (auto simp: unix_defs split: step_splits)

definition platform_ok :: "sys \<Rightarrow> point \<Rightarrow> bool" where
  "platform_ok s i \<longleftrightarrow> (after_publish i \<longrightarrow> platform_for s \<noteq> None)"

lemma read_return_after_publish:
  "j \<in> set (read_return r site) \<Longrightarrow> after_publish j \<or> j = PM CloseSlave \<or> j = PM MarkOutputClosed \<or> j = PM (MarkInputClosed None)"
  by (cases site; cases r) (auto simp: reactor_done_def split: if_splits)

lemma step_pushes_platform_ok:
  assumes "point_step str a i s = (s', push, new)" and "platform_ok s i"
  shows "(\<forall>j \<in> set push. platform_ok s' j) \<and> all_points (platform_ok s') new"
  using assms by (elim point_elims) (auto simp: unix_defs platform_ok_def dest!: read_return_after_publish set_close_if split: step_splits)

interpretation platform_points: point_invariant "point_step str a" platform_ok for str a
proof
  fix i s s' push new j
  assume step: "point_step str a i s = (s', push, new)" and i: "platform_ok s i"
  show "(\<forall>j \<in> set push. platform_ok s' j) \<and> all_points (platform_ok s') new"
    by (rule step_pushes_platform_ok [OF step i])
  assume "platform_ok s j"
  then show "platform_ok s' j"
    using step_keeps_platform [OF step] by (auto simp: platform_ok_def)
qed

subsection \<open>References\<close>

text \<open>The references a point still has to give back: one for every worker's last stretch, the two
  \<open>pty_session_begin_close\<close> takes for the closer, the one an abandonment took from Dart.\<close>

primrec ref_weight :: "point \<Rightarrow> int" where
  "ref_weight (PS x) = (case x of ReleaseSession \<Rightarrow> 1 | _ \<Rightarrow> 0)"
| "ref_weight (PM x) = 0"
| "ref_weight (PC x) = (case x of BeginCloseRetain2 \<Rightarrow> 1 | BeginCloseCreate \<Rightarrow> 2 | CloserStart \<Rightarrow> 1
     | CloserFinish \<Rightarrow> 1 | _ \<Rightarrow> 0)"
| "ref_weight (PI x) = 1"
| "ref_weight (PR x) = 1"
| "ref_weight (PW x) = 1"
| "ref_weight (PB x) = (case x of BootCreateReactor \<Rightarrow> 2 | BootCreateWaiter \<Rightarrow> 2 | _ \<Rightarrow> 1)"
| "ref_weight (PA x) = 0"

text \<open>The same with the references a point will take: the start of two workers, the close.\<close>

primrec ref_budget :: "point \<Rightarrow> int" where
  "ref_budget (PS x) = (case x of ReleaseSession \<Rightarrow> 1 | _ \<Rightarrow> 0)"
| "ref_budget (PM x) = 0"
| "ref_budget (PC x) = (case x of BeginCloseRetain \<Rightarrow> 2 | BeginCloseRetain2 \<Rightarrow> 2 | BeginCloseCreate \<Rightarrow> 2
     | CloserStart \<Rightarrow> 1 | CloserFinish \<Rightarrow> 1 | _ \<Rightarrow> 0)"
| "ref_budget (PI x) = 1"
| "ref_budget (PR x) = 1"
| "ref_budget (PW x) = 1"
| "ref_budget (PB x) = (case x of BootSpawn \<Rightarrow> 5 | BootSetup _ _ _ \<Rightarrow> 5 | BootPublish _ \<Rightarrow> 5 | BootRunning \<Rightarrow> 1 | BootLostRace \<Rightarrow> 1 | BootUnstarted \<Rightarrow> 1
     | BootReactorFailed _ \<Rightarrow> 1 | BootWaiterFailed _ \<Rightarrow> 1 | BootCleanup _ _ \<Rightarrow> 1
     | BootRetainWaiter \<Rightarrow> 2 | BootCreateWaiter \<Rightarrow> 2 | _ \<Rightarrow> 3)"
| "ref_budget (PA x) = 0"

definition ref_pot :: "sys \<Rightarrow> int" where
  "ref_pot s = y_dart s - uint (s_ref_count (y_session s))"

definition budget_pot :: "sys \<Rightarrow> int" where
  "budget_pot s = y_dart s + (case platform_for s of None \<Rightarrow> 0 | Some p \<Rightarrow> if p_close_started p then 0 else 2)"

lemma ref_weight_bounds: "0 \<le> ref_weight i" "ref_weight i \<le> ref_budget i"
  by (cases i; auto split: session_point.splits close_point.splits boot_point.splits)+

lemma read_return_refs [simp]:
  "stack_sum ref_weight (read_return r site) = 1" "stack_sum ref_budget (read_return r site) = 1"
  by (simp_all add: read_return_sum)

text \<open>Executable without undefined behaviour, and without wrapping the count.\<close>

definition ref_good :: "point \<Rightarrow> sys \<Rightarrow> bool" where
  "ref_good i s \<longleftrightarrow> (y_freed s \<longrightarrow> session_free i) \<and> platform_ok s i \<and>
     (ref_weight i > 0 \<longrightarrow> s_ref_count (y_session s) \<noteq> 0) \<and> s_ref_count (y_session s) \<noteq> - 1"

lemma uint_retain: "(x :: u32) \<noteq> -1 \<Longrightarrow> uint (x + 1) = uint x + 1"
proof -
  assume "x \<noteq> -1"
  then have "1 + x \<noteq> 0" by (metis add.commute eq_neg_iff_add_eq_0)
  then have "unat (1 + x) = Suc (unat x)" by (rule unatSuc)
  then have "int (unat (x + 1)) = int (unat x) + 1"
    by (simp only: add.commute [of x 1] of_nat_Suc add.commute [of _ "1 :: int"])
  then show ?thesis by (simp only: uint_nat)
qed

lemma uint_release: "(x :: u32) \<noteq> 0 \<Longrightarrow> uint (x - 1) = uint x - 1"
proof -
  assume x: "x \<noteq> 0"
  then have "int (unat (x - 1)) = int (unat x) - 1"
    using x by (simp only: unat_minus_one [OF x]) (simp only: unat_gt_0 [symmetric] of_nat_diff Suc_leI One_nat_def of_nat_1)
  then show ?thesis by (simp only: uint_nat)
qed

lemma refs_law:
  assumes "point_step str a i s = (s', push, new)" and "ref_good i s"
  shows "ref_pot s' + stack_sum ref_weight push + thread_sum ref_weight new = ref_pot s + ref_weight i"
  using assms
  by (elim point_elims)
    (auto simp: unix_defs ref_good_def platform_ok_def ref_pot_def uint_retain uint_release split: step_splits)

lemma budget_law:
  assumes "point_step str a i s = (s', push, new)"
  shows "budget_pot s' + stack_sum ref_budget push + thread_sum ref_budget new \<le> budget_pot s + ref_budget i"
  using assms ref_weight_bounds [of i]
  by (elim point_elims)
    (auto simp: unix_defs budget_pot_def split: step_splits)

interpretation refs: token_conservation "point_step str a" ref_weight ref_pot ref_good for str a
proof
  fix i s s' push new
  assume "point_step str a i s = (s', push, new)" and "ref_good i s"
  from refs_law [OF this]
  show "ref_pot s' + stack_sum ref_weight push + thread_sum ref_weight new \<le> ref_pot s + ref_weight i"
    and "ref_pot s + ref_weight i \<le> ref_pot s' + stack_sum ref_weight push + thread_sum ref_weight new"
    by simp_all
qed

interpretation budget: token_law "point_step str a" ref_budget budget_pot "\<lambda>_ _. True" for str a
  by unfold_locales (rule budget_law)

subsection \<open>Shapes of stacks\<close>

text \<open>The points a worker thread ends on: as long as one is on a stack, the thread holds a reference.\<close>

primrec tail_point :: "point \<Rightarrow> bool" where
  "tail_point (PS x) \<longleftrightarrow> x = ReleaseSession"
| "tail_point (PM x) \<longleftrightarrow> False"
| "tail_point (PC x) \<longleftrightarrow> x = CloserStart \<or> x = CloserFinish"
| "tail_point (PI x) \<longleftrightarrow> True"
| "tail_point (PR x) \<longleftrightarrow> True"
| "tail_point (PW x) \<longleftrightarrow> True"
| "tail_point (PB x) \<longleftrightarrow> True"
| "tail_point (PA x) \<longleftrightarrow> False"

lemma tail_point_ref: "tail_point i \<Longrightarrow> 1 \<le> ref_weight i"
  by (cases i) (auto split: boot_point.splits)

lemma read_return_last:
  "read_return r site \<noteq> []"
  "tail_point (last (read_return r site))"
  by (cases site; cases r; simp add: reactor_done_def)+

lemma tail_law:
  assumes "point_step str a i s = (s', push, new)"
  shows "(tail_point i \<longrightarrow> push = [] \<or> tail_point (last push)) \<and> (\<forall>st \<in> set new. st \<noteq> [] \<longrightarrow> tail_point (last st))"
  using assms
  by (elim point_elims) (auto simp: unix_defs read_return_last split: step_splits)

end
