(* ===== verification/Unix_Once.thy ===== *)
theory Unix_Once
  imports Unix_Refs
begin

section \<open>Events that happen once, and the order of shutdown\<close>

subsection \<open>The platform a bootstrap thread publishes\<close>

definition publish_fresh :: "sys \<Rightarrow> point \<Rightarrow> bool" where
  "publish_fresh s i \<longleftrightarrow> (case i of PB x \<Rightarrow> (case x of BootPublish p \<Rightarrow> platform_fresh s p | _ \<Rightarrow> True) | _ \<Rightarrow> True)"

lemma step_limits:
  assumes "point_step str a i s = (s', push, new)"
  shows "s_input_buffer_limit (y_session s') = s_input_buffer_limit (y_session s) \<and>
    s_output_window_limit (y_session s') = s_output_window_limit (y_session s) \<and>
    s_free_function (y_session s') = s_free_function (y_session s)"
  using assms by (elim point_elims) (auto simp: unix_defs split: step_splits)

lemma read_return_fresh: "\<forall>j \<in> set (read_return r site). publish_fresh s j"
  by (cases site; cases r) (auto simp: reactor_done_def publish_fresh_def split: if_splits)

lemma step_pushes_fresh:
  assumes "point_step str a i s = (s', push, new)" and "publish_fresh s i"
  shows "(\<forall>j \<in> set push. publish_fresh s' j) \<and> all_points (publish_fresh s') new"
  using assms
  by (elim point_elims)
    (auto simp: unix_defs publish_fresh_def platform_fresh_def new_platform_def
      dest!: read_return_fresh [THEN bspec] set_close_if split: step_splits)

interpretation fresh_points: point_invariant "point_step str a" publish_fresh for str a
proof
  fix i s s' push new j
  assume step: "point_step str a i s = (s', push, new)" and i: "publish_fresh s i"
  show "(\<forall>j \<in> set push. publish_fresh s' j) \<and> all_points (publish_fresh s') new"
    by (rule step_pushes_fresh [OF step i])
  assume "publish_fresh s j"
  then show "publish_fresh s' j"
    using step_limits [OF step] by (simp add: publish_fresh_def platform_fresh_def split: point.splits boot_point.splits)
qed

subsection \<open>One reactor, one waiter\<close>

text \<open>The reactor's code, and the startup points before it is started or replaced, exclude its
  \<open>reactor_done\<close> flag; likewise for the waiter.\<close>

primrec reactor_weight :: "point \<Rightarrow> int" where
  "reactor_weight (PS x) = 0"
| "reactor_weight (PM x) = 0"
| "reactor_weight (PC x) = 0"
| "reactor_weight (PI x) = 1"
| "reactor_weight (PR x) = 1"
| "reactor_weight (PW x) = 0"
| "reactor_weight (PB x) = (case x of BootRetainWaiter \<Rightarrow> 0 | BootCreateWaiter \<Rightarrow> 0 | BootWaiterFailed _ \<Rightarrow> 0
     | BootRunning \<Rightarrow> 0 | BootLostRace \<Rightarrow> 0 | _ \<Rightarrow> 1)"
| "reactor_weight (PA x) = 0"

primrec waiter_weight :: "point \<Rightarrow> int" where
  "waiter_weight (PS x) = 0"
| "waiter_weight (PM x) = 0"
| "waiter_weight (PC x) = 0"
| "waiter_weight (PI x) = 0"
| "waiter_weight (PR x) = 0"
| "waiter_weight (PW x) = 1"
| "waiter_weight (PB x) = (case x of BootRunning \<Rightarrow> 0 | BootLostRace \<Rightarrow> 0 | _ \<Rightarrow> 1)"
| "waiter_weight (PA x) = 0"

definition flag_pot :: "(PtyUnixPlatform \<Rightarrow> bool) \<Rightarrow> sys \<Rightarrow> int" where
  "flag_pot flag s = (case platform_for s of None \<Rightarrow> 0 | Some p \<Rightarrow> if flag p then 1 else 0)"

definition fresh_good :: "point \<Rightarrow> sys \<Rightarrow> bool" where
  "fresh_good i s \<longleftrightarrow> publish_fresh s i"

lemma weights_nonneg: "0 \<le> reactor_weight i" "0 \<le> waiter_weight i"
  by (cases i; auto split: boot_point.splits)+

lemma read_return_weights [simp]:
  "stack_sum reactor_weight (read_return r site) = 1" "stack_sum waiter_weight (read_return r site) = 0"
  by (cases site; cases r; simp add: reactor_done_def)+

lemma reactor_law:
  assumes "point_step str a i s = (s', push, new)" and "fresh_good i s"
  shows "flag_pot p_reactor_done s' + stack_sum reactor_weight push + thread_sum reactor_weight new
    \<le> flag_pot p_reactor_done s + reactor_weight i"
  using assms weights_nonneg(1) [of i]
  by (elim point_elims)
    (auto simp: unix_defs flag_pot_def fresh_good_def publish_fresh_def platform_fresh_def split: step_splits)

lemma waiter_law:
  assumes "point_step str a i s = (s', push, new)" and "fresh_good i s"
  shows "flag_pot p_waiter_done s' + stack_sum waiter_weight push + thread_sum waiter_weight new
    \<le> flag_pot p_waiter_done s + waiter_weight i"
  using assms weights_nonneg(2) [of i]
  by (elim point_elims)
    (auto simp: unix_defs flag_pot_def fresh_good_def publish_fresh_def platform_fresh_def split: step_splits)

interpretation reactor: token_law "point_step str a" reactor_weight "flag_pot p_reactor_done" fresh_good for str a
  by unfold_locales (rule reactor_law)

interpretation waiter: token_law "point_step str a" waiter_weight "flag_pot p_waiter_done" fresh_good for str a
  by unfold_locales (rule waiter_law)

subsection \<open>Reachable configurations\<close>

lemma reach_platform_ok: "unix_reach str strict cfg \<Longrightarrow> all_points (platform_ok (fst cfg)) (snd cfg)"
proof (induction rule: unix_invariant)
  case (start c)
  then show ?case by (simp add: started_state platform_ok_def)
next
  case (thread c a t)
  show ?case by (rule platform_points.run_thread_points [OF thread.IH])
next
  case (dart c act)
  have "all_points (platform_ok (fst (dart_act act c))) (snd c)"
    using dart.IH by (rule all_points_mono) (simp add: platform_ok_def platform_for_def dart_act_session)
  then show ?case
    using dart.hyps(3) by (rule dart_act_points) (cases act; simp add: platform_ok_def)
qed

lemma reach_publish_fresh: "unix_reach str strict cfg \<Longrightarrow> all_points (publish_fresh (fst cfg)) (snd cfg)"
proof (induction rule: unix_invariant)
  case (start c)
  then show ?case by (simp add: started_state publish_fresh_def)
next
  case (thread c a t)
  show ?case by (rule fresh_points.run_thread_points [OF thread.IH])
next
  case (dart c act)
  have "all_points (publish_fresh (fst (dart_act act c))) (snd c)"
    using dart.IH by (rule all_points_mono)
      (simp add: publish_fresh_def platform_fresh_def dart_act_session split: point.splits boot_point.splits)
  then show ?case
    using dart.hyps(3) by (rule dart_act_points) (cases act; simp add: publish_fresh_def)
qed

text \<open>An invariant of the shared state, from its preservation by each point.\<close>

lemma unix_state_invariant:
  assumes reach: "unix_reach str strict cfg"
    and start: "\<And>c. started c \<Longrightarrow> J (fst c)"
    and point: "\<And>a i s s' push new. point_step str a i s = (s', push, new) \<Longrightarrow> J s \<Longrightarrow>
      platform_ok s i \<Longrightarrow> publish_fresh s i \<Longrightarrow> J s'"
    and dart: "\<And>c act. J (fst c) \<Longrightarrow> J (fst (dart_act act c))"
  shows "J (fst cfg)"
  using reach
proof (induction rule: unix_invariant)
  case (start c)
  then show ?case by (rule assms(2))
next
  case (thread c a t)
  show ?case
  proof (cases rule: run_thread_cases [of "point_step str a" t c])
    case (step i rest s' push new)
    have "platform_ok (fst c) i" and "publish_fresh (fst c) i"
      using all_points_nth [OF reach_platform_ok [OF thread.hyps(1)] step(1,2)]
        all_points_nth [OF reach_publish_fresh [OF thread.hyps(1)] step(1,2)] by simp_all
    then show ?thesis using point [OF step(3) thread.IH] step(4) by simp
  qed (use thread.IH in simp)
next
  case (dart c act)
  then show ?case by (simp add: assms(4))
qed

lemma reach_fresh_good:
  "unix_reach str strict c \<Longrightarrow> i # rest \<in> set (snd c) \<Longrightarrow> fresh_good i (fst c)"
  using reach_publish_fresh unfolding fresh_good_def all_points_def by fastforce

text \<open>A token system that starts with one token never has more.\<close>

lemma reach_one_token:
  assumes reach: "unix_reach str strict cfg"
    and tl: "\<And>a. token_law (point_step str a) w pot good"
    and good: "\<And>c i rest. unix_reach str strict c \<Longrightarrow> i # rest \<in> set (snd c) \<Longrightarrow> good i (fst c)"
    and start: "\<And>c. started c \<Longrightarrow> pot (fst c) + thread_sum w (snd c) \<le> 1"
    and dart_pts: "\<And>act. stack_sum w (dart_points act) = 0"
    and pot: "\<And>act c. pot (fst (dart_act act c)) = pot (fst c)"
  shows "pot (fst cfg) + thread_sum w (snd cfg) \<le> 1"
  using reach
proof (induction rule: unix_invariant)
  case (thread c a t)
  have "token_law.good_top good t c"
    using good [OF thread.hyps(1)] by (auto simp: token_law.good_top_def [OF tl] in_set_conv_nth)
  from token_law.run_thread_tokens [OF tl this, of a] show ?case
    using thread.IH by (simp add: token_law.tokens_def [OF tl])
next
  case (dart c act)
  then show ?case using dart_act_sum [of c w act] dart_pts [of act] pot [of act c] by simp
qed (use start in simp_all)

lemma dart_points_weights:
  "stack_sum reactor_weight (dart_points act) = 0" "stack_sum waiter_weight (dart_points act) = 0"
  by (cases act; simp)+

lemma flag_pot_dart: "flag_pot flag (fst (dart_act act c)) = flag_pot flag (fst c)"
  by (simp add: flag_pot_def platform_for_def dart_act_session)

lemma started_flag_pot: "started c \<Longrightarrow> flag_pot flag (fst c) = 0"
  by (simp add: flag_pot_def platform_for_def pty_session_platform_load_def started_state)

lemma reach_reactor:
  "unix_reach str strict cfg \<Longrightarrow> flag_pot p_reactor_done (fst cfg) + thread_sum reactor_weight (snd cfg) \<le> 1"
  by (erule reach_one_token [OF _ reactor.token_law_axioms reach_fresh_good])
    (simp_all add: started_flag_pot started_state dart_points_weights flag_pot_dart)

lemma reach_waiter:
  "unix_reach str strict cfg \<Longrightarrow> flag_pot p_waiter_done (fst cfg) + thread_sum waiter_weight (snd cfg) \<le> 1"
  by (erule reach_one_token [OF _ waiter.token_law_axioms reach_fresh_good])
    (simp_all add: started_flag_pot started_state dart_points_weights flag_pot_dart)

text \<open>A point that holds the token excludes the flag.\<close>

lemma flag_excluded:
  assumes "flag_pot flag s + thread_sum w ths \<le> 1" and "st \<in> set ths" and "i \<in> set st" and "1 \<le> w i"
    and "\<And>j. 0 \<le> w j" and "platform_for s = Some p"
  shows "\<not> flag p"
proof -
  have "w i \<le> stack_sum w st" using assms(3,5) by (simp add: stack_sum_member)
  also have "\<dots> \<le> thread_sum w ths" using assms(2,5) by (simp add: thread_sum_member)
  finally show ?thesis using assms(1,4,6) by (auto simp: flag_pot_def split: if_splits)
qed

subsection \<open>The closed event is guarded\<close>

definition closed_guard :: "sys \<Rightarrow> bool" where
  "closed_guard s \<longleftrightarrow> (case platform_for s of None \<Rightarrow> True
     | Some p \<Rightarrow> p_session_closed_posted p \<longrightarrow> p_stopping p \<and> p_reactor_done p \<and> p_waiter_done p \<and> p_close_done p)"

lemma closed_guard_step:
  assumes "point_step str a i s = (s', push, new)" and "closed_guard s" and "publish_fresh s i"
  shows "closed_guard s'"
  using assms
  by (elim point_elims)
    (auto simp: unix_defs closed_guard_def publish_fresh_def platform_fresh_def split: step_splits)

lemma closed_guard_ends:
  "started c \<Longrightarrow> closed_guard (fst c)" "closed_guard (fst c) \<Longrightarrow> closed_guard (fst (dart_act act c))"
  by (simp_all add: closed_guard_def platform_for_def pty_session_platform_load_def started_state dart_act_session)

lemma reach_closed_guard: "unix_reach str strict cfg \<Longrightarrow> closed_guard (fst cfg)"
  by (erule unix_state_invariant) (erule closed_guard_ends, erule (2) closed_guard_step, erule closed_guard_ends)

subsection \<open>Events posted at most once\<close>

text \<open>An event of the kind \<open>is\<close> in the log or about to be posted, and, once there is a platform, the
  flag that still allows it.\<close>

primrec once_weight :: "(pty_event \<Rightarrow> bool) \<Rightarrow> point \<Rightarrow> int" where
  "once_weight is (PS x) = (case x of PostEvent ev \<Rightarrow> if is ev then 1 else 0
     | PostNow ev \<Rightarrow> if is ev then 1 else 0 | _ \<Rightarrow> 0)"
| "once_weight is (PM x) = 0"
| "once_weight is (PC x) = 0"
| "once_weight is (PI x) = 0"
| "once_weight is (PR x) = 0"
| "once_weight is (PW x) = 0"
| "once_weight is (PB x) = (case x of BootSpawn \<Rightarrow> 1 | BootSetup _ _ _ \<Rightarrow> 1 | BootCleanup _ _ \<Rightarrow> 1
     | BootPublish _ \<Rightarrow> 1 | _ \<Rightarrow> 0)"
| "once_weight is (PA x) = 0"

definition event_count :: "(pty_event \<Rightarrow> bool) \<Rightarrow> sys \<Rightarrow> int" where
  "event_count is s = int (length (filter is (y_events s)))"

definition once_pot :: "(pty_event \<Rightarrow> bool) \<Rightarrow> (PtyUnixPlatform \<Rightarrow> bool) \<Rightarrow> sys \<Rightarrow> int" where
  "once_pot is flag s = event_count is s +
     (case platform_for s of None \<Rightarrow> 0 | Some p \<Rightarrow> if flag p then 0 else 1)"

definition unset_at_failure :: "(PtyUnixPlatform \<Rightarrow> bool) \<Rightarrow> point \<Rightarrow> sys \<Rightarrow> bool" where
  "unset_at_failure flag i s \<longleftrightarrow>
     (case i of PB x \<Rightarrow> (case x of BootUnstarted \<Rightarrow> True | BootReactorFailed _ \<Rightarrow> True | _ \<Rightarrow> False) | _ \<Rightarrow> False)
     \<longrightarrow> (\<forall>p. platform_for s = Some p \<longrightarrow> \<not> flag p)"

lemma once_weight_nonneg: "0 \<le> once_weight is i"
  by (cases i; auto split: session_point.splits boot_point.splits)

lemma read_return_once [simp]: "stack_sum (once_weight is) (read_return r site) = 0"
  by (cases site; cases r) (simp_all add: reactor_done_def)

lemma exit_event_kind [simp]: "exit_event str r \<noteq> EvSessionClosed" "exit_event str r \<noteq> EvOutputClosed"
  "EvSessionClosed \<noteq> exit_event str r" "EvOutputClosed \<noteq> exit_event str r"
  by (cases r; simp add: exit_event_def)+

lemma session_closed_law:
  assumes "point_step str a i s = (s', push, new)" and "unset_at_failure p_session_closed_posted i s"
  shows "once_pot ((=) EvSessionClosed) p_session_closed_posted s' +
      stack_sum (once_weight ((=) EvSessionClosed)) push + thread_sum (once_weight ((=) EvSessionClosed)) new
    \<le> once_pot ((=) EvSessionClosed) p_session_closed_posted s + once_weight ((=) EvSessionClosed) i"
  using assms once_weight_nonneg [of "(=) EvSessionClosed" i]
  by (elim point_elims)
    (auto simp: unix_defs once_pot_def event_count_def unset_at_failure_def startup_cancelled_def
      split: step_splits)

lemma output_closed_law:
  assumes "point_step str a i s = (s', push, new)" and "unset_at_failure p_output_closed i s"
  shows "once_pot ((=) EvOutputClosed) p_output_closed s' +
      stack_sum (once_weight ((=) EvOutputClosed)) push + thread_sum (once_weight ((=) EvOutputClosed)) new
    \<le> once_pot ((=) EvOutputClosed) p_output_closed s + once_weight ((=) EvOutputClosed) i"
  using assms once_weight_nonneg [of "(=) EvOutputClosed" i]
  by (elim point_elims)
    (auto simp: unix_defs once_pot_def event_count_def unset_at_failure_def startup_cancelled_def
      split: step_splits)

fun is_input_closed :: "pty_event \<Rightarrow> bool" where
  "is_input_closed (EvInputClosed e) = True"
| "is_input_closed _ = False"

fun is_exit :: "pty_event \<Rightarrow> bool" where
  "is_exit (EvProcessExit signaled v) = True"
| "is_exit _ = False"

fun is_startup :: "pty_event \<Rightarrow> bool" where
  "is_startup (EvSpawned pid capabilities) = True"
| "is_startup (EvSpawnFailed e) = True"
| "is_startup _ = False"

lemma exit_event_other [simp]: "\<not> is_input_closed (exit_event str r)" "\<not> is_startup (exit_event str r)"
  by (cases r; simp add: exit_event_def)+

lemma input_closed_law:
  assumes "point_step str a i s = (s', push, new)"
  shows "once_pot is_input_closed p_input_closed s' + stack_sum (once_weight is_input_closed) push +
      thread_sum (once_weight is_input_closed) new
    \<le> once_pot is_input_closed p_input_closed s + once_weight is_input_closed i"
  using assms once_weight_nonneg [of is_input_closed i]
  by (elim point_elims)
    (auto simp: unix_defs once_pot_def event_count_def startup_cancelled_def split: step_splits)

text \<open>The exit report comes from the waiter, the startup outcome from the bootstrap thread.\<close>

primrec exit_weight :: "point \<Rightarrow> int" where
  "exit_weight (PS x) = once_weight is_exit (PS x)"
| "exit_weight (PM x) = 0"
| "exit_weight (PC x) = 0"
| "exit_weight (PI x) = 0"
| "exit_weight (PR x) = 0"
| "exit_weight (PW x) = (if x = WaiterFinish then 0 else 1)"
| "exit_weight (PB x) = (case x of BootRunning \<Rightarrow> 0 | BootLostRace \<Rightarrow> 0 | _ \<Rightarrow> 1)"
| "exit_weight (PA x) = 0"

primrec startup_weight :: "point \<Rightarrow> int" where
  "startup_weight (PS x) = once_weight is_startup (PS x)"
| "startup_weight (PM x) = 0"
| "startup_weight (PC x) = 0"
| "startup_weight (PI x) = 0"
| "startup_weight (PR x) = 0"
| "startup_weight (PW x) = 0"
| "startup_weight (PB x) = 1"
| "startup_weight (PA x) = 0"

lemma once_weights_nonneg: "0 \<le> exit_weight i" "0 \<le> startup_weight i"
  by (cases i; auto split: session_point.splits boot_point.splits)+

lemma read_return_once_weights [simp]:
  "stack_sum exit_weight (read_return r site) = 0" "stack_sum startup_weight (read_return r site) = 0"
  by (cases site; cases r; simp add: reactor_done_def)+

lemma exit_law:
  assumes "point_step str a i s = (s', push, new)"
  shows "event_count is_exit s' + stack_sum exit_weight push + thread_sum exit_weight new
    \<le> event_count is_exit s + exit_weight i"
  using assms once_weights_nonneg(1) [of i]
  by (elim point_elims) (auto simp: unix_defs event_count_def startup_cancelled_def split: step_splits)

lemma startup_law:
  assumes "point_step str a i s = (s', push, new)"
  shows "event_count is_startup s' + stack_sum startup_weight push + thread_sum startup_weight new
    \<le> event_count is_startup s + startup_weight i"
  using assms once_weights_nonneg(2) [of i]
  by (elim point_elims) (auto simp: unix_defs event_count_def startup_cancelled_def split: step_splits)

interpretation once_closed: token_law "point_step str a" "once_weight ((=) EvSessionClosed)"
  "once_pot ((=) EvSessionClosed) p_session_closed_posted" "unset_at_failure p_session_closed_posted" for str a
  by unfold_locales (rule session_closed_law)

interpretation once_output: token_law "point_step str a" "once_weight ((=) EvOutputClosed)"
  "once_pot ((=) EvOutputClosed) p_output_closed" "unset_at_failure p_output_closed" for str a
  by unfold_locales (rule output_closed_law)

interpretation once_input: token_law "point_step str a" "once_weight is_input_closed"
  "once_pot is_input_closed p_input_closed" "\<lambda>_ _. True" for str a
  by unfold_locales (rule input_closed_law)

interpretation once_exit: token_law "point_step str a" exit_weight "event_count is_exit" "\<lambda>_ _. True" for str a
  by unfold_locales (rule exit_law)

interpretation once_startup: token_law "point_step str a" startup_weight "event_count is_startup" "\<lambda>_ _. True"
  for str a
  by unfold_locales (rule startup_law)

text \<open>The reactor closes the output once; the failing startup paths find the flag unset.\<close>

primrec output_weight :: "point \<Rightarrow> int" where
  "output_weight (PS x) = 0"
| "output_weight (PM x) = (case x of MarkOutputClosed \<Rightarrow> 1 | _ \<Rightarrow> 0)"
| "output_weight (PC x) = 0"
| "output_weight (PI x) = 1"
| "output_weight (PR x) = (case x of ReactorFinish \<Rightarrow> 0 | _ \<Rightarrow> 1)"
| "output_weight (PW x) = 0"
| "output_weight (PB x) = reactor_weight (PB x)"
| "output_weight (PA x) = 0"

lemma output_weight_nonneg: "0 \<le> output_weight i"
  by (cases i; auto split: mark_point.splits reactor_point.splits boot_point.splits)

lemma read_return_output [simp]: "stack_sum output_weight (read_return r site) = 1"
  by (cases site; cases r) (simp_all add: reactor_done_def)

lemma output_law:
  assumes "point_step str a i s = (s', push, new)" and "fresh_good i s"
  shows "flag_pot p_output_closed s' + stack_sum output_weight push + thread_sum output_weight new
    \<le> flag_pot p_output_closed s + output_weight i"
  using assms output_weight_nonneg [of i]
  by (elim point_elims)
    (auto simp: unix_defs flag_pot_def fresh_good_def publish_fresh_def platform_fresh_def split: step_splits)

interpretation out_once: token_law "point_step str a" output_weight "flag_pot p_output_closed" fresh_good for str a
  by unfold_locales (rule output_law)

end
