(* ===== verification/Unix_Runs.thy ===== *)
theory Unix_Runs
  imports Unix_System
begin

section \<open>Concrete runs\<close>

text \<open>Moves of threads and of Dart, executed one after the other; a Dart action that is not allowed
  ends the run. The example session and its answers instantiate the theorems about runs.\<close>

datatype move = Thread nat answers | Dart dart_action

fun make_moves :: "strerror \<Rightarrow> bool \<Rightarrow> move list \<Rightarrow> unix_config \<Rightarrow> unix_config option" where
  "make_moves str strict [] cfg = Some cfg"
| "make_moves str strict (Thread t a # ms) cfg = make_moves str strict ms (run_thread (point_step str a) t cfg)"
| "make_moves str strict (Dart act # ms) cfg =
     (if dart_allowed strict act cfg then make_moves str strict ms (dart_act act cfg) else None)"

lemma moves_reach:
  "unix_reach str strict cfg \<Longrightarrow> make_moves str strict ms cfg = Some cfg' \<Longrightarrow> unix_reach str strict cfg'"
proof (induction str strict ms cfg rule: make_moves.induct)
  case (2 str strict t a ms cfg)
  then show ?case by (auto intro: reach_step step_thread)
next
  case (3 str strict act ms cfg)
  then show ?case by (auto intro: reach_step step_dart split: if_splits)
qed simp

definition example_options :: PtySpawnOptions where
  "example_options = \<lparr>so_executable = Some ''/bin/sh'', so_argument_count = 0, so_environment_count = 0,
     so_size = \<lparr>size_rows = 24, size_columns = 80, size_pixel_width = 0, size_pixel_height = 0\<rparr>,
     so_input_buffer_bytes = 16, so_output_window_bytes = 8, so_event_port = 1\<rparr>"

definition example_strerror :: strerror where
  "example_strerror n = ''error''"

text \<open>A system that answers without an error: the program's pid is 100, descriptors 10 to 16.\<close>

definition calm :: answers where
  "calm = \<lparr>an_alloc = True, an_thread = (0, 0, 0), an_read = ReadErrno EAGAIN, an_write = WriteErrno EAGAIN,
     an_errno = 0, an_poll = PollReady \<lparr>rv_in = False, rv_out = False, rv_hup = False\<rparr>, an_tcgetpgrp = 100,
     an_kill = 0, an_ioctl = 0,
     an_spawn = SpawnOk 10 11 \<lparr>proc_process_id = 100, proc_exit_fd = 12, proc_release_fd = 13\<rparr>,
     an_exit = ExitReport False 0, an_mutex_init = 0, an_pipe = Some (14, 15), an_nonblock = (0, 0),
     an_dup = 16\<rparr>"

definition example_start :: unix_config where
  "example_start =
     (case pty_session_start example_strerror True True True None 0 (Some example_options) None stats_zero of
        Started s ths _ \<Rightarrow> (s, ths) | StartFailed _ _ \<Rightarrow> undefined)"

lemma example_size: "pty_size_is_valid (so_size example_options)"
  by (simp add: example_options_def pty_size_is_valid_def)

lemma example_start_eq:
  "pty_session_start example_strerror True True True None 0 (Some example_options) None stats_zero
    = Started (fst example_start) (snd example_start) (pty_error_clear None)"
  using example_size
  by (simp add: example_start_def pty_session_start_def pty_session_init_def Let_def example_options_def)

lemma example_reach: "unix_reach example_strerror strict example_start"
  using example_start_eq by (intro reach_start) (unfold started_def, blast)


end
