(* ===== verification/Unix_Events.thy ===== *)
theory Unix_Events
  imports Unix_Once Unix_Runs
begin

section \<open>What Dart sees of a Unix session\<close>

lemma started_counts:
  "started c \<Longrightarrow> event_count is (fst c) = 0" "started c \<Longrightarrow> once_pot is flag (fst c) = 0"
  by (simp_all add: event_count_def once_pot_def platform_for_def pty_session_platform_load_def started_state)

lemma dart_act_counts:
  "event_count is (fst (dart_act act c)) = event_count is (fst c)"
  "once_pot is flag (fst (dart_act act c)) = once_pot is flag (fst c)"
  by (simp_all add: event_count_def once_pot_def platform_for_def dart_act_session)

lemma dart_points_once:
  "stack_sum (once_weight is) (dart_points act) = 0" "stack_sum exit_weight (dart_points act) = 0"
  "stack_sum startup_weight (dart_points act) = 0" "stack_sum output_weight (dart_points act) = 0"
  by (cases act; simp)+

lemmas token_start = started_counts started_flag_pot started_state dart_points_once dart_act_counts flag_pot_dart

lemma reach_output:
  "unix_reach str strict cfg \<Longrightarrow> flag_pot p_output_closed (fst cfg) + thread_sum output_weight (snd cfg) \<le> 1"
  by (erule reach_one_token [OF _ out_once.token_law_axioms reach_fresh_good]) (simp_all add: token_start)

text \<open>The failing startup paths run while the flags they set are unset.\<close>

lemma reach_unset:
  assumes reach: "unix_reach str strict c" and st: "i # rest \<in> set (snd c)"
  shows "unset_at_failure p_session_closed_posted i (fst c)" and "unset_at_failure p_output_closed i (fst c)"
proof -
  have "\<not> p_session_closed_posted p \<and> \<not> p_output_closed p"
    if fail: "i = PB BootUnstarted \<or> (\<exists>r. i = PB (BootReactorFailed r))" and p: "platform_for (fst c) = Some p" for p
  proof
    have w: "1 \<le> reactor_weight i" "1 \<le> output_weight i" using fail by auto
    have "\<not> p_reactor_done p"
      by (rule flag_excluded [OF reach_reactor [OF reach] st _ w(1) weights_nonneg(1) p]) simp
    then show "\<not> p_session_closed_posted p"
      using reach_closed_guard [OF reach] p by (simp add: closed_guard_def)
    show "\<not> p_output_closed p"
      by (rule flag_excluded [OF reach_output [OF reach] st _ w(2) output_weight_nonneg p]) simp
  qed
  then show "unset_at_failure p_session_closed_posted i (fst c)" and "unset_at_failure p_output_closed i (fst c)"
    by (auto simp: unset_at_failure_def split: point.splits boot_point.splits)
qed

lemma reach_once_closed:
  "unix_reach str strict cfg \<Longrightarrow> once_pot ((=) EvSessionClosed) p_session_closed_posted (fst cfg) +
     thread_sum (once_weight ((=) EvSessionClosed)) (snd cfg) \<le> 1"
  by (erule reach_one_token [OF _ once_closed.token_law_axioms reach_unset(1)]) (simp_all add: token_start)

lemma reach_once_output:
  "unix_reach str strict cfg \<Longrightarrow> once_pot ((=) EvOutputClosed) p_output_closed (fst cfg) +
     thread_sum (once_weight ((=) EvOutputClosed)) (snd cfg) \<le> 1"
  by (erule reach_one_token [OF _ once_output.token_law_axioms reach_unset(2)]) (simp_all add: token_start)

lemma reach_once_input:
  "unix_reach str strict cfg \<Longrightarrow> once_pot is_input_closed p_input_closed (fst cfg) +
     thread_sum (once_weight is_input_closed) (snd cfg) \<le> 1"
  by (erule reach_one_token [OF _ once_input.token_law_axioms]) (simp_all add: token_start)

lemma reach_once_exit:
  "unix_reach str strict cfg \<Longrightarrow> event_count is_exit (fst cfg) + thread_sum exit_weight (snd cfg) \<le> 1"
  by (erule reach_one_token [OF _ once_exit.token_law_axioms]) (simp_all add: token_start)

lemma reach_once_startup:
  "unix_reach str strict cfg \<Longrightarrow> event_count is_startup (fst cfg) + thread_sum startup_weight (snd cfg) \<le> 1"
  by (erule reach_one_token [OF _ once_startup.token_law_axioms]) (simp_all add: token_start)

lemma event_count_once_pot: "event_count k s \<le> once_pot k flag s"
  by (simp add: once_pot_def split: option.splits)

text \<open>C14: the events that end something are posted at most once in every run of a session, whatever
  the schedule, the answers of the system, the failures of startup, and concurrent closes and
  abandonments: one startup outcome (SPAWNED or SPAWN_FAILED), one PROCESS_EXIT, one OUTPUT_CLOSED,
  one INPUT_CLOSED, one SESSION_CLOSED.\<close>

theorem final_events_once:
  assumes "unix_reach str strict cfg"
  shows "event_count is_startup (fst cfg) \<le> 1 \<and> event_count is_exit (fst cfg) \<le> 1 \<and>
    event_count ((=) EvOutputClosed) (fst cfg) \<le> 1 \<and> event_count is_input_closed (fst cfg) \<le> 1 \<and>
    event_count ((=) EvSessionClosed) (fst cfg) \<le> 1"
proof -
  have nonneg: "0 \<le> thread_sum (once_weight k) ths" "0 \<le> thread_sum exit_weight ths"
    "0 \<le> thread_sum startup_weight ths" for k ths
    by (simp_all add: thread_sum_nonneg once_weight_nonneg once_weights_nonneg)
  show ?thesis
    using reach_once_startup [OF assms] reach_once_exit [OF assms] reach_once_output [OF assms]
      reach_once_input [OF assms] reach_once_closed [OF assms] nonneg
      event_count_once_pot [of "(=) EvOutputClosed" "fst cfg" p_output_closed]
      event_count_once_pot [of is_input_closed "fst cfg" p_input_closed]
      event_count_once_pot [of "(=) EvSessionClosed" "fst cfg" p_session_closed_posted]
    by (smt (verit))
qed

text \<open>A calm session that Dart closes before its program ran: Dart begins the close, the program is
  started and found cancelled, and the session reports its end.\<close>

definition cancelled_run :: "move list" where
  "cancelled_run = Dart DartBeginClose # replicate 4 (Thread 0 calm) @ replicate 40 (Thread 1 calm)"

theorem final_events_once_witness:
  "\<exists>cfg. make_moves example_strerror True cancelled_run example_start = Some cfg \<and>
     event_count is_startup (fst cfg) = 1 \<and> event_count is_exit (fst cfg) \<le> 1 \<and>
     event_count ((=) EvSessionClosed) (fst cfg) \<le> 1"
proof -
  have "make_moves example_strerror True cancelled_run example_start \<noteq> None"
    and startup: "map_option (\<lambda>cfg. event_count is_startup (fst cfg))
      (make_moves example_strerror True cancelled_run example_start) = Some 1"
    by code_simp+
  then obtain cfg where run: "make_moves example_strerror True cancelled_run example_start = Some cfg"
    by blast
  from moves_reach [OF example_reach run] have "unix_reach example_strerror True cfg" .
  from final_events_once [OF this] startup run show ?thesis by simp
qed

end
