(* ===== verification/C_Memory.thy ===== *)
theory C_Memory
  imports Pty_Prelude "HOL-Library.Monad_Syntax"
begin

section \<open>Allocated blocks\<close>

text \<open>
  The heap of the code that builds strings and vectors: numbered blocks of cells, a cell that was
  never written is \<open>None\<close>. A result \<open>None\<close> of an operation is undefined behaviour: a write outside a
  block, a write to or a \<open>free\<close> of a block that is not allocated. Whether an allocation succeeds is
  an argument, a function of the number of allocations made before it.
\<close>

record 'c heap =
  h_next :: nat
  h_block :: "nat \<Rightarrow> 'c option list option"

type_synonym allocator = "nat \<Rightarrow> bool"

definition malloc_cells :: "allocator \<Rightarrow> 'c option list \<Rightarrow> 'c heap \<Rightarrow> nat option \<times> 'c heap" where
  "malloc_cells ok cells h =
     (if ok (h_next h)
      then (Some (h_next h), h\<lparr>h_next := Suc (h_next h), h_block := (h_block h)(h_next h \<mapsto> cells)\<rparr>)
      else (None, h\<lparr>h_next := Suc (h_next h)\<rparr>))"

definition free_block :: "nat \<Rightarrow> 'c heap \<Rightarrow> 'c heap option" where
  "free_block b h =
     (case h_block h b of None \<Rightarrow> None | Some _ \<Rightarrow> Some (h\<lparr>h_block := (h_block h)(b := None)\<rparr>))"

definition store :: "nat \<Rightarrow> nat \<Rightarrow> 'c \<Rightarrow> 'c heap \<Rightarrow> 'c heap option" where
  "store b i c h =
     (case h_block h b of
        None \<Rightarrow> None
      | Some cells \<Rightarrow>
          if i < length cells then Some (h\<lparr>h_block := (h_block h)(b \<mapsto> cells[i := Some c])\<rparr>) else None)"

text \<open>\<open>buffer[offset++] = c\<close>, and a run of such writes.\<close>

definition put :: "nat \<Rightarrow> 'c \<Rightarrow> 'c heap \<times> nat \<Rightarrow> ('c heap \<times> nat) option" where
  "put b c = (\<lambda>(h, offset). map_option (\<lambda>h'. (h', Suc offset)) (store b offset c h))"

primrec put_list :: "nat \<Rightarrow> 'c list \<Rightarrow> 'c heap \<times> nat \<Rightarrow> ('c heap \<times> nat) option" where
  "put_list b [] st = Some st"
| "put_list b (c # cs) st = do { st' \<leftarrow> put b c st; put_list b cs st' }"

definition heap_ok :: "'c heap \<Rightarrow> bool" where
  "heap_ok h \<longleftrightarrow> (\<forall>b. h_next h \<le> b \<longrightarrow> h_block h b = None)"

text \<open>A block that holds a string from its start.\<close>

definition holds_from :: "'c heap \<Rightarrow> nat \<Rightarrow> 'c list \<Rightarrow> nat \<Rightarrow> bool" where
  "holds_from h b str room \<longleftrightarrow>
     (\<exists>cells. h_block h b = Some (map Some str @ cells) \<and> length cells = room)"

lemma put_list_append:
  "put_list b (xs @ ys) st = do { st' \<leftarrow> put_list b xs st; put_list b ys st' }"
  by (induction xs arbitrary: st) (simp_all add: Option.bind_assoc)

lemma put_list_fills:
  assumes "h_block h b = Some (map Some str @ cells)" and "length xs \<le> length cells"
  shows "put_list b xs (h, length str) =
    Some (h\<lparr>h_block := (h_block h)(b \<mapsto> map Some (str @ xs) @ drop (length xs) cells)\<rparr>, length str + length xs)"
  using assms
proof (induction xs arbitrary: h str cells)
  case Nil
  then show ?case by (simp add: fun_upd_idem)
next
  case (Cons x xs)
  then obtain c cells' where cells: "cells = c # cells'" by (cases cells) auto
  let ?h = "h\<lparr>h_block := (h_block h)(b \<mapsto> map Some (str @ [x]) @ cells')\<rparr>"
  have "put b x (h, length str) = Some (?h, Suc (length str))"
    using Cons.prems cells by (simp add: put_def store_def list_update_append)
  moreover have "put_list b xs (?h, length (str @ [x])) =
    Some (?h\<lparr>h_block := (h_block ?h)(b \<mapsto> map Some ((str @ [x]) @ xs) @ drop (length xs) cells')\<rparr>,
      length (str @ [x]) + length xs)"
    by (rule Cons.IH) (use Cons.prems cells in simp_all)
  ultimately show ?case by (auto simp: cells intro!: heap.equality ext)
qed

text \<open>The same fact over \<open>holds_from\<close>, with the blocks that are left alone.\<close>

lemma put_list_holds:
  assumes "holds_from h b str room" and "length xs \<le> room"
  obtains h' where "put_list b xs (h, length str) = Some (h', length str + length xs)"
    and "holds_from h' b (str @ xs) (room - length xs)" and "h_next h' = h_next h"
    and "\<And>b'. b' \<noteq> b \<Longrightarrow> h_block h' b' = h_block h b'"
proof -
  from assms obtain cells where cells: "h_block h b = Some (map Some str @ cells)" "length cells = room"
    by (auto simp: holds_from_def)
  show ?thesis
    by (rule that [OF put_list_fills [OF cells(1)]]) (use assms cells in \<open>auto simp: holds_from_def\<close>)
qed

lemma malloc_cells_cases:
  assumes "heap_ok h"
  obtains (fail) "malloc_cells ok cells h = (None, h\<lparr>h_next := Suc (h_next h)\<rparr>)" "\<not> ok (h_next h)"
      "heap_ok (h\<lparr>h_next := Suc (h_next h)\<rparr>)"
  | (block) h' where "malloc_cells ok cells h = (Some (h_next h), h')" "ok (h_next h)"
      "h_next h' = Suc (h_next h)" "h_block h' = (h_block h)(h_next h \<mapsto> cells)" "heap_ok h'"
      "h_block h (h_next h) = None"
proof (cases "ok (h_next h)")
  case True
  show ?thesis
    by (rule block [of "snd (malloc_cells ok cells h)"]) (use True assms in \<open>simp_all add: malloc_cells_def heap_ok_def\<close>)
next
  case False
  show ?thesis by (rule fail) (use False assms in \<open>simp_all add: malloc_cells_def heap_ok_def\<close>)
qed

subsection \<open>Reading, and pointers that may be NULL\<close>

definition load :: "nat \<Rightarrow> nat \<Rightarrow> 'c heap \<Rightarrow> 'c option" where
  "load b i h =
     (case h_block h b of
        None \<Rightarrow> None
      | Some cells \<Rightarrow> if i < length cells then cells ! i else None)"

definition free_pointer :: "nat option \<Rightarrow> 'c heap \<Rightarrow> 'c heap option" where
  "free_pointer p h = (case p of None \<Rightarrow> Some h | Some b \<Rightarrow> free_block b h)"

text \<open>The heap \<open>h'\<close> is \<open>h\<close> with the new blocks \<open>B\<close>.\<close>

definition grown :: "nat set \<Rightarrow> 'c heap \<Rightarrow> 'c heap \<Rightarrow> bool" where
  "grown B h h' \<longleftrightarrow> heap_ok h \<and> heap_ok h' \<and> h_next h \<le> h_next h' \<and>
     (\<forall>b \<in> B. h_next h \<le> b \<and> h_block h' b \<noteq> None) \<and> (\<forall>b. b \<notin> B \<longrightarrow> h_block h' b = h_block h b)"

lemma grown_refl: "heap_ok h \<Longrightarrow> grown {} h h"
  by (simp add: grown_def)

lemma grown_empty: "grown {} h h' \<Longrightarrow> h_block h' = h_block h"
  by (auto simp: grown_def)

lemma grown_heap_ok: "grown B h h' \<Longrightarrow> heap_ok h'"
  by (simp add: grown_def)

lemma grown_old: "grown B h h' \<Longrightarrow> b \<notin> B \<Longrightarrow> h_block h' b = h_block h b"
  by (simp add: grown_def)

lemma grown_fresh: "grown B h h' \<Longrightarrow> b \<in> B \<Longrightarrow> h_block h b = None"
  by (simp add: grown_def heap_ok_def)

lemma grown_trans: "grown B h h' \<Longrightarrow> grown C h' h'' \<Longrightarrow> grown (B \<union> C) h h''"
  unfolding grown_def by (auto simp: heap_ok_def)

lemma grown_store:
  assumes "grown B h h'" and "store b i c h' = Some h''" and "b \<in> B"
  shows "grown B h h''"
  using assms
  by (auto simp: grown_def store_def heap_ok_def split: option.splits if_splits)

lemma grown_free:
  assumes "grown B h h'" and "b \<in> B"
  obtains h'' where "free_block b h' = Some h''" and "grown (B - {b}) h h''"
    and "\<And>b'. b' \<noteq> b \<Longrightarrow> h_block h'' b' = h_block h' b'" and "h_block h'' b = None"
  using assms by (auto simp: grown_def free_block_def heap_ok_def)

lemma grown_free_last:
  assumes "grown {b} h h'"
  shows "\<exists>h''. free_block b h' = Some h'' \<and> h_block h'' = h_block h"
  using grown_free [OF assms, of b] grown_empty by (metis Diff_cancel insertI1)

lemma grown_malloc:
  assumes "grown B h h'"
  obtains (fail) h'' where "malloc_cells ok cells h' = (None, h'')" "\<not> ok (h_next h')" "grown B h h''"
      "h_block h'' = h_block h'"
  | (block) h'' where "malloc_cells ok cells h' = (Some (h_next h'), h'')" "grown (insert (h_next h') B) h h''"
      "h_next h' \<notin> B" "h_block h'' = (h_block h')(h_next h' \<mapsto> cells)"
proof (cases "ok (h_next h')")
  case True
  have new: "h_next h' \<notin> B" using assms by (auto simp: grown_def heap_ok_def)
  show ?thesis
    by (rule block [of "snd (malloc_cells ok cells h')"])
      (use True new assms in \<open>auto simp: malloc_cells_def grown_def heap_ok_def\<close>)
next
  case False
  show ?thesis
    by (rule fail [of "snd (malloc_cells ok cells h')"])
      (use False assms in \<open>auto simp: malloc_cells_def grown_def heap_ok_def\<close>)
qed

subsection \<open>Sizes\<close>

text \<open>A size is a \<open>size_t\<close>, 64 bits wide.\<close>

definition strlen :: "u8 list \<Rightarrow> u64" where
  "strlen s = of_nat (length s)"

definition SIZE_MAX :: u64 where
  "SIZE_MAX = - 1"

lemma SIZE_MAX_unat: "unat SIZE_MAX = 2 ^ 64 - 1"
  by (simp add: SIZE_MAX_def unsigned_minus_1_eq_mask mask_eq_exp_minus_1)

end
