(* ===== verification/Win_CommandLine.thy ===== *)
theory Win_CommandLine
  imports C_Memory
begin

section \<open>The Windows command line (windows/pty_windows_commandline.c)\<close>

text \<open>
  Strings are the bytes, or the UTF-16 units, before their terminator; NULL is \<open>None\<close>. The
  conversion \<open>MultiByteToWideChar\<close> is a parameter: the size it reports (0 is a failure) and what it
  writes, terminator included. The result \<open>None\<close> of an operation is undefined behaviour, a result
  \<open>Some (None, _)\<close> the NULL the C function returns.
\<close>

type_synonym wheap = "u16 heap"
type_synonym bytes = "u8 list"

record wide_api =
  wa_size :: "bytes \<Rightarrow> nat"
  wa_convert :: "bytes \<Rightarrow> nat \<Rightarrow> u16 list option"

definition utf8_to_wide :: "wide_api \<Rightarrow> allocator \<Rightarrow> bytes option \<Rightarrow> wheap \<Rightarrow> (nat option \<times> wheap) option" where
  "utf8_to_wide api ok val h =
     (case val of
        None \<Rightarrow> Some (None, h)
      | Some s \<Rightarrow>
          let len = wa_size api s in
          if len = 0 then Some (None, h)
          else (case malloc_cells ok (replicate len None) h of
                  (None, h1) \<Rightarrow> Some (None, h1)
                | (Some b, h1) \<Rightarrow>
                    (case wa_convert api s len of
                       None \<Rightarrow> do { h2 \<leftarrow> free_block b h1; Some (None, h2) }
                     | Some converted \<Rightarrow> do { (h2, _) \<leftarrow> put_list b converted (h1, 0); Some (Some b, h2) })))"

text \<open>The terminated string at the start of a block.\<close>

definition wcs :: "wheap \<Rightarrow> nat \<Rightarrow> u16 list option" where
  "wcs h b =
     (case h_block h b of
        None \<Rightarrow> None
      | Some cells \<Rightarrow>
          let prefix = takeWhile (\<lambda>c. c \<noteq> Some 0) cells in
          if Some 0 \<in> set cells \<and> None \<notin> set prefix then Some (map the prefix) else None)"

abbreviation (input) BACKSLASH :: u16 where "BACKSLASH \<equiv> 92"
abbreviation (input) QUOTE :: u16 where "QUOTE \<equiv> 34"
abbreviation (input) SPACE :: u16 where "SPACE \<equiv> 32"

primrec put_times :: "nat \<Rightarrow> nat \<Rightarrow> u16 \<Rightarrow> wheap \<times> nat \<Rightarrow> (wheap \<times> nat) option" where
  "put_times b 0 c st = Some st"
| "put_times b (Suc n) c st = do { st' \<leftarrow> put b c st; put_times b n c st' }"

text \<open>The loop over the argument, with its count of backslashes not yet written.\<close>

fun append_loop :: "nat \<Rightarrow> nat \<Rightarrow> u16 list \<Rightarrow> wheap \<times> nat \<Rightarrow> (wheap \<times> nat) option" where
  "append_loop b backslashes [] st = put_times b (backslashes * 2) BACKSLASH st"
| "append_loop b backslashes (c # cs) st =
     (if c = BACKSLASH then append_loop b (backslashes + 1) cs st
      else if c = QUOTE then do {
        st1 \<leftarrow> put_times b (backslashes * 2 + 1) BACKSLASH st;
        st2 \<leftarrow> put b QUOTE st1;
        append_loop b 0 cs st2 }
      else do {
        st1 \<leftarrow> put_times b backslashes BACKSLASH st;
        st2 \<leftarrow> put b c st1;
        append_loop b 0 cs st2 })"

definition append_quoted_argument :: "nat \<Rightarrow> u16 list \<Rightarrow> wheap \<times> nat \<Rightarrow> (wheap \<times> nat) option" where
  "append_quoted_argument b argument st = do {
     st1 \<leftarrow> put b QUOTE st;
     st2 \<leftarrow> append_loop b 0 argument st1;
     put b QUOTE st2 }"

text \<open>Converting, appending and freeing one string; the result is the new offset, or NULL when the
  conversion failed.\<close>

definition append_converted ::
  "wide_api \<Rightarrow> allocator \<Rightarrow> nat \<Rightarrow> u16 list \<Rightarrow> bytes option \<Rightarrow> nat \<Rightarrow> wheap \<Rightarrow> (nat option \<times> wheap) option" where
  "append_converted api ok b separator val offset h = do {
     (converted, h1) \<leftarrow> utf8_to_wide api ok val h;
     (case converted of
        None \<Rightarrow> Some (None, h1)
      | Some c \<Rightarrow> do {
          (h2, o2) \<leftarrow> put_list b separator (h1, offset);
          argument \<leftarrow> wcs h2 c;
          (h3, o3) \<leftarrow> append_quoted_argument b argument (h2, o2);
          h4 \<leftarrow> free_block c h3;
          Some (Some o3, h4) }) }"

primrec append_arguments ::
  "wide_api \<Rightarrow> allocator \<Rightarrow> nat \<Rightarrow> bytes option list \<Rightarrow> nat \<Rightarrow> wheap \<Rightarrow> (nat option \<times> wheap) option" where
  "append_arguments api ok b [] offset h = Some (Some offset, h)"
| "append_arguments api ok b (val # vals) offset h = do {
     (next, h1) \<leftarrow> append_converted api ok b [SPACE] val offset h;
     (case next of
        None \<Rightarrow> Some (None, h1)
      | Some o1 \<Rightarrow> append_arguments api ok b vals o1 h1) }"

text \<open>The capacity, in \<open>size_t\<close> with the overflow checks; \<open>None\<close> is the early return.\<close>

primrec arguments_capacity :: "bytes option list \<Rightarrow> u64 \<Rightarrow> u64 option" where
  "arguments_capacity [] capacity = Some capacity"
| "arguments_capacity (val # vals) capacity =
     (case val of
        None \<Rightarrow> None
      | Some s \<Rightarrow>
          if strlen s > (SIZE_MAX - capacity - 4) div 2 then None
          else arguments_capacity vals (capacity + (strlen s * 2 + 4)))"

definition command_capacity :: "bytes \<Rightarrow> bytes option list \<Rightarrow> u64 option" where
  "command_capacity executable arguments =
     (if strlen executable > (SIZE_MAX - 1 - 3) div 2 then None
      else arguments_capacity arguments (1 + (strlen executable * 2 + 3)))"

text \<open>The caller's vector holds at least \<open>argument_count\<close> entries; a shorter one is undefined
  behaviour.\<close>

definition vector_entries :: "'a list option \<Rightarrow> int \<Rightarrow> 'a list option" where
  "vector_entries vector count =
     (if nat count \<le> length (case vector of None \<Rightarrow> [] | Some v \<Rightarrow> v)
      then Some (take (nat count) (case vector of None \<Rightarrow> [] | Some v \<Rightarrow> v)) else None)"

definition pty_windows_build_command_line ::
  "wide_api \<Rightarrow> allocator \<Rightarrow> bytes option \<Rightarrow> bytes option list option \<Rightarrow> int \<Rightarrow> wheap \<Rightarrow> (nat option \<times> wheap) option" where
  "pty_windows_build_command_line api ok executable arguments argument_count h =
     (if executable = None \<or> argument_count < 0 \<or> (argument_count \<noteq> 0 \<and> arguments = None)
      then Some (None, h)
      else do {
        args \<leftarrow> vector_entries arguments argument_count;
        (case command_capacity (the executable) args of
           None \<Rightarrow> Some (None, h)
         | Some capacity \<Rightarrow>
             (case malloc_cells ok (replicate (unat (capacity * 2) div 2) None) h of
                (None, h1) \<Rightarrow> Some (None, h1)
              | (Some b, h1) \<Rightarrow> do {
                  (first, h2) \<leftarrow> append_converted api ok b [] executable 0 h1;
                  (case first of
                     None \<Rightarrow> do { h3 \<leftarrow> free_block b h2; Some (None, h3) }
                   | Some o2 \<Rightarrow> do {
                       (last, h3) \<leftarrow> append_arguments api ok b args o2 h2;
                       (case last of
                          None \<Rightarrow> do { h4 \<leftarrow> free_block b h3; Some (None, h4) }
                        | Some o3 \<Rightarrow> do { (h4, _) \<leftarrow> put b 0 (h3, o3); Some (Some b, h4) }) }) })) })"

subsection \<open>What the loop writes\<close>

text \<open>The quoted form of an argument, by its definition: a run of backslashes is doubled before a
  quote, which gets one more, and at the end; elsewhere it is kept.\<close>

fun quoted_body :: "nat \<Rightarrow> u16 list \<Rightarrow> u16 list" where
  "quoted_body n [] = replicate (2 * n) BACKSLASH"
| "quoted_body n (c # cs) =
     (if c = BACKSLASH then quoted_body (Suc n) cs
      else if c = QUOTE then replicate (2 * n + 1) BACKSLASH @ QUOTE # quoted_body 0 cs
      else replicate n BACKSLASH @ c # quoted_body 0 cs)"

definition quoted :: "u16 list \<Rightarrow> u16 list" where
  "quoted w = QUOTE # quoted_body 0 w @ [QUOTE]"

lemma put_times_list: "put_times b n c st = put_list b (replicate n c) st"
  by (induction n arbitrary: st) simp_all

lemma append_loop_list: "append_loop b n w st = put_list b (quoted_body n w) st"
  by (induction b n w st rule: append_loop.induct)
    (auto simp: put_times_list put_list_append mult.commute simp del: replicate.simps
      intro!: Option.bind_cong)

lemma append_quoted_argument_list: "append_quoted_argument b w st = put_list b (quoted w) st"
  by (auto simp: append_quoted_argument_def append_loop_list quoted_def put_list_append intro!: Option.bind_cong)

lemma length_quoted_body: "length (quoted_body n w) \<le> 2 * (n + length w)"
  by (induction n w rule: quoted_body.induct) auto

lemma length_quoted: "length (quoted w) \<le> 2 * length w + 2"
  using length_quoted_body [of 0 w] by (simp add: quoted_def)

subsection \<open>Memory\<close>

text \<open>What \<open>MultiByteToWideChar\<close> documents: it writes at most as many units as it was given room
  for, the text ends in the only terminator, and no byte becomes more than one unit.\<close>

definition wide_api_ok :: "wide_api \<Rightarrow> bool" where
  "wide_api_ok api \<longleftrightarrow> (\<forall>s n t. wa_convert api s n = Some t \<longrightarrow>
     length t \<le> n \<and> (\<exists>w. t = w @ [0] \<and> 0 \<notin> set w \<and> length w \<le> length s))"

definition converts :: "wide_api \<Rightarrow> bytes \<Rightarrow> u16 list \<Rightarrow> bool" where
  "converts api s w \<longleftrightarrow> wa_size api s \<noteq> 0 \<and> wa_convert api s (wa_size api s) = Some (w @ [0])"

definition same_blocks :: "nat set \<Rightarrow> wheap \<Rightarrow> wheap \<Rightarrow> bool" where
  "same_blocks B h h' \<longleftrightarrow> heap_ok h' \<and> (\<forall>b. b \<notin> B \<longrightarrow> h_block h' b = h_block h b)"

lemma same_blocks_trans [trans]: "same_blocks B h h' \<Longrightarrow> same_blocks B h' h'' \<Longrightarrow> same_blocks B h h''"
  by (simp add: same_blocks_def)

lemma same_blocks_mono: "same_blocks B h h' \<Longrightarrow> B \<subseteq> C \<Longrightarrow> same_blocks C h h'"
  by (auto simp: same_blocks_def)

lemma holds_from_fresh: "h_block h b = Some (replicate n None) \<Longrightarrow> holds_from h b [] n"
  by (simp add: holds_from_def)

lemma holds_from_same: "same_blocks B h h' \<Longrightarrow> b \<notin> B \<Longrightarrow> holds_from h b str room \<Longrightarrow> holds_from h' b str room"
  by (simp add: holds_from_def same_blocks_def)

lemma holds_wcs:
  assumes "holds_from h b (w @ [0]) room" and "0 \<notin> set w"
  shows "wcs h b = Some w"
proof -
  from assms(1) obtain cells where "h_block h b = Some (map Some w @ Some 0 # cells)"
    by (auto simp: holds_from_def)
  moreover have "takeWhile (\<lambda>c. c \<noteq> Some 0) (map Some w @ Some 0 # cells) = map Some w"
    using assms(2) by (intro takeWhile_append_stop) auto
  ultimately show ?thesis by (auto simp: wcs_def comp_def)
qed

lemma put_list_same:
  assumes "holds_from h b str room" and "length xs \<le> room" and "heap_ok h"
  obtains h' where "put_list b xs (h, length str) = Some (h', length str + length xs)"
    and "holds_from h' b (str @ xs) (room - length xs)" and "same_blocks {b} h h'"
proof -
  obtain h' where h': "put_list b xs (h, length str) = Some (h', length str + length xs)"
      "holds_from h' b (str @ xs) (room - length xs)" "h_next h' = h_next h"
      "\<And>b'. b' \<noteq> b \<Longrightarrow> h_block h' b' = h_block h b'"
    using put_list_holds [OF assms(1,2)] by blast
  have "b < h_next h"
    using assms(1,3) by (auto simp: holds_from_def heap_ok_def not_le [symmetric])
  then have "heap_ok h'" using assms(3) h'(3,4) by (auto simp: heap_ok_def)
  with h' show ?thesis by (intro that) (auto simp: same_blocks_def)
qed

lemma free_block_same:
  assumes "holds_from h b str room" and "heap_ok h"
  obtains h' where "free_block b h = Some h'" and "h_block h' b = None" and "same_blocks {b} h h'"
  using assms by (auto simp: free_block_def holds_from_def same_blocks_def heap_ok_def)

lemma utf8_to_wide_cases:
  assumes api: "wide_api_ok api" and h: "heap_ok h"
  obtains (null) h' where "utf8_to_wide api ok (Some s) h = Some (None, h')" "same_blocks {} h h'"
      "\<And>w. (\<forall>n. ok n) \<Longrightarrow> \<not> converts api s w"
  | (converted) c w h' where "utf8_to_wide api ok (Some s) h = Some (Some c, h')" "h_block h c = None"
      "same_blocks {c} h h'" "\<exists>room. holds_from h' c (w @ [0]) room"
      "0 \<notin> set w" "length w \<le> length s" "converts api s w"
proof -
  let ?len = "wa_size api s"
  consider (zero) "?len = 0" | (size) "?len \<noteq> 0" by blast
  then show ?thesis
  proof cases
    case zero
    show ?thesis
      by (rule null [of h]) (use zero h in \<open>simp_all add: utf8_to_wide_def same_blocks_def converts_def\<close>)
  next
    case size
    from h show ?thesis
    proof (cases rule: malloc_cells_cases [of h ok "replicate ?len None"])
      case fail
      show ?thesis
        by (rule null) (use fail size in \<open>auto simp: utf8_to_wide_def same_blocks_def Let_def\<close>)
    next
      case (block h1)
      have room: "holds_from h1 (h_next h) [] ?len" using block by (intro holds_from_fresh) simp
      have same1: "same_blocks {h_next h} h h1" using block by (simp add: same_blocks_def)
      show ?thesis
      proof (cases "wa_convert api s ?len")
        case None
        obtain h2 where h2: "free_block (h_next h) h1 = Some h2" "h_block h2 (h_next h) = None"
            "same_blocks {h_next h} h1 h2"
          using free_block_same [OF room \<open>heap_ok h1\<close>] by blast
        have "same_blocks {} h h2"
          using same_blocks_trans [OF same1 h2(3)] h2(2) block
          by (simp add: same_blocks_def) metis
        then show ?thesis
          by (intro null [of h2]) (use None size block h2 in \<open>auto simp: utf8_to_wide_def converts_def Let_def\<close>)
      next
        case (Some t)
        with api obtain w where w: "t = w @ [0]" "0 \<notin> set w" "length w \<le> length s" "length t \<le> ?len"
          unfolding wide_api_ok_def by blast
        obtain h2 where h2: "put_list (h_next h) t (h1, 0) = Some (h2, length t)"
            "holds_from h2 (h_next h) (w @ [0]) (?len - length t)" "same_blocks {h_next h} h1 h2"
          using put_list_same [OF room w(4) \<open>heap_ok h1\<close>] w(1) by auto
        show ?thesis
          by (rule converted [of "h_next h" h2 w])
            (use same_blocks_trans [OF same1 h2(3)] Some size block h2 w in
              \<open>auto simp: utf8_to_wide_def converts_def Let_def\<close>)
      qed
    qed
  qed
qed

text \<open>One string: the conversion is a block of its own, freed before the function goes on.\<close>

lemma append_converted_cases:
  assumes api: "wide_api_ok api" and h: "heap_ok h" and buffer: "holds_from h b str room"
    and room: "length sep + 2 * length s + 2 \<le> room"
  obtains (null) h' where "append_converted api ok b sep (Some s) (length str) h = Some (None, h')"
      "same_blocks {} h h'" "\<And>w. (\<forall>n. ok n) \<Longrightarrow> \<not> converts api s w"
  | (appended) w h' where
      "append_converted api ok b sep (Some s) (length str) h = Some (Some (length (str @ sep @ quoted w)), h')"
      "holds_from h' b (str @ sep @ quoted w) (room - length (sep @ quoted w))" "same_blocks {b} h h'"
      "converts api s w" "length (quoted w) \<le> 2 * length s + 2"
  using api h
proof (cases rule: utf8_to_wide_cases [of api h ok s])
  case (null h')
  show ?thesis by (rule that(1) [of h']) (use null in \<open>simp_all add: append_converted_def\<close>)
next
  case (converted c w h1)
  have cb: "c \<noteq> b" using converted(2) buffer by (auto simp: holds_from_def)
  have w: "length (quoted w) \<le> 2 * length s + 2" using length_quoted [of w] converted(6) by linarith
  have buffer1: "holds_from h1 b str room" using holds_from_same [OF converted(3) _ buffer] cb by simp
  have ok1: "heap_ok h1" using converted(3) by (simp add: same_blocks_def)
  obtain h2 where h2: "put_list b sep (h1, length str) = Some (h2, length str + length sep)"
      "holds_from h2 b (str @ sep) (room - length sep)" "same_blocks {b} h1 h2"
    using put_list_same [OF buffer1, of sep] room ok1 by auto
  obtain r where "holds_from h2 c (w @ [0]) r"
    using converted(4) holds_from_same [OF h2(3)] cb by blast
  then have arg: "wcs h2 c = Some w" by (rule holds_wcs) (rule converted(5))
  have fits: "length (quoted w) \<le> room - length sep" using room w by linarith
  have ok2: "heap_ok h2" using h2(3) by (simp add: same_blocks_def)
  obtain h3 where h3: "put_list b (quoted w) (h2, length (str @ sep)) =
        Some (h3, length (str @ sep) + length (quoted w))"
      "holds_from h3 b ((str @ sep) @ quoted w) (room - length sep - length (quoted w))" "same_blocks {b} h2 h3"
    using put_list_same [OF h2(2) fits ok2] by blast
  obtain r where "holds_from h3 c (w @ [0]) r"
    using \<open>holds_from h2 c (w @ [0]) r\<close> holds_from_same [OF h3(3)] cb by blast
  then obtain h4 where h4: "free_block c h3 = Some h4" "h_block h4 c = None" "same_blocks {c} h3 h4"
    using free_block_same h3(3) by (metis same_blocks_def)
  show ?thesis
  proof (rule appended [of w h4])
    show "append_converted api ok b sep (Some s) (length str) h = Some (Some (length (str @ sep @ quoted w)), h4)"
      using converted(1) h2(1) arg h3(1) h4(1)
      by (simp add: append_converted_def append_quoted_argument_list add.assoc)
    show "holds_from h4 b (str @ sep @ quoted w) (room - length (sep @ quoted w))"
      using holds_from_same [OF h4(3) _ h3(2)] cb by simp
    show "same_blocks {b} h h4"
      using converted(2,3) h2(3) h3(3) h4(2,3) unfolding same_blocks_def by (metis insert_iff empty_iff)
  qed (use converted w in auto)
qed

definition command_text :: "u16 list \<Rightarrow> u16 list list \<Rightarrow> u16 list" where
  "command_text w ws = quoted w @ concat (map (\<lambda>v. SPACE # quoted v) ws)"

definition arguments_room :: "bytes option list \<Rightarrow> nat" where
  "arguments_room vals = (\<Sum>v\<leftarrow>vals. case v of None \<Rightarrow> 0 | Some s \<Rightarrow> 2 * length s + 4)"

definition all_convert :: "wide_api \<Rightarrow> bytes option list \<Rightarrow> u16 list list \<Rightarrow> bool" where
  "all_convert api vals ws \<longleftrightarrow> list_all2 (\<lambda>v w. \<exists>s. v = Some s \<and> converts api s w) vals ws"

lemma append_arguments_cases:
  assumes api: "wide_api_ok api" and h: "heap_ok h" and buffer: "holds_from h b str room"
    and room: "arguments_room vals \<le> room" and vals: "None \<notin> set vals"
  obtains (null) h' where "append_arguments api ok b vals (length str) h = Some (None, h')"
      "same_blocks {b} h h'" "\<exists>str' room'. holds_from h' b str' room'"
      "\<And>ws. (\<forall>n. ok n) \<Longrightarrow> \<not> all_convert api vals ws"
  | (appended) ws h' where "append_arguments api ok b vals (length str) h =
        Some (Some (length (str @ concat (map (\<lambda>v. SPACE # quoted v) ws))), h')"
      "\<exists>room'. holds_from h' b (str @ concat (map (\<lambda>v. SPACE # quoted v) ws)) room' \<and>
         room - arguments_room vals \<le> room'" "same_blocks {b} h h'" "all_convert api vals ws"
  using h buffer room vals
proof (induction vals arbitrary: h str room thesis)
  case Nil
  show ?case
    by (rule Nil.prems(2) [of "[]" h])
      (use Nil.prems in \<open>auto simp: all_convert_def same_blocks_def arguments_room_def\<close>)
next
  case (Cons v vals)
  from Cons.prems(6) obtain s where v: "v = Some s" by (cases v) auto
  have fits: "length [SPACE] + 2 * length s + 2 \<le> room"
    using Cons.prems(5) v by (simp add: arguments_room_def)
  from api Cons.prems(3,4) fits show ?case
  proof (cases rule: append_converted_cases [where ok = ok])
    case (null h1)
    show ?thesis
    proof (rule Cons.prems(1) [of h1])
      show "\<not> all_convert api (v # vals) ws" if "\<forall>n. ok n" for ws
        using null(3) [OF that] by (cases ws) (auto simp: all_convert_def v)
    qed (use null v Cons.prems(4) in \<open>auto simp: same_blocks_def holds_from_def\<close>)
  next
    case (appended w h1)
    let ?str = "str @ [SPACE] @ quoted w"
    have room1: "arguments_room vals \<le> room - length ([SPACE] @ quoted w)"
      using Cons.prems(5) appended(5) v by (simp add: arguments_room_def)
    have h1: "heap_ok h1" using appended(3) by (simp add: same_blocks_def)
    show ?thesis
    proof (rule Cons.IH [where h = h1 and str = ?str and room = "room - length ([SPACE] @ quoted w)"])
      fix h'
      assume step: "append_arguments api ok b vals (length ?str) h1 = Some (None, h')"
        and same: "same_blocks {b} h1 h'" and held: "\<exists>str' room'. holds_from h' b str' room'"
        and no: "\<And>ws. (\<forall>n. ok n) \<Longrightarrow> \<not> all_convert api vals ws"
      show thesis
      proof (rule Cons.prems(1) [of h'])
        show "\<not> all_convert api (v # vals) ws" if "\<forall>n. ok n" for ws
          using no [OF that] by (cases ws) (auto simp: all_convert_def)
      qed (use step same held appended v in \<open>auto intro: same_blocks_trans\<close>)
    next
      fix ws h'
      assume step: "append_arguments api ok b vals (length ?str) h1 =
          Some (Some (length (?str @ concat (map (\<lambda>v. SPACE # quoted v) ws))), h')"
        and held: "\<exists>room'. holds_from h' b (?str @ concat (map (\<lambda>v. SPACE # quoted v) ws)) room' \<and>
          room - length ([SPACE] @ quoted w) - arguments_room vals \<le> room'"
        and same: "same_blocks {b} h1 h'" and all: "all_convert api vals ws"
      show thesis
      proof (rule Cons.prems(2) [of "w # ws" h'])
        show "\<exists>room'. holds_from h' b (str @ concat (map (\<lambda>v. SPACE # quoted v) (w # ws))) room' \<and>
            room - arguments_room (v # vals) \<le> room'"
          using held appended(5) v by (auto simp: arguments_room_def)
      qed (use step same appended all v in \<open>auto simp: all_convert_def intro: same_blocks_trans\<close>)
    qed (use h1 appended room1 Cons.prems(6) in auto)
  qed
qed

subsection \<open>Capacity\<close>

definition command_room :: "bytes \<Rightarrow> bytes option list \<Rightarrow> nat" where
  "command_room executable vals = 2 * length executable + 4 + arguments_room vals"

lemma capacity_guard:
  fixes capacity :: u64
  assumes "unat capacity + (2 * n + 4) < 2 ^ 64"
  shows "\<not> of_nat n > (SIZE_MAX - capacity - 4) div 2" and "unat (capacity + (of_nat n * 2 + 4)) = unat capacity + (2 * n + 4)"
proof -
  have sub: "unat (SIZE_MAX - capacity - 4) = 2 ^ 64 - 1 - unat capacity - 4"
    using assms by (simp add: unat_sub_no_wrap SIZE_MAX_unat unat_u64_bound)
  have "unat (of_nat n :: u64) = n" using assms by (intro unat_of_nat_less_64) simp
  moreover have "n \<le> (2 ^ 64 - 1 - unat capacity - 4) div 2" using assms by simp
  ultimately show "\<not> of_nat n > (SIZE_MAX - capacity - 4) div 2"
    by (simp add: word_less_nat_alt unat_div sub)
  have "of_nat n * 2 + 4 = (of_nat (2 * n + 4) :: u64)" by simp
  then have "unat (of_nat n * 2 + 4 :: u64) = 2 * n + 4"
    using assms by (simp only: unat_of_nat_less_64)
  then show "unat (capacity + (of_nat n * 2 + 4)) = unat capacity + (2 * n + 4)"
    using assms by (subst unat_add_no_wrap) simp_all
qed

lemma arguments_capacity_eq:
  assumes "unat capacity + arguments_room vals < 2 ^ 64"
  shows "(None \<in> set vals \<longrightarrow> arguments_capacity vals capacity = None) \<and>
    (None \<notin> set vals \<longrightarrow> (\<exists>c. arguments_capacity vals capacity = Some c \<and>
      unat c = unat capacity + arguments_room vals))"
  using assms
proof (induction vals arbitrary: capacity)
  case (Cons v vals)
  show ?case
  proof (cases v)
    case (Some s)
    have "unat capacity + (2 * length s + 4) < 2 ^ 64"
      using Cons.prems Some by (simp add: arguments_room_def)
    note guard = capacity_guard [OF this]
    have "unat (capacity + (of_nat (length s) * 2 + 4)) + arguments_room vals < 2 ^ 64"
      using Cons.prems Some by (simp add: guard(2) arguments_room_def)
    from Cons.IH [OF this] show ?thesis
      using Some guard by (auto simp: strlen_def arguments_room_def)
  qed (simp add: arguments_room_def)
qed (simp add: arguments_room_def)

lemma command_capacity_eq:
  assumes "command_room executable vals < 2 ^ 63"
  shows "(None \<in> set vals \<longrightarrow> command_capacity executable vals = None) \<and>
    (None \<notin> set vals \<longrightarrow> (\<exists>c. command_capacity executable vals = Some c \<and>
      unat (c * 2) div 2 = command_room executable vals))"
proof -
  let ?n = "length executable"
  have "unat (0 :: u64) + (2 * ?n + 4) < 2 ^ 64" using assms by (simp add: command_room_def)
  note guard = capacity_guard [OF this]
  have first: "\<not> strlen executable > (SIZE_MAX - 1 - 3) div 2" using guard(1) by (simp add: strlen_def)
  have "1 + (strlen executable * 2 + 3) = 0 + (of_nat ?n * 2 + 4 :: u64)" by (simp add: strlen_def)
  then have start: "unat (1 + (strlen executable * 2 + 3)) = 2 * ?n + 4"
    by (simp only: guard(2)) simp
  have double: "unat (c * 2) div 2 = unat c" if "unat c < 2 ^ 63" for c :: u64
    using that by (simp add: unat_word_ariths)
  show ?thesis
    using arguments_capacity_eq [of "1 + (strlen executable * 2 + 3)" vals] assms start first double
    by (auto simp: command_capacity_def command_room_def)
qed

subsection \<open>The function\<close>

lemma build_command_line_cases:
  assumes api: "wide_api_ok api" and h: "heap_ok h" and room: "command_room s args < 2 ^ 63"
    and count: "0 \<le> n" "nat n \<le> length vector" "args = take (nat n) vector"
  obtains (null) h' where "pty_windows_build_command_line api ok (Some s) (Some vector) n h = Some (None, h')"
      "same_blocks {} h h'" "\<And>w ws. (\<forall>n. ok n) \<Longrightarrow> converts api s w \<Longrightarrow> \<not> all_convert api args ws"
  | (built) b h' w ws where "pty_windows_build_command_line api ok (Some s) (Some vector) n h = Some (Some b, h')"
      "h_block h b = None" "same_blocks {b} h h'" "\<exists>room'. holds_from h' b (command_text w ws @ [0]) room'"
      "converts api s w" "all_convert api args ws"
proof -
  have entries: "vector_entries (Some vector) n = Some args"
    using count by (simp add: vector_entries_def)
  show ?thesis
  proof (cases "None \<in> set args")
    case True
    show ?thesis
    proof (rule null [of h])
      show "pty_windows_build_command_line api ok (Some s) (Some vector) n h = Some (None, h)"
        using True command_capacity_eq [OF room] count(1) entries
        by (simp add: pty_windows_build_command_line_def)
      show "\<not> all_convert api args ws" for ws
        using True by (auto simp: all_convert_def list_all2_conv_all_nth in_set_conv_nth)
    qed (use h in \<open>simp add: same_blocks_def\<close>)
  next
    case False
    then obtain capacity where capacity: "command_capacity s args = Some capacity"
        "unat (capacity * 2) div 2 = command_room s args"
      using command_capacity_eq [OF room] by blast
    note unfold = pty_windows_build_command_line_def entries capacity
    from h show ?thesis
    proof (cases rule: malloc_cells_cases [of h ok "replicate (command_room s args) None"])
      case fail
      show ?thesis
        by (rule null [OF _ _]) (use fail count(1) in \<open>auto simp: unfold same_blocks_def\<close>)
    next
      case (block h1)
      let ?b = "h_next h"
      have buffer: "holds_from h1 ?b [] (command_room s args)" using block by (intro holds_from_fresh) simp
      have same1: "same_blocks {?b} h h1" using block by (simp add: same_blocks_def)
      have undo: "\<exists>h'. free_block ?b g = Some h' \<and> same_blocks {} h h'"
        if held: "holds_from g ?b str r" and same: "same_blocks {?b} h g" for g str r
      proof -
        obtain g' where "free_block ?b g = Some g'" "h_block g' ?b = None" "same_blocks {?b} g g'"
          using free_block_same [OF held] same by (auto simp: same_blocks_def)
        with same block(6) show ?thesis by (auto simp: same_blocks_def) metis
      qed
      have "length [] + 2 * length s + 2 \<le> command_room s args" by (simp add: command_room_def)
      with api block(5) buffer show ?thesis
      proof (cases rule: append_converted_cases [where ok = ok])
        case (null h2)
        obtain h3 where "free_block ?b h2 = Some h3" "same_blocks {} h h3"
          using undo [OF holds_from_same [OF null(2) _ buffer]] same1 null(2)
          by (auto simp: same_blocks_def)
        then show ?thesis
          by (intro that(1) [of h3]) (use null block count(1) in \<open>auto simp: unfold\<close>)
      next
        case (appended w h2)
        have fits: "arguments_room args \<le> command_room s args - length ([] @ quoted w)"
          using appended(5) by (simp add: command_room_def)
        have ok2: "heap_ok h2" using appended(3) by (simp add: same_blocks_def)
        have same2: "same_blocks {?b} h h2" using same_blocks_trans [OF same1 appended(3)] .
        from api ok2 appended(2) fits False show ?thesis
        proof (cases rule: append_arguments_cases [where ok = ok])
          case (null h3)
          obtain h4 where "free_block ?b h3 = Some h4" "same_blocks {} h h4"
            using undo null(3) same_blocks_trans [OF same2 null(2)] by blast
          then show ?thesis
            by (intro that(1) [of h4]) (use null appended block count(1) in \<open>auto simp: unfold\<close>)
        next
          case (appended ws h3)
          obtain r where r: "holds_from h3 ?b (command_text w ws) r"
              "command_room s args - length (quoted w) - arguments_room args \<le> r"
            using appended(2) by (auto simp: command_text_def)
          have "1 \<le> r" using r(2) \<open>length (quoted w) \<le> 2 * length s + 2\<close> by (simp add: command_room_def)
          moreover have "heap_ok h3" using appended(3) by (simp add: same_blocks_def)
          ultimately obtain h4 where h4: "put_list ?b [0] (h3, length (command_text w ws)) =
                Some (h4, length (command_text w ws) + 1)"
              "holds_from h4 ?b (command_text w ws @ [0]) (r - 1)" "same_blocks {?b} h3 h4"
            using put_list_same [OF r(1), of "[0]"] by auto
          show ?thesis
            by (rule built [of ?b h4 w ws])
              (use appended h4 block count(1) same2 \<open>converts api s w\<close>
                \<open>append_converted api ok ?b [] (Some s) (length []) h1 = _\<close>
                in \<open>auto simp: unfold command_text_def intro: same_blocks_trans\<close>)
        qed
      qed
    qed
  qed
qed

subsection \<open>How a program reads its command line\<close>

text \<open>The documented rules, as the specification of the text: the program name ends at a blank outside
  quotes and knows no escapes; in the arguments, backslashes are literal unless they precede a quote,
  where each pair is one backslash and an odd one makes the quote literal; a doubled quote inside
  quotes is a literal quote; blanks outside quotes separate.\<close>

definition blank :: "u16 \<Rightarrow> bool" where
  "blank c \<longleftrightarrow> c = SPACE \<or> c = 9"

function split_args :: "bool \<Rightarrow> nat \<Rightarrow> u16 list \<Rightarrow> u16 list \<Rightarrow> u16 list list" where
  "split_args q n acc [] = [acc @ replicate n BACKSLASH]"
| "split_args q n acc (c # cs) =
     (if c = BACKSLASH then split_args q (Suc n) acc cs
      else if c = QUOTE then
        (if odd n then split_args q 0 (acc @ replicate (n div 2) BACKSLASH @ [QUOTE]) cs
         else if q \<and> cs \<noteq> [] \<and> hd cs = QUOTE
         then split_args q 0 (acc @ replicate (n div 2) BACKSLASH @ [QUOTE]) (tl cs)
         else split_args (\<not> q) 0 (acc @ replicate (n div 2) BACKSLASH) cs)
      else if \<not> q \<and> blank c
      then (acc @ replicate n BACKSLASH) #
        (if dropWhile blank cs = [] then [] else split_args False 0 [] (dropWhile blank cs))
      else split_args q 0 (acc @ replicate n BACKSLASH @ [c]) cs)"
  by pat_completeness auto
termination
  by (relation "measure (\<lambda>(q, n, acc, xs). length xs)") (auto simp: le_imp_less_Suc length_dropWhile_le)

fun program_name :: "bool \<Rightarrow> u16 list \<Rightarrow> u16 list \<times> u16 list" where
  "program_name q [] = ([], [])"
| "program_name q (c # cs) =
     (if c = QUOTE then program_name (\<not> q) cs
      else if \<not> q \<and> blank c then ([], cs)
      else (case program_name q cs of (name, rest) \<Rightarrow> (c # name, rest)))"

definition split_command_line :: "u16 list \<Rightarrow> u16 list list" where
  "split_command_line str =
     (case program_name False str of (name, rest) \<Rightarrow>
        name # (if dropWhile blank rest = [] then [] else split_args False 0 [] (dropWhile blank rest)))"

lemma split_backslashes:
  "split_args q n acc (replicate k BACKSLASH @ xs) = split_args q (n + k) acc xs"
  by (induction k arbitrary: n) simp_all

text \<open>The body of a quoted argument is read back, up to the closing quote.\<close>

lemma split_quoted_body:
  assumes "rest = [] \<or> hd rest \<noteq> QUOTE"
  shows "split_args True 0 acc (quoted_body n w @ QUOTE # rest) =
    split_args False 0 (acc @ replicate n BACKSLASH @ w) rest"
proof (induction n w arbitrary: acc rule: quoted_body.induct)
  case (1 n)
  then show ?case using assms by (auto simp: split_backslashes)
next
  case (2 n c cs)
  consider "c = BACKSLASH" | "c = QUOTE" | "c \<noteq> BACKSLASH" "c \<noteq> QUOTE" by blast
  then show ?case
  proof cases
    case 1
    then show ?thesis
      using 2 by (simp add: replicate_app_Cons_same)
  next
    case 2
    then show ?thesis
      using "2.IH"(2) by (simp add: split_backslashes)
  next
    case 3
    then show ?thesis
      using "2.IH"(3) by (simp add: split_backslashes)
  qed
qed

lemma split_arguments:
  "split_args False 0 acc (concat (map (\<lambda>v. SPACE # quoted v) ws)) = acc # ws"
proof (induction ws arbitrary: acc)
  case (Cons w ws)
  let ?rest = "concat (map (\<lambda>v. SPACE # quoted v) ws)"
  have rest: "?rest = [] \<or> hd ?rest \<noteq> QUOTE" by (cases ws) simp_all
  have quote: "\<not> blank QUOTE" "blank SPACE" by (simp_all add: blank_def)
  have "split_args False 0 [] (QUOTE # quoted_body 0 w @ QUOTE # ?rest) =
      split_args True 0 [] (quoted_body 0 w @ QUOTE # ?rest)"
    by simp
  also have "\<dots> = split_args False 0 w ?rest" using split_quoted_body [OF rest, of "[]" 0 w] by simp
  finally show ?case using Cons.IH [of w] quote by (simp add: quoted_def)
qed simp

lemma quoted_plain:
  "QUOTE \<notin> set w \<Longrightarrow> (w = [] \<longrightarrow> n = 0) \<Longrightarrow> (w \<noteq> [] \<longrightarrow> last w \<noteq> BACKSLASH) \<Longrightarrow>
    quoted_body n w = replicate n BACKSLASH @ w"
proof (induction n w rule: quoted_body.induct)
  case (2 n c cs)
  then show ?case
    by (cases "cs = []") (auto simp: replicate_app_Cons_same split: if_splits)
qed simp

lemma program_name_quoted:
  "QUOTE \<notin> set w \<Longrightarrow> program_name True (w @ QUOTE # rest) = (w @ fst (program_name False rest), snd (program_name False rest))"
  by (induction w) (auto split: prod.splits)

definition plain_program :: "u16 list \<Rightarrow> bool" where
  "plain_program w \<longleftrightarrow> QUOTE \<notin> set w \<and> (w \<noteq> [] \<longrightarrow> last w \<noteq> BACKSLASH)"

lemma split_command_text:
  assumes "plain_program w"
  shows "split_command_line (command_text w ws) = w # ws"
proof -
  let ?rest = "concat (map (\<lambda>v. SPACE # quoted v) ws)"
  have "command_text w ws = QUOTE # w @ QUOTE # ?rest"
    using assms quoted_plain [of w 0] by (cases w) (simp_all add: command_text_def quoted_def plain_program_def)
  then have name: "program_name False (command_text w ws) =
      (w @ fst (program_name False ?rest), snd (program_name False ?rest))"
    using assms by (simp add: program_name_quoted plain_program_def)
  show ?thesis
  proof (cases ws)
    case Nil
    then show ?thesis using name by (simp add: split_command_line_def)
  next
    case (Cons v vs)
    have blanks: "\<not> blank QUOTE" "blank SPACE" by (simp_all add: blank_def)
    have "split_args False 0 w ?rest = w # split_args False 0 [] (quoted v @ concat (map (\<lambda>v. SPACE # quoted v) vs))"
      using Cons blanks by (simp add: quoted_def)
    then have "split_args False 0 [] (quoted v @ concat (map (\<lambda>v. SPACE # quoted v) vs)) = ws"
      using split_arguments [of w ws] by simp
    then show ?thesis
      using name Cons blanks by (simp add: split_command_line_def quoted_def)
  qed
qed

lemma quoted_terminator: "0 \<notin> set w \<Longrightarrow> 0 \<notin> set (quoted w)"
proof -
  have "0 \<notin> set w \<Longrightarrow> 0 \<notin> set (quoted_body n w)" for n
    by (induction n w rule: quoted_body.induct) auto
  then show "0 \<notin> set w \<Longrightarrow> 0 \<notin> set (quoted w)" by (simp add: quoted_def)
qed

lemma command_text_terminator:
  "0 \<notin> set w \<Longrightarrow> \<forall>v \<in> set ws. 0 \<notin> set v \<Longrightarrow> 0 \<notin> set (command_text w ws)"
  by (auto simp: command_text_def dest: quoted_terminator)

lemma converts_terminator: "wide_api_ok api \<Longrightarrow> converts api s w \<Longrightarrow> 0 \<notin> set w"
  unfolding wide_api_ok_def converts_def by blast

lemma converts_unique: "converts api s w \<Longrightarrow> converts api s w' \<Longrightarrow> w = w'"
  by (simp add: converts_def)

lemma all_convert_terminator: "wide_api_ok api \<Longrightarrow> all_convert api vals ws \<Longrightarrow> \<forall>v \<in> set ws. 0 \<notin> set v"
  using converts_terminator by (fastforce simp: all_convert_def list_all2_conv_all_nth in_set_conv_nth)

lemma all_convert_unique: "all_convert api vals ws \<Longrightarrow> all_convert api vals ws' \<Longrightarrow> ws = ws'"
proof -
  assume "all_convert api vals ws" and "all_convert api vals ws'"
  then have len: "length ws = length ws'" and same: "\<And>i. i < length ws \<Longrightarrow> ws ! i = ws' ! i"
    using converts_unique by (auto simp: all_convert_def list_all2_conv_all_nth) (metis option.inject)
  from len same show "ws = ws'" by (rule nth_equalityI)
qed

subsection \<open>Properties\<close>



subsection \<open>Witnesses\<close>

text \<open>The conversion on ASCII strings, and the arguments \<open>a b\<close>, the empty one and \<open>"\<close> with a
  backslash at each side.\<close>

definition ascii_api :: wide_api where
  "ascii_api =
     \<lparr>wa_size = (\<lambda>s. if \<forall>c \<in> set s. 0 < c \<and> c < 128 then Suc (length s) else 0),
      wa_convert = (\<lambda>s n. if (\<forall>c \<in> set s. 0 < c \<and> c < 128) \<and> Suc (length s) \<le> n
        then Some (map ucast s @ [0]) else None)\<rparr>"

lemma ascii_api_ok: "wide_api_ok ascii_api"
proof -
  have "ucast c \<noteq> (0 :: u16)" if "0 < c" for c :: u8
  proof -
    have "uint (ucast c :: u16) = uint c"
      using unsigned_less [of c] by (simp add: uint_up_ucast is_up)
    then show ?thesis using that by (metis uint_0_iff unsigned_0 word_gt_0)
  qed
  then show ?thesis by (auto simp: wide_api_ok_def ascii_api_def split: if_splits)
qed

definition example_program :: bytes where
  "example_program = [99, 97, 116]"

definition example_arguments :: "bytes option list" where
  "example_arguments = [Some [97, 32, 98], Some [], Some [92, 34, 92]]"

definition empty_heap :: wheap where
  "empty_heap = \<lparr>h_next = 0, h_block = \<lambda>_. None\<rparr>"

lemma empty_heap_ok: "heap_ok empty_heap"
  by (simp add: heap_ok_def empty_heap_def)

lemma example_converts:
  "converts ascii_api example_program [99, 97, 116]"
  "all_convert ascii_api (take (nat 3) example_arguments) [[97, 32, 98], [], [92, 34, 92]]"
  by (simp_all add: converts_def ascii_api_def example_program_def example_arguments_def all_convert_def)

lemma example_room: "command_room example_program (take (nat 3) example_arguments) < 2 ^ 63"
  by (simp add: command_room_def arguments_room_def example_program_def example_arguments_def)



end
