(* ===== verification/Win_Environment.thy ===== *)
theory Win_Environment
  imports Win_CommandLine
begin

section \<open>The Windows environment block (windows/pty_windows_environment.c)\<close>

text \<open>The same memory and conversion as the command line; the block is zeroed by \<open>calloc\<close>.\<close>

definition environment_utf8_to_wide ::
  "wide_api \<Rightarrow> allocator \<Rightarrow> bytes option \<Rightarrow> wheap \<Rightarrow> (nat option \<times> wheap) option" where
  "environment_utf8_to_wide api ok val h = utf8_to_wide api ok val h"

text \<open>The first loop: the length of the entries, with the overflow check; NULL is the inner \<open>None\<close>.\<close>

primrec environment_length ::
  "wide_api \<Rightarrow> allocator \<Rightarrow> bytes option list \<Rightarrow> u64 \<Rightarrow> wheap \<Rightarrow> (u64 option \<times> wheap) option" where
  "environment_length api ok [] len h = Some (Some len, h)"
| "environment_length api ok (val # vals) len h = do {
     (converted, h1) \<leftarrow> environment_utf8_to_wide api ok val h;
     (case converted of
        None \<Rightarrow> Some (None, h1)
      | Some c \<Rightarrow> do {
          w \<leftarrow> wcs h1 c;
          h2 \<leftarrow> free_block c h1;
          (let entry_length = of_nat (length w) + 1 in
           if entry_length > SIZE_MAX - len - 1 then Some (None, h2)
           else environment_length api ok vals (len + entry_length) h2) }) }"

text \<open>The second loop: \<open>memcpy\<close> of each entry with its terminator.\<close>

primrec environment_copy ::
  "wide_api \<Rightarrow> allocator \<Rightarrow> nat \<Rightarrow> bytes option list \<Rightarrow> nat \<Rightarrow> wheap \<Rightarrow> (nat option \<times> wheap) option" where
  "environment_copy api ok b [] offset h = Some (Some offset, h)"
| "environment_copy api ok b (val # vals) offset h = do {
     (converted, h1) \<leftarrow> environment_utf8_to_wide api ok val h;
     (case converted of
        None \<Rightarrow> Some (None, h1)
      | Some c \<Rightarrow> do {
          w \<leftarrow> wcs h1 c;
          (h2, o2) \<leftarrow> put_list b (w @ [0]) (h1, offset);
          h3 \<leftarrow> free_block c h2;
          environment_copy api ok b vals o2 h3 }) }"

definition pty_windows_build_environment ::
  "wide_api \<Rightarrow> allocator \<Rightarrow> bytes option list option \<Rightarrow> int \<Rightarrow> wheap \<Rightarrow> (nat option \<times> wheap) option" where
  "pty_windows_build_environment api ok environment environment_count h =
     (if environment_count < 0 \<or> (environment_count \<noteq> 0 \<and> environment = None) then Some (None, h)
      else do {
        entries \<leftarrow> vector_entries environment environment_count;
        (len, h1) \<leftarrow> environment_length api ok entries 1 h;
        (case len of
           None \<Rightarrow> Some (None, h1)
         | Some l \<Rightarrow>
             (case malloc_cells ok (replicate (unat ((l + 1) * 2) div 2) (Some 0)) h1 of
                (None, h2) \<Rightarrow> Some (None, h2)
              | (Some b, h2) \<Rightarrow> do {
                  (last, h3) \<leftarrow> environment_copy api ok b entries 0 h2;
                  (case last of
                     None \<Rightarrow> do { h4 \<leftarrow> free_block b h3; Some (None, h4) }
                   | Some offset \<Rightarrow> do { (h4, _) \<leftarrow> put b 0 (h3, offset); Some (Some b, h4) }) })) })"

subsection \<open>The block\<close>

text \<open>What \<open>CreateProcessW\<close> reads: terminated entries up to an empty one.\<close>

definition block_text :: "u16 list list \<Rightarrow> u16 list" where
  "block_text ws = concat (map (\<lambda>w. w @ [0]) ws) @ [0]"

function read_block :: "u16 list \<Rightarrow> u16 list list" where
  "read_block xs =
     (let entry = takeWhile (\<lambda>c. c \<noteq> 0) xs in
      if entry = [] then [] else entry # read_block (tl (dropWhile (\<lambda>c. c \<noteq> 0) xs)))"
  by pat_completeness auto
termination
proof (relation "measure length")
  fix xs :: "u16 list" and entry
  assume e: "entry = takeWhile (\<lambda>c. c \<noteq> 0) xs" and n: "entry \<noteq> []"
  have "length (tl (dropWhile (\<lambda>c. c \<noteq> 0) xs)) \<le> length (dropWhile (\<lambda>c. c \<noteq> 0) xs)" by simp
  also have "\<dots> < length xs" using e n by (cases xs) (auto simp: le_imp_less_Suc length_dropWhile_le)
  finally show "(tl (dropWhile (\<lambda>c. c \<noteq> 0) xs), xs) \<in> measure length" by simp
qed simp

declare read_block.simps [simp del]

lemma read_block_text:
  "\<forall>w \<in> set ws. w \<noteq> [] \<and> 0 \<notin> set w \<Longrightarrow> read_block (block_text ws @ rest) = ws"
proof (induction ws)
  case Nil
  then show ?case by (simp add: block_text_def read_block.simps)
next
  case (Cons w ws)
  then have nz: "\<forall>c \<in> set w. c \<noteq> 0" by auto
  have split: "block_text (w # ws) @ rest = w @ 0 # (block_text ws @ rest)" by (simp add: block_text_def)
  have "takeWhile (\<lambda>c. c \<noteq> 0) (w @ 0 # (block_text ws @ rest)) = w"
    by (rule takeWhile_append_stop) (use nz in simp_all)
  moreover have "dropWhile (\<lambda>c. c \<noteq> 0) (w @ 0 # (block_text ws @ rest)) = 0 # (block_text ws @ rest)"
    using nz by (simp add: dropWhile_append3)
  ultimately show ?case
    unfolding split using Cons by (subst read_block.simps) (simp add: Let_def)
qed

subsection \<open>The loops\<close>

definition environment_room :: "bytes option list \<Rightarrow> nat" where
  "environment_room vals = (\<Sum>v\<leftarrow>vals. case v of None \<Rightarrow> 0 | Some s \<Rightarrow> length s + 1)"

definition entries_text :: "u16 list list \<Rightarrow> u16 list" where
  "entries_text ws = concat (map (\<lambda>w. w @ [0]) ws)"

lemma all_convert_Cons:
  "all_convert api (v # vals) ws \<longleftrightarrow>
    (\<exists>s w ws'. v = Some s \<and> ws = w # ws' \<and> converts api s w \<and> all_convert api vals ws')"
  by (cases ws) (auto simp: all_convert_def)

text \<open>One conversion: nothing but its own block changes.\<close>

lemma environment_conversion_cases:
  assumes "wide_api_ok api" and "heap_ok h"
  obtains (null) h' where "environment_utf8_to_wide api ok v h = Some (None, h')" "same_blocks {} h h'"
      "\<And>vals ws. (\<forall>n. ok n) \<Longrightarrow> \<not> all_convert api (v # vals) ws"
  | (converted) s c w h' where "v = Some s" "environment_utf8_to_wide api ok v h = Some (Some c, h')"
      "h_block h c = None" "same_blocks {c} h h'" "wcs h' c = Some w" "\<exists>room. holds_from h' c (w @ [0]) room"
      "length w \<le> length s" "converts api s w"
proof (cases v)
  case None
  show ?thesis
    by (rule null [of h])
      (use None assms(2) in \<open>simp_all add: environment_utf8_to_wide_def utf8_to_wide_def same_blocks_def all_convert_Cons\<close>)
next
  case (Some s)
  from assms show ?thesis
  proof (cases rule: utf8_to_wide_cases [of api h ok s])
    case (null h')
    then show ?thesis
      by (intro that(1) [of h']) (use Some in \<open>auto simp: environment_utf8_to_wide_def all_convert_Cons\<close>)
  next
    case (converted c w h')
    then have "wcs h' c = Some w" using holds_wcs by blast
    with converted show ?thesis
      by (intro that(2) [of s c h' w]) (use Some in \<open>auto simp: environment_utf8_to_wide_def\<close>)
  qed
qed

lemma length_step:
  fixes len :: u64
  assumes "unat len + (n + 1) < 2 ^ 63"
  shows "\<not> of_nat n + 1 > SIZE_MAX - len - 1" and "unat (len + (of_nat n + 1)) = unat len + (n + 1)"
proof -
  have "unat (of_nat (n + 1) :: u64) = n + 1" using assms by (intro unat_of_nat_less_64) simp
  then have n: "unat (of_nat n + 1 :: u64) = n + 1" by (simp add: add.commute)
  have "unat (SIZE_MAX - len - 1) = 2 ^ 64 - 1 - unat len - 1"
    using assms by (simp add: unat_sub_no_wrap SIZE_MAX_unat)
  then show "\<not> of_nat n + 1 > SIZE_MAX - len - 1" using assms n by (simp add: word_less_nat_alt)
  show "unat (len + (of_nat n + 1)) = unat len + (n + 1)"
    using assms n by (subst unat_add_no_wrap) simp_all
qed

lemma environment_length_cases:
  assumes api: "wide_api_ok api" and h: "heap_ok h" and len: "unat len + environment_room vals < 2 ^ 63"
  shows "\<exists>r h'. environment_length api ok vals len h = Some (r, h') \<and> same_blocks {} h h' \<and>
    (case r of None \<Rightarrow> \<forall>ws. (\<forall>n. ok n) \<longrightarrow> \<not> all_convert api vals ws
     | Some l \<Rightarrow> \<exists>ws. all_convert api vals ws \<and> unat l = unat len + length (entries_text ws) \<and>
         length (entries_text ws) \<le> environment_room vals)"
  using h len
proof (induction vals arbitrary: h len)
  case Nil
  then show ?case by (auto simp: all_convert_def entries_text_def environment_room_def same_blocks_def)
next
  case (Cons v vals)
  from api Cons.prems(1) show ?case
  proof (cases rule: environment_conversion_cases [where v = v and ok = ok])
    case (null h')
    then show ?thesis by simp
  next
    case (converted s c w h1)
    have ok1: "heap_ok h1" using converted(4) by (simp add: same_blocks_def)
    obtain h2 where h2: "free_block c h1 = Some h2" "h_block h2 c = None" "same_blocks {c} h1 h2"
      using free_block_same converted(6) ok1 by blast
    have same: "same_blocks {} h h2"
      using converted(3,4) h2(2,3) unfolding same_blocks_def by (metis empty_iff insert_iff)
    have len: "unat len + (length w + 1) < 2 ^ 63" "unat len + (length s + 1) + environment_room vals < 2 ^ 63"
      using Cons.prems(2) converted(1,7) by (simp_all add: environment_room_def)
    note step = length_step [OF len(1)]
    have "unat (len + (of_nat (length w) + 1)) + environment_room vals < 2 ^ 63"
      using step(2) len(2) converted(7) by linarith
    from Cons.IH [OF _ this, of h2] same obtain r h' where
      r: "environment_length api ok vals (len + (of_nat (length w) + 1)) h2 = Some (r, h')" "same_blocks {} h2 h'"
        "case r of None \<Rightarrow> \<forall>ws. (\<forall>n. ok n) \<longrightarrow> \<not> all_convert api vals ws
         | Some l \<Rightarrow> \<exists>ws. all_convert api vals ws \<and> unat l = unat (len + (of_nat (length w) + 1)) + length (entries_text ws) \<and>
             length (entries_text ws) \<le> environment_room vals"
      by (auto simp: same_blocks_def)
    have "environment_length api ok (v # vals) len h = Some (r, h')"
      using converted(2,5) h2(1) r(1) step(1) by (simp add: Let_def)
    moreover have "case r of None \<Rightarrow> \<forall>ws. (\<forall>n. ok n) \<longrightarrow> \<not> all_convert api (v # vals) ws
         | Some l \<Rightarrow> \<exists>ws. all_convert api (v # vals) ws \<and> unat l = unat len + length (entries_text ws) \<and>
             length (entries_text ws) \<le> environment_room (v # vals)"
    proof (cases r)
      case None
      with r(3) show ?thesis by (auto simp: all_convert_Cons)
    next
      case (Some l)
      with r(3) obtain ws where ws: "all_convert api vals ws"
          "unat l = unat (len + (of_nat (length w) + 1)) + length (entries_text ws)"
          "length (entries_text ws) \<le> environment_room vals"
        by auto
      have "all_convert api (v # vals) (w # ws)" using ws(1) converted(1,8) by (auto simp: all_convert_Cons)
      moreover have "unat l = unat len + length (entries_text (w # ws))"
        using ws(2) step(2) by (simp add: entries_text_def)
      moreover have "length (entries_text (w # ws)) \<le> environment_room (v # vals)"
        using ws(3) converted(1,7) by (simp add: entries_text_def environment_room_def)
      ultimately show ?thesis using Some by auto
    qed
    ultimately show ?thesis using same_blocks_trans [OF same r(2)] by blast
  qed
qed

lemma environment_copy_cases:
  assumes api: "wide_api_ok api" and h: "heap_ok h" and buffer: "holds_from h b str room"
    and all: "all_convert api vals ws" and room: "length (entries_text ws) \<le> room"
  shows "\<exists>r h'. environment_copy api ok b vals (length str) h = Some (r, h') \<and> same_blocks {b} h h' \<and>
    (case r of None \<Rightarrow> \<not> (\<forall>n. ok n) \<and> (\<exists>str room. holds_from h' b str room)
     | Some offset \<Rightarrow> offset = length (str @ entries_text ws) \<and>
         holds_from h' b (str @ entries_text ws) (room - length (entries_text ws)))"
  using h buffer all room
proof (induction vals arbitrary: h str room ws)
  case Nil
  then show ?case by (auto simp: all_convert_def entries_text_def same_blocks_def)
next
  case (Cons v vals)
  then obtain s w ws' where ws: "v = Some s" "ws = w # ws'" "converts api s w" "all_convert api vals ws'"
    by (auto simp: all_convert_Cons)
  from api Cons.prems(1) show ?case
  proof (cases rule: environment_conversion_cases [where v = v and ok = ok])
    case (null h')
    then have "\<not> (\<forall>n. ok n)" using Cons.prems(3) by blast
    moreover have "holds_from h' b str room" using holds_from_same [OF null(2) _ Cons.prems(2)] by simp
    ultimately show ?thesis using null(1,2) by (auto intro: same_blocks_mono)
  next
    case (converted s' c w' h1)
    then have w: "w' = w" using ws converts_unique by auto
    have cb: "c \<noteq> b" using converted(3) Cons.prems(2) by (auto simp: holds_from_def)
    have ok1: "heap_ok h1" using converted(4) by (simp add: same_blocks_def)
    have fits: "length (w @ [0]) \<le> room" using Cons.prems(4) ws(2) by (simp add: entries_text_def)
    have "holds_from h1 b str room" using holds_from_same [OF converted(4) _ Cons.prems(2)] cb by simp
    from put_list_same [OF this fits ok1] obtain h2 where
      h2: "put_list b (w @ [0]) (h1, length str) = Some (h2, length str + length (w @ [0]))"
        "holds_from h2 b (str @ w @ [0]) (room - length (w @ [0]))" "same_blocks {b} h1 h2"
      by blast
    have ok2: "heap_ok h2" using h2(3) by (simp add: same_blocks_def)
    obtain x where "holds_from h2 c (w' @ [0]) x"
      using converted(6) holds_from_same [OF h2(3)] cb by blast
    then obtain h3 where h3: "free_block c h2 = Some h3" "h_block h3 c = None" "same_blocks {c} h2 h3"
      using free_block_same ok2 by blast
    have ok3: "heap_ok h3" using h3(3) by (simp add: same_blocks_def)
    have same: "same_blocks {b} h h3"
      using converted(3,4) h2(3) h3(2,3) cb unfolding same_blocks_def by (metis insert_iff empty_iff)
    have held: "holds_from h3 b (str @ w @ [0]) (room - length (w @ [0]))"
      using holds_from_same [OF h3(3) _ h2(2)] cb by simp
    have "length (entries_text ws') \<le> room - length (w @ [0])"
      using Cons.prems(4) ws(2) by (simp add: entries_text_def)
    from Cons.IH [OF ok3 held ws(4) this] obtain r h' where
      r: "environment_copy api ok b vals (length (str @ w @ [0])) h3 = Some (r, h')" "same_blocks {b} h3 h'"
        "case r of None \<Rightarrow> \<not> (\<forall>n. ok n) \<and> (\<exists>str room. holds_from h' b str room)
         | Some offset \<Rightarrow> offset = length ((str @ w @ [0]) @ entries_text ws') \<and>
             holds_from h' b ((str @ w @ [0]) @ entries_text ws') (room - length (w @ [0]) - length (entries_text ws'))"
      by blast
    have "environment_copy api ok b (v # vals) (length str) h = Some (r, h')"
      using converted(2,5) h2(1) h3(1) r(1) w by simp
    moreover have "entries_text ws = (w @ [0]) @ entries_text ws'" by (simp add: ws(2) entries_text_def)
    ultimately show ?thesis
      using same_blocks_trans [OF same r(2)] r(3) by (auto split: option.splits)
  qed
qed

subsection \<open>Properties\<close>


definition example_environment :: "bytes option list" where
  "example_environment = [Some [65, 61, 49], Some [66, 61]]"


end
