(* ===== verification/Unix_Options.thy ===== *)
theory Unix_Options
  imports C_Memory Pty_Error
begin

section \<open>String vectors and the copied spawn options (unix/pty_unix_spawn.c)\<close>

text \<open>
  The heap holds characters and pointers. The caller's strings and vectors are values: a string is
  its bytes before the terminator, NULL is \<open>None\<close>. An operation's \<open>None\<close> is undefined behaviour.
\<close>

datatype cell = Char u8 | Pointer "nat option"

type_synonym uheap = "cell heap"
type_synonym cstring = "u8 list"

definition string_cells :: "cstring \<Rightarrow> cell list" where
  "string_cells s = map Char s @ [Char 0]"

definition copy_string :: "allocator \<Rightarrow> cstring option \<Rightarrow> uheap \<Rightarrow> (nat option \<times> uheap) option" where
  "copy_string ok val h =
     (case val of
        None \<Rightarrow> Some (None, h)
      | Some s \<Rightarrow>
          (case malloc_cells ok (replicate (length s + 1) None) h of
             (None, h1) \<Rightarrow> Some (None, h1)
           | (Some b, h1) \<Rightarrow> do { (h2, _) \<leftarrow> put_list b (string_cells s) (h1, 0); Some (Some b, h2) }))"

definition load_pointer :: "nat \<Rightarrow> nat \<Rightarrow> uheap \<Rightarrow> nat option option" where
  "load_pointer b i h =
     (case load b i h of Some (Pointer p) \<Rightarrow> Some p | _ \<Rightarrow> None)"

text \<open>\<open>for (index = i; index < i + n; index++) free(values[index])\<close>\<close>

fun free_entries :: "nat \<Rightarrow> nat \<Rightarrow> nat \<Rightarrow> uheap \<Rightarrow> uheap option" where
  "free_entries b i 0 h = Some h"
| "free_entries b i (Suc n) h = do {
     p \<leftarrow> load_pointer b i h;
     h1 \<leftarrow> free_pointer p h;
     free_entries b (Suc i) n h1 }"

definition free_string_vector :: "nat option \<Rightarrow> nat \<Rightarrow> uheap \<Rightarrow> uheap option" where
  "free_string_vector values count h =
     (case values of
        None \<Rightarrow> Some h
      | Some b \<Rightarrow> do { h1 \<leftarrow> free_entries b 0 count h; free_block b h1 })"

text \<open>Entry \<open>index\<close> of a caller's vector: NULL when the vector is.\<close>

definition vector_at :: "cstring option list option \<Rightarrow> nat \<Rightarrow> cstring option option" where
  "vector_at values index =
     (case values of
        None \<Rightarrow> Some None
      | Some v \<Rightarrow> if index < length v then Some (v ! index) else None)"

type_synonym 'a fallible = "('a option \<times> PtyError option \<times> uheap) option"

fun copy_entries ::
  "allocator \<Rightarrow> cstring option list option \<Rightarrow> nat \<Rightarrow> nat \<Rightarrow> nat \<Rightarrow> PtyError option \<Rightarrow> uheap \<Rightarrow> nat fallible" where
  "copy_entries ok values b index 0 err h = Some (Some b, err, h)"
| "copy_entries ok values b index (Suc n) err h = do {
     val \<leftarrow> vector_at values index;
     (if val = None then do {
        h1 \<leftarrow> free_string_vector (Some b) index h;
        Some (None, pty_error_set err PTY_ERROR_DOMAIN_INTERNAL PTY_ERROR_INVALID_ARGUMENT (scast EINVAL)
          (Some ''spawn string vector contains a null entry''), h1) }
      else do {
        (copy, h1) \<leftarrow> copy_string ok val h;
        h2 \<leftarrow> store b index (Pointer copy) h1;
        (if copy = None then do {
           h3 \<leftarrow> free_string_vector (Some b) index h2;
           Some (None, pty_error_set err PTY_ERROR_DOMAIN_INTERNAL PTY_ERROR_OUT_OF_MEMORY (scast ENOMEM)
             (Some ''copying spawn string failed''), h3) }
         else copy_entries ok values b (Suc index) n err h2) }) }"

definition copy_string_vector ::
  "allocator \<Rightarrow> cstring option list option \<Rightarrow> i32 \<Rightarrow> i32 \<Rightarrow> PtyError option \<Rightarrow> uheap \<Rightarrow> nat fallible" where
  "copy_string_vector ok values count extra err h =
     (if sint count < 0 \<or> sint extra < 0 \<or> sint count > 2147483647 - sint extra
      then Some (None, pty_error_set err PTY_ERROR_DOMAIN_INTERNAL PTY_ERROR_INVALID_ARGUMENT (scast EINVAL)
        (Some ''invalid string vector length''), h)
      else
        (case malloc_cells ok (replicate (nat (sint count) + nat (sint extra)) (Some (Pointer None))) h of
           (None, h1) \<Rightarrow>
             Some (None, pty_error_set err PTY_ERROR_DOMAIN_INTERNAL PTY_ERROR_OUT_OF_MEMORY (scast ENOMEM)
               (Some ''allocating spawn string vector failed''), h1)
         | (Some b, h1) \<Rightarrow> copy_entries ok values b 0 (nat (sint count)) err h1))"

subsection \<open>The options and their copy\<close>

record spawn_options =
  sp_executable :: "cstring option"
  sp_arguments :: "cstring option list option"
  sp_argument_count :: i32
  sp_environment :: "cstring option list option"
  sp_environment_count :: i32
  sp_working_directory :: "cstring option"
  sp_size :: PtySize

text \<open>A pointer field of the copied options: the caller's, or one of the copies.\<close>

datatype option_pointer = CallerPointer | CopyPointer "nat option"

record owned_options =
  ow_argument_count :: i32
  ow_environment_count :: i32
  ow_options_executable :: option_pointer
  ow_options_arguments :: option_pointer
  ow_options_environment :: option_pointer
  ow_options_working_directory :: option_pointer
  ow_executable :: "nat option"
  ow_arguments :: "nat option"
  ow_environment :: "nat option"
  ow_working_directory :: "nat option"

definition zero_options :: owned_options where
  "zero_options =
     \<lparr>ow_argument_count = 0, ow_environment_count = 0,
      ow_options_executable = CopyPointer None, ow_options_arguments = CopyPointer None,
      ow_options_environment = CopyPointer None, ow_options_working_directory = CopyPointer None,
      ow_executable = None, ow_arguments = None, ow_environment = None, ow_working_directory = None\<rparr>"

definition pty_unix_free_options :: "owned_options option \<Rightarrow> uheap \<Rightarrow> (owned_options option \<times> uheap) option" where
  "pty_unix_free_options options h =
     (case options of
        None \<Rightarrow> Some (None, h)
      | Some w \<Rightarrow> do {
          h1 \<leftarrow> free_pointer (ow_executable w) h;
          h2 \<leftarrow> free_string_vector (ow_arguments w) (nat (sint (ow_argument_count w))) h1;
          h3 \<leftarrow> free_string_vector (ow_environment w) (nat (sint (ow_environment_count w))) h2;
          h4 \<leftarrow> free_pointer (ow_working_directory w) h3;
          Some (Some zero_options, h4) })"

text \<open>The result: the return value, the destination, the error.\<close>

type_synonym clone_result = "(bool \<times> owned_options option \<times> PtyError option \<times> uheap) option"

definition pty_unix_clone_options ::
  "allocator \<Rightarrow> spawn_options option \<Rightarrow> owned_options option \<Rightarrow> PtyError option \<Rightarrow> uheap \<Rightarrow> clone_result" where
  "pty_unix_clone_options ok source destination err h =
     (if source = None \<or> destination = None
      then Some (False, destination, pty_error_set err PTY_ERROR_DOMAIN_INTERNAL PTY_ERROR_INVALID_ARGUMENT
        (scast EINVAL) (Some ''invalid options clone arguments''), h)
      else
        (let src = the source;
             w0 = zero_options\<lparr>ow_argument_count := sp_argument_count src,
                    ow_environment_count := sp_environment_count src,
                    ow_options_executable := CallerPointer, ow_options_arguments := CallerPointer,
                    ow_options_environment := CallerPointer, ow_options_working_directory := CallerPointer\<rparr>
         in do {
           (executable, h1) \<leftarrow> copy_string ok (sp_executable src) h;
           (let w1 = w0\<lparr>ow_executable := executable\<rparr> in
            if sp_executable src \<noteq> None \<and> executable = None
            then Some (False, Some w1, pty_error_set err PTY_ERROR_DOMAIN_INTERNAL PTY_ERROR_OUT_OF_MEMORY
              (scast ENOMEM) (Some ''copying executable failed''), h1)
            else do {
              (arguments, err2, h2) \<leftarrow> copy_string_vector ok (sp_arguments src) (sp_argument_count src) 1 err h1;
              (let w2 = w1\<lparr>ow_arguments := arguments\<rparr> in
               if arguments = None then do {
                 (w, h') \<leftarrow> pty_unix_free_options (Some w2) h2; Some (False, w, err2, h') }
               else do {
                 (environment, err3, h3) \<leftarrow>
                   copy_string_vector ok (sp_environment src) (sp_environment_count src) 1 err2 h2;
                 (let w3 = w2\<lparr>ow_environment := environment\<rparr> in
                  if environment = None then do {
                    (w, h') \<leftarrow> pty_unix_free_options (Some w3) h3; Some (False, w, err3, h') }
                  else do {
                    (working_directory, h4) \<leftarrow> copy_string ok (sp_working_directory src) h3;
                    (let w4 = w3\<lparr>ow_working_directory := working_directory\<rparr> in
                     if sp_working_directory src \<noteq> None \<and> working_directory = None then do {
                       (w, h') \<leftarrow> pty_unix_free_options (Some w4) h4;
                       Some (False, w, pty_error_set err3 PTY_ERROR_DOMAIN_INTERNAL PTY_ERROR_OUT_OF_MEMORY
                         (scast ENOMEM) (Some ''copying working directory failed''), h') }
                     else Some (True, Some (w4
                       \<lparr>ow_options_executable := CopyPointer executable,
                        ow_options_arguments := CopyPointer arguments,
                        ow_options_environment := CopyPointer environment,
                        ow_options_working_directory := CopyPointer working_directory\<rparr>), err3, h4)) }) }) }) }))"

subsection \<open>Blocks that hold strings and vectors\<close>

definition holds_string :: "uheap \<Rightarrow> nat \<Rightarrow> cstring \<Rightarrow> bool" where
  "holds_string h b s \<longleftrightarrow> h_block h b = Some (map Some (string_cells s))"

definition holds_pointers :: "uheap \<Rightarrow> nat \<Rightarrow> nat option list \<Rightarrow> bool" where
  "holds_pointers h b ps \<longleftrightarrow> h_block h b = Some (map (\<lambda>p. Some (Pointer p)) ps)"

definition targets :: "nat option list \<Rightarrow> nat list" where
  "targets ps = map the (filter (\<lambda>p. p \<noteq> None) ps)"

lemma targets_simps [simp]:
  "targets [] = []" "targets (Some p # ps) = p # targets ps" "targets (None # ps) = targets ps"
  "targets (ps @ qs) = targets ps @ targets qs" "targets (replicate n None) = []"
  by (simp_all add: targets_def)

lemma targets_some [simp]: "targets (map Some ps) = ps"
  by (induction ps) simp_all

lemma copy_string_grown:
  assumes "grown B h0 h"
  obtains (fail) h' where "copy_string ok (Some s) h = Some (None, h')" "grown B h0 h'" "h_block h' = h_block h"
      "\<not> (\<forall>n. ok n)"
  | (copied) b h' where "copy_string ok (Some s) h = Some (Some b, h')" "grown (insert b B) h0 h'" "b \<notin> B"
      "holds_string h' b s" "\<And>b'. b' \<noteq> b \<Longrightarrow> h_block h' b' = h_block h b'"
  using assms
proof (cases rule: grown_malloc [of B h0 h ok "replicate (length s + 1) None"])
  case (fail h')
  show ?thesis by (rule that(1) [of h']) (use fail in \<open>auto simp: copy_string_def\<close>)
next
  case (block h1)
  let ?b = "h_next h"
  have fresh: "h_block h1 ?b = Some (map Some [] @ replicate (length s + 1) None)" using block(4) by simp
  have put: "put_list ?b (string_cells s) (h1, length []) =
    Some (h1\<lparr>h_block := (h_block h1)(?b \<mapsto> map Some (string_cells s))\<rparr>, length (string_cells s))"
    using put_list_fills [OF fresh, of "string_cells s"] by (simp add: string_cells_def)
  show ?thesis
    by (rule that(2) [of ?b "h1\<lparr>h_block := (h_block h1)(?b \<mapsto> map Some (string_cells s))\<rparr>"])
      (use block put in \<open>auto simp: copy_string_def holds_string_def grown_def heap_ok_def\<close>)
qed

text \<open>Freeing a vector frees the strings its first \<open>count\<close> entries point to, and itself.\<close>

lemma free_entries_grown:
  assumes "grown B h0 h" and "holds_pointers h b (qs @ ps @ rs)" and "set (targets ps) \<subseteq> B"
    and "distinct (targets ps)" and "b \<notin> set (targets ps)"
  obtains h' where "free_entries b (length qs) (length ps) h = Some h'" and "grown (B - set (targets ps)) h0 h'"
    and "holds_pointers h' b (qs @ ps @ rs)"
    and "\<And>b'. b' \<notin> set (targets ps) \<Longrightarrow> h_block h' b' = h_block h b'"
  using assms
proof (induction ps arbitrary: B h qs thesis)
  case Nil
  show ?case by (rule Nil.prems(1) [of h]) (use Nil.prems in simp_all)
next
  case (Cons p ps)
  have load: "load_pointer b (length qs) h = Some p"
    using Cons.prems(3) by (simp add: load_pointer_def load_def holds_pointers_def nth_append)
  have rest: "holds_pointers h b ((qs @ [p]) @ ps @ rs)" using Cons.prems(3) by simp
  show ?case
  proof (cases p)
    case None
    obtain h' where h': "free_entries b (length (qs @ [p])) (length ps) h = Some h'"
        "grown (B - set (targets ps)) h0 h'" "holds_pointers h' b ((qs @ [p]) @ ps @ rs)"
        "\<And>b'. b' \<notin> set (targets ps) \<Longrightarrow> h_block h' b' = h_block h b'"
      using Cons.IH [OF _ Cons.prems(2) rest] Cons.prems(4-6) None by auto
    show ?thesis
      by (rule Cons.prems(1) [of h']) (use h' load None in \<open>simp_all add: free_pointer_def\<close>)
  next
    case (Some q)
    then have q: "q \<in> B" "q \<noteq> b" using Cons.prems(4,6) by auto
    obtain h1 where h1: "free_block q h = Some h1" "grown (B - {q}) h0 h1"
        "\<And>b'. b' \<noteq> q \<Longrightarrow> h_block h1 b' = h_block h b'" "h_block h1 q = None"
      using grown_free [OF Cons.prems(2) q(1)] by blast
    have rest1: "holds_pointers h1 b ((qs @ [p]) @ ps @ rs)"
      using rest q(2) h1(3) by (simp add: holds_pointers_def)
    obtain h' where h': "free_entries b (length (qs @ [p])) (length ps) h1 = Some h'"
        "grown (B - {q} - set (targets ps)) h0 h'" "holds_pointers h' b ((qs @ [p]) @ ps @ rs)"
        "\<And>b'. b' \<notin> set (targets ps) \<Longrightarrow> h_block h' b' = h_block h1 b'"
      using Cons.IH [OF _ h1(2) rest1] Cons.prems(4-6) Some by auto
    have "B - {q} - set (targets ps) = B - set (targets (p # ps))" using Some by auto
    then show ?thesis
      using Cons.prems(1) [of h'] h' h1 load Some by (simp add: free_pointer_def)
  qed
qed

lemma free_string_vector_grown:
  assumes "grown B h0 h" and "holds_pointers h b (ps @ rs)" and "set (targets ps) \<subseteq> B"
    and "distinct (targets ps)" and "b \<in> B" and "b \<notin> set (targets ps)"
  obtains h' where "free_string_vector (Some b) (length ps) h = Some h'"
    and "grown (B - set (targets ps) - {b}) h0 h'"
    and "\<And>b'. b' \<notin> insert b (set (targets ps)) \<Longrightarrow> h_block h' b' = h_block h b'"
proof -
  obtain h1 where h1: "free_entries b 0 (length ps) h = Some h1" "grown (B - set (targets ps)) h0 h1"
      "\<And>b'. b' \<notin> set (targets ps) \<Longrightarrow> h_block h1 b' = h_block h b'"
    using free_entries_grown [of B h0 h b "[]" ps rs] assms by (metis append_Nil list.size(3))
  obtain h2 where h2: "free_block b h1 = Some h2" "grown (B - set (targets ps) - {b}) h0 h2"
      "\<And>b'. b' \<noteq> b \<Longrightarrow> h_block h2 b' = h_block h1 b'"
    using grown_free [OF h1(2), of b] assms(5,6) by blast
  show ?thesis
    by (rule that [of h2]) (use h1 h2 in \<open>simp_all add: free_string_vector_def\<close>)
qed

text \<open>The first \<open>count\<close> entries of a caller's vector.\<close>

definition vector_prefix :: "cstring option list option \<Rightarrow> nat \<Rightarrow> cstring option list" where
  "vector_prefix values count = (case values of None \<Rightarrow> replicate count None | Some v \<Rightarrow> take count v)"

definition vector_readable :: "cstring option list option \<Rightarrow> nat \<Rightarrow> bool" where
  "vector_readable values count \<longleftrightarrow> (case values of None \<Rightarrow> True | Some v \<Rightarrow> count \<le> length v)"

definition holds_strings :: "uheap \<Rightarrow> nat list \<Rightarrow> cstring list \<Rightarrow> bool" where
  "holds_strings h bs ss \<longleftrightarrow> list_all2 (holds_string h) bs ss"

lemma holds_strings_frame:
  "holds_strings h bs ss \<Longrightarrow> (\<And>b. b \<in> set bs \<Longrightarrow> h_block h' b = h_block h b) \<Longrightarrow> holds_strings h' bs ss"
  unfolding holds_strings_def by (erule list.rel_mono_strong) (simp add: holds_string_def)

lemma vector_at_prefix:
  "vector_readable values count \<Longrightarrow> i < count \<Longrightarrow> vector_at values i = Some (vector_prefix values count ! i)"
  by (cases "values") (auto simp: vector_readable_def vector_at_def vector_prefix_def)

lemma store_pointer:
  assumes "holds_pointers h b (ps @ p # qs)"
  obtains h' where "store b (length ps) (Pointer q) h = Some h'" and "holds_pointers h' b (ps @ q # qs)"
    and "\<And>b'. b' \<noteq> b \<Longrightarrow> h_block h' b' = h_block h b'"
  using assms by (auto simp: store_def holds_pointers_def list_update_append)

text \<open>The loop: it ends with all entries copied, or with every block it allocated freed, and the
  vector too.\<close>

lemma copy_entries_cases:
  assumes "grown B h0 h" and "holds_pointers h b (map Some bs @ replicate (n + extra) None)"
    and "holds_strings h bs ss" and "vector_readable values (length bs + n)"
    and "set bs \<subseteq> B" and "distinct bs" and "b \<in> B" and "b \<notin> set bs"
  shows "\<exists>r err' h'. copy_entries ok values b (length bs) n err h = Some (r, err', h') \<and>
    (case r of
       None \<Rightarrow> grown (B - set bs - {b}) h0 h' \<and> (\<forall>b'. b' \<notin> insert b (set bs) \<and> b' \<in> B \<longrightarrow> h_block h' b' = h_block h b') \<and>
         ((\<forall>n. ok n) \<longrightarrow> None \<in> set (drop (length bs) (vector_prefix values (length bs + n))))
     | Some b' \<Rightarrow> b' = b \<and> err' = err \<and> (\<exists>cs ts. grown (B \<union> set cs) h0 h' \<and> set cs \<inter> B = {} \<and> distinct cs \<and>
         holds_pointers h' b (map Some (bs @ cs) @ replicate extra None) \<and> holds_strings h' (bs @ cs) (ss @ ts) \<and>
         map Some ts = drop (length bs) (vector_prefix values (length bs + n)) \<and>
         (\<forall>b'. b' \<noteq> b \<and> b' \<in> B \<longrightarrow> h_block h' b' = h_block h b')))"
  using assms
proof (induction n arbitrary: B h bs ss)
  case 0
  have "length (vector_prefix values (length bs)) = length bs"
    using "0.prems"(4) by (cases "values") (auto simp: vector_prefix_def vector_readable_def)
  then show ?case using 0 by (auto intro!: exI [of _ "[]"])
next
  case (Suc n)
  let ?prefix = "vector_prefix values (length bs + Suc n)"
  have len: "length ?prefix = length bs + Suc n"
    using Suc.prems(4) by (cases "values") (auto simp: vector_prefix_def vector_readable_def)
  have at: "vector_at values (length bs) = Some (?prefix ! length bs)"
    using vector_at_prefix [OF Suc.prems(4)] by simp
  have drop: "drop (length bs) ?prefix = ?prefix ! length bs # drop (Suc (length bs)) ?prefix"
    using len by (intro Cons_nth_drop_Suc [symmetric]) simp
  have undo: "\<exists>h'. free_string_vector (Some b) (length bs) g = Some h' \<and> grown (B - set bs - {b}) h0 h' \<and>
      (\<forall>b'. b' \<notin> insert b (set bs) \<longrightarrow> h_block h' b' = h_block g b')"
    if "grown B h0 g" "holds_pointers g b (map Some bs @ qs)" for g qs
    using free_string_vector_grown [OF that, of thesis] Suc.prems(5-8)
      free_string_vector_grown [OF that] by (metis length_map targets_some)
  show ?case
  proof (cases "?prefix ! length bs")
    case None
    obtain h' where h': "free_string_vector (Some b) (length bs) h = Some h'" "grown (B - set bs - {b}) h0 h'"
        "\<forall>b'. b' \<notin> insert b (set bs) \<longrightarrow> h_block h' b' = h_block h b'"
      using undo [OF Suc.prems(1,2)] by blast
    then show ?thesis using at None drop by simp
  next
    case (Some s)
    from Suc.prems(1) show ?thesis
    proof (cases rule: copy_string_grown [where ok = ok and s = s])
      case (fail h1)
      have "holds_pointers h1 b (map Some bs @ None # replicate (n + extra) None)"
        using Suc.prems(2) fail(3) by (simp add: holds_pointers_def)
      then have "holds_pointers h1 b (map Some bs @ None # replicate (n + extra) None)"
        and "length (map Some bs) = length bs" by simp_all
      then obtain h2 where h2: "store b (length bs) (Pointer None) h1 = Some h2"
          "holds_pointers h2 b (map Some bs @ None # replicate (n + extra) None)"
          "\<And>b'. b' \<noteq> b \<Longrightarrow> h_block h2 b' = h_block h1 b'"
        using store_pointer by metis
      have "grown B h0 h2" using grown_store [OF fail(2) h2(1) Suc.prems(7)] .
      then obtain h' where h': "free_string_vector (Some b) (length bs) h2 = Some h'" "grown (B - set bs - {b}) h0 h'"
          "\<forall>b'. b' \<notin> insert b (set bs) \<longrightarrow> h_block h' b' = h_block h2 b'"
        using undo h2(2) by blast
      then show ?thesis using at Some fail h2 by auto
    next
      case (copied c h1)
      have cb: "c \<noteq> b" using copied(3) Suc.prems(7) by auto
      have "holds_pointers h1 b (map Some bs @ None # replicate (n + extra) None)"
        using Suc.prems(2) copied(5) cb by (simp add: holds_pointers_def)
      then obtain h2 where h2: "store b (length (map Some bs)) (Pointer (Some c)) h1 = Some h2"
          "holds_pointers h2 b (map Some bs @ Some c # replicate (n + extra) None)"
          "\<And>b'. b' \<noteq> b \<Longrightarrow> h_block h2 b' = h_block h1 b'"
        using store_pointer by blast
      have g2: "grown (insert c B) h0 h2"
        using grown_store [OF copied(2) h2(1)] Suc.prems(7) by simp
      have old: "h_block h2 b' = h_block h b'" if "b' \<noteq> b" "b' \<noteq> c" for b'
        using that h2(3) copied(5) by simp
      have bs: "c \<notin> set bs" using copied(3) Suc.prems(5) by auto
      have strings: "holds_strings h2 (bs @ [c]) (ss @ [s])"
      proof -
        have "holds_strings h2 bs ss"
          using Suc.prems(3) by (rule holds_strings_frame) (metis old bs Suc.prems(8))
        moreover have "holds_string h2 c s" using copied(4) h2(3) cb by (simp add: holds_string_def)
        ultimately show ?thesis by (simp add: holds_strings_def list_all2_appendI)
      qed
      have readable: "vector_readable values (length (bs @ [c]) + n)" using Suc.prems(4) by simp
      have pointers: "holds_pointers h2 b (map Some (bs @ [c]) @ replicate (n + extra) None)" using h2(2) by simp
      have sets: "set (bs @ [c]) \<subseteq> insert c B" "distinct (bs @ [c])" "b \<in> insert c B" "b \<notin> set (bs @ [c])"
        using Suc.prems(5-8) bs cb by auto
      have prefix: "vector_prefix values (length (bs @ [c]) + n) = ?prefix" by simp
      obtain r err' h' where
        r: "copy_entries ok values b (length (bs @ [c])) n err h2 = Some (r, err', h')"
        "case r of
           None \<Rightarrow> grown (insert c B - set (bs @ [c]) - {b}) h0 h' \<and>
             (\<forall>b'. b' \<notin> insert b (set (bs @ [c])) \<and> b' \<in> insert c B \<longrightarrow> h_block h' b' = h_block h2 b') \<and>
             ((\<forall>n. ok n) \<longrightarrow> None \<in> set (drop (length (bs @ [c])) ?prefix))
         | Some b' \<Rightarrow> b' = b \<and> err' = err \<and> (\<exists>cs ts. grown (insert c B \<union> set cs) h0 h' \<and> set cs \<inter> insert c B = {} \<and>
             distinct cs \<and> holds_pointers h' b (map Some ((bs @ [c]) @ cs) @ replicate extra None) \<and>
             holds_strings h' ((bs @ [c]) @ cs) ((ss @ [s]) @ ts) \<and> map Some ts = drop (length (bs @ [c])) ?prefix \<and>
             (\<forall>b'. b' \<noteq> b \<and> b' \<in> insert c B \<longrightarrow> h_block h' b' = h_block h2 b'))"
        using Suc.IH [OF g2 pointers strings readable sets] unfolding prefix by blast
      have run: "copy_entries ok values b (length bs) (Suc n) err h = Some (r, err', h')"
        using at Some copied(1) h2(1) r(1) by simp
      show ?thesis
      proof (cases r)
        case None
        have "insert c B - set (bs @ [c]) - {b} = B - set bs - {b}" using copied(3) by auto
        then show ?thesis using run r(2) None drop Some old by auto
      next
        case (Some b')
        then obtain cs ts where *: "grown (insert c B \<union> set cs) h0 h'" "set cs \<inter> insert c B = {}" "distinct cs"
            "holds_pointers h' b (map Some ((bs @ [c]) @ cs) @ replicate extra None)"
            "holds_strings h' ((bs @ [c]) @ cs) ((ss @ [s]) @ ts)" "map Some ts = drop (length (bs @ [c])) ?prefix"
            "\<forall>b'. b' \<noteq> b \<and> b' \<in> insert c B \<longrightarrow> h_block h' b' = h_block h2 b'" "b' = b" "err' = err"
          using r(2) by auto
        have "B \<union> set (c # cs) = insert c B \<union> set cs" by auto
        with * copied(3) drop \<open>?prefix ! length bs = Some s\<close> old show ?thesis
          unfolding run using Some by (auto intro!: exI [of _ "c # cs"] exI [of _ "s # ts"])
      qed
    qed
  qed
qed

subsection \<open>Copied vectors\<close>

definition string_vector :: "uheap \<Rightarrow> nat \<Rightarrow> nat list \<Rightarrow> nat \<Rightarrow> cstring list \<Rightarrow> bool" where
  "string_vector h b bs extra ss \<longleftrightarrow> holds_pointers h b (map Some bs @ replicate extra None) \<and>
     holds_strings h bs ss \<and> distinct bs \<and> b \<notin> set bs"

lemma string_vector_frame:
  "string_vector h b bs extra ss \<Longrightarrow> (\<And>b'. b' \<in> insert b (set bs) \<Longrightarrow> h_block h' b' = h_block h b') \<Longrightarrow>
    string_vector h' b bs extra ss"
  unfolding string_vector_def by (auto simp: holds_pointers_def intro: holds_strings_frame)

lemma string_vector_length: "string_vector h b bs extra ss \<Longrightarrow> length bs = length ss"
  by (auto simp: string_vector_def holds_strings_def dest: list_all2_lengthD)

text \<open>The count is valid and no entry is NULL.\<close>

definition vector_ok :: "cstring option list option \<Rightarrow> i32 \<Rightarrow> i32 \<Rightarrow> bool" where
  "vector_ok values count extra \<longleftrightarrow> 0 \<le> sint count \<and> 0 \<le> sint extra \<and> sint count \<le> 2147483647 - sint extra \<and>
     None \<notin> set (vector_prefix values (nat (sint count)))"

lemma copy_string_vector_cases:
  assumes g: "grown B h0 h" and readable: "vector_readable values (nat (sint count))"
  obtains (fail) err' h' where "copy_string_vector ok values count extra err h = Some (None, err', h')"
      "grown B h0 h'" "\<And>b'. b' \<in> B \<Longrightarrow> h_block h' b' = h_block h b'" "\<not> ((\<forall>n. ok n) \<and> vector_ok values count extra)"
  | (copied) b bs ss h' where "copy_string_vector ok values count extra err h = Some (Some b, err, h')"
      "grown (B \<union> insert b (set bs)) h0 h'" "insert b (set bs) \<inter> B = {}"
      "string_vector h' b bs (nat (sint extra)) ss" "map Some ss = vector_prefix values (nat (sint count))"
      "\<And>b'. b' \<in> B \<Longrightarrow> h_block h' b' = h_block h b'" "0 \<le> sint count" "length ss = nat (sint count)"
proof (cases "sint count < 0 \<or> sint extra < 0 \<or> sint count > 2147483647 - sint extra")
  case True
  show ?thesis
    by (rule fail) (use True g in \<open>auto simp: copy_string_vector_def vector_ok_def\<close>)
next
  case False
  let ?n = "nat (sint count)" and ?e = "nat (sint extra)"
  note unfold = copy_string_vector_def
  from g show ?thesis
  proof (cases rule: grown_malloc [of B h0 h ok "replicate (?n + ?e) (Some (Pointer None))"])
    case (fail h1)
    show ?thesis by (rule that(1) [OF _ fail(3)]) (use fail False in \<open>auto simp: unfold\<close>)
  next
    case (block h1)
    let ?b = "h_next h"
    let ?nil = "[] :: nat list"
    have "holds_pointers h1 ?b (map Some ?nil @ replicate (?n + ?e) None)"
      using block(4) by (simp add: holds_pointers_def)
    moreover have "holds_strings h1 ?nil []" by (simp add: holds_strings_def)
    moreover have "vector_readable values (length ?nil + ?n)" using readable by simp
    moreover have "set ?nil \<subseteq> insert ?b B" "distinct ?nil" "?b \<in> insert ?b B" "?b \<notin> set ?nil" by simp_all
    ultimately obtain r err' h' where r:
      "copy_entries ok values ?b (length ?nil) ?n err h1 = Some (r, err', h')"
      "case r of
         None \<Rightarrow> grown (insert ?b B - set ?nil - {?b}) h0 h' \<and>
           (\<forall>b'. b' \<notin> insert ?b (set ?nil) \<and> b' \<in> insert ?b B \<longrightarrow> h_block h' b' = h_block h1 b') \<and>
           ((\<forall>n. ok n) \<longrightarrow> None \<in> set (drop (length ?nil) (vector_prefix values (length ?nil + ?n))))
       | Some b' \<Rightarrow> b' = ?b \<and> err' = err \<and> (\<exists>cs ts. grown (insert ?b B \<union> set cs) h0 h' \<and> set cs \<inter> insert ?b B = {} \<and>
           distinct cs \<and> holds_pointers h' ?b (map Some (?nil @ cs) @ replicate ?e None) \<and>
           holds_strings h' (?nil @ cs) ([] @ ts) \<and> map Some ts = drop (length ?nil) (vector_prefix values (length ?nil + ?n)) \<and>
           (\<forall>b'. b' \<noteq> ?b \<and> b' \<in> insert ?b B \<longrightarrow> h_block h' b' = h_block h1 b'))"
      using copy_entries_cases [OF block(2)] by blast
    have run: "copy_string_vector ok values count extra err h = Some (r, err', h')"
      using False block(1) r(1) by (simp add: unfold)
    have old: "h_block h1 b' = h_block h b'" if "b' \<in> B" for b'
      using that block(3,4) by auto
    show ?thesis
    proof (cases r)
      case None
      show ?thesis
      proof (rule that(1))
        show "copy_string_vector ok values count extra err h = Some (None, err', h')" using run None by simp
        show "grown B h0 h'" using r(2) None block(3) by simp
        show "h_block h' b' = h_block h b'" if "b' \<in> B" for b'
        proof -
          have "b' \<noteq> ?b" using block(3) that by blast
          then show ?thesis using r(2) None old [OF that] that by simp
        qed
        show "\<not> ((\<forall>n. ok n) \<and> vector_ok values count extra)"
          using r(2) None by (auto simp: vector_ok_def)
      qed
    next
      case (Some b')
      then obtain cs ts where *: "grown (insert ?b B \<union> set cs) h0 h'" "set cs \<inter> insert ?b B = {}" "distinct cs"
          "holds_pointers h' ?b (map Some cs @ replicate ?e None)" "holds_strings h' cs ts"
          "map Some ts = vector_prefix values ?n" "\<forall>b'. b' \<noteq> ?b \<and> b' \<in> insert ?b B \<longrightarrow> h_block h' b' = h_block h1 b'"
          "b' = ?b" "err' = err"
        using r(2) by auto
      have "length (vector_prefix values ?n) = ?n"
        using readable by (cases "values") (auto simp: vector_prefix_def vector_readable_def)
      then have "length ts = ?n" using *(6) by (metis length_map)
      moreover have "insert ?b B \<union> set cs = B \<union> insert ?b (set cs)" by auto
      moreover have "h_block h' c = h_block h c" if "c \<in> B" for c
      proof -
        have "c \<noteq> ?b" using block(3) that by blast
        then show ?thesis using *(7) old [OF that] that by simp
      qed
      ultimately show ?thesis
        using that(2) [of ?b h' cs ts] run Some * block(3) False
        by (simp add: string_vector_def Int_commute)
    qed
  qed
qed

lemma free_copied_vector:
  assumes "grown B h0 h" and "string_vector h b bs extra ss" and "insert b (set bs) \<subseteq> B" and "length ss = n"
  obtains h' where "free_string_vector (Some b) n h = Some h'" and "grown (B - insert b (set bs)) h0 h'"
    and "\<And>b'. b' \<notin> insert b (set bs) \<Longrightarrow> h_block h' b' = h_block h b'"
proof -
  have "holds_pointers h b (map Some bs @ replicate extra None)" and "length (map Some bs) = n"
    and "distinct bs" and "b \<notin> set bs"
    using assms(2,4) string_vector_length [OF assms(2)] by (simp_all add: string_vector_def)
  then obtain h' where h': "free_string_vector (Some b) n h = Some h'" "grown (B - set bs - {b}) h0 h'"
      "\<And>b'. b' \<notin> insert b (set bs) \<Longrightarrow> h_block h' b' = h_block h b'"
    using free_string_vector_grown [OF assms(1), of b "map Some bs"] assms(3)
    by (metis insert_subset targets_some)
  moreover have "B - set bs - {b} = B - insert b (set bs)" by auto
  ultimately show ?thesis by (metis that)
qed

text \<open>A string that may be NULL, as one of the new blocks.\<close>

definition pointer_blocks :: "nat option \<Rightarrow> nat set" where
  "pointer_blocks p = (case p of None \<Rightarrow> {} | Some b \<Rightarrow> {b})"

definition copied_string :: "uheap \<Rightarrow> nat option \<Rightarrow> cstring option \<Rightarrow> bool" where
  "copied_string h p v \<longleftrightarrow> (case p of None \<Rightarrow> v = None | Some b \<Rightarrow> \<exists>s. v = Some s \<and> holds_string h b s)"

lemma copy_pointer_cases:
  assumes "grown B h0 h"
  obtains (fail) h' where "copy_string ok v h = Some (None, h')" "v \<noteq> None" "grown B h0 h'"
      "\<And>b'. b' \<in> B \<Longrightarrow> h_block h' b' = h_block h b'" "\<not> (\<forall>n. ok n)"
  | (copied) p h' where "copy_string ok v h = Some (p, h')" "v \<noteq> None \<longrightarrow> p \<noteq> None"
      "grown (B \<union> pointer_blocks p) h0 h'" "pointer_blocks p \<inter> B = {}" "copied_string h' p v"
      "\<And>b'. b' \<in> B \<Longrightarrow> h_block h' b' = h_block h b'"
proof (cases v)
  case None
  show ?thesis
    by (rule copied [of None h])
      (use None assms in \<open>auto simp: copy_string_def pointer_blocks_def copied_string_def\<close>)
next
  case (Some s)
  from assms show ?thesis
  proof (cases rule: copy_string_grown [where ok = ok and s = s])
    case (fail h')
    show ?thesis by (rule that(1) [of h']) (use fail Some in auto)
  next
    case (copied b h')
    show ?thesis
    proof (rule that(2) [of "Some b" h'])
      show "h_block h' b' = h_block h b'" if "b' \<in> B" for b'
        using copied(3,5) that by metis
    qed (use copied Some in \<open>auto simp: pointer_blocks_def copied_string_def\<close>)
  qed
qed

lemma copied_string_frame:
  "copied_string h p v \<Longrightarrow> (\<And>b. b \<in> pointer_blocks p \<Longrightarrow> h_block h' b = h_block h b) \<Longrightarrow> copied_string h' p v"
  by (auto simp: copied_string_def pointer_blocks_def holds_string_def split: option.splits)

lemma free_pointer_grown:
  assumes "grown B h0 h" and "pointer_blocks p \<subseteq> B"
  obtains h' where "free_pointer p h = Some h'" and "grown (B - pointer_blocks p) h0 h'"
    and "\<And>b'. b' \<notin> pointer_blocks p \<Longrightarrow> h_block h' b' = h_block h b'"
proof (cases p)
  case None
  show ?thesis by (rule that [of h]) (use None assms in \<open>simp_all add: free_pointer_def pointer_blocks_def\<close>)
next
  case (Some b)
  then obtain h' where "free_block b h = Some h'" "grown (B - {b}) h0 h'"
      "\<And>b'. b' \<noteq> b \<Longrightarrow> h_block h' b' = h_block h b'"
    using grown_free [OF assms(1), of b] assms(2) by (auto simp: pointer_blocks_def)
  then show ?thesis using Some by (intro that [of h']) (simp_all add: free_pointer_def pointer_blocks_def)
qed

subsection \<open>The copy of the options\<close>

text \<open>Where the copies are and what they hold; the options structure points to them.\<close>

definition clone_of :: "uheap \<Rightarrow> owned_options \<Rightarrow> spawn_options \<Rightarrow> bool" where
  "clone_of h w src \<longleftrightarrow> copied_string h (ow_executable w) (sp_executable src) \<and>
     copied_string h (ow_working_directory w) (sp_working_directory src) \<and>
     (\<exists>b bs ss. ow_arguments w = Some b \<and> string_vector h b bs 1 ss \<and>
       map Some ss = vector_prefix (sp_arguments src) (nat (sint (sp_argument_count src)))) \<and>
     (\<exists>b bs ss. ow_environment w = Some b \<and> string_vector h b bs 1 ss \<and>
       map Some ss = vector_prefix (sp_environment src) (nat (sint (sp_environment_count src)))) \<and>
     ow_argument_count w = sp_argument_count src \<and> ow_environment_count w = sp_environment_count src \<and>
     ow_options_executable w = CopyPointer (ow_executable w) \<and>
     ow_options_arguments w = CopyPointer (ow_arguments w) \<and>
     ow_options_environment w = CopyPointer (ow_environment w) \<and>
     ow_options_working_directory w = CopyPointer (ow_working_directory w)"

text \<open>What is freed: each field that is not NULL.\<close>

definition owned_vector :: "uheap \<Rightarrow> nat option \<Rightarrow> nat \<Rightarrow> nat set \<Rightarrow> bool" where
  "owned_vector h v count F \<longleftrightarrow> (case v of None \<Rightarrow> F = {}
     | Some b \<Rightarrow> \<exists>bs ss. string_vector h b bs 1 ss \<and> length ss = count \<and> F = insert b (set bs))"

lemma owned_vector_frame:
  "owned_vector h v n F \<Longrightarrow> (\<And>b. b \<in> F \<Longrightarrow> h_block h' b = h_block h b) \<Longrightarrow> owned_vector h' v n F"
  unfolding owned_vector_def by (cases v) (simp, simp, metis insert_iff string_vector_frame)

lemma free_owned_vector:
  assumes "grown B h0 h" and "owned_vector h v n F" and "F \<subseteq> B"
  obtains h' where "free_string_vector v n h = Some h'" and "grown (B - F) h0 h'"
    and "\<And>b. b \<notin> F \<Longrightarrow> h_block h' b = h_block h b"
proof (cases v)
  case None
  show ?thesis
    by (rule that [of h]) (use None assms in \<open>simp_all add: free_string_vector_def owned_vector_def\<close>)
next
  case (Some b)
  then obtain bs ss where v: "string_vector h b bs 1 ss" "length ss = n" "F = insert b (set bs)"
    using assms(2) by (auto simp: owned_vector_def)
  show ?thesis
    by (rule free_copied_vector [OF assms(1) v(1) _ v(2)]) (use assms(3) v(3) Some that in auto)
qed

lemma free_options_grown:
  assumes "grown B h0 h" and "B = pointer_blocks (ow_executable w) \<union> F \<union> G \<union> pointer_blocks (ow_working_directory w)"
    and "owned_vector h (ow_arguments w) (nat (sint (ow_argument_count w))) F"
    and "owned_vector h (ow_environment w) (nat (sint (ow_environment_count w))) G"
    and "pointer_blocks (ow_executable w) \<inter> (F \<union> G \<union> pointer_blocks (ow_working_directory w)) = {}"
    and "F \<inter> (G \<union> pointer_blocks (ow_working_directory w)) = {}"
    and "G \<inter> pointer_blocks (ow_working_directory w) = {}"
  shows "\<exists>h'. pty_unix_free_options (Some w) h = Some (Some zero_options, h') \<and> h_block h' = h_block h0"
proof -
  let ?E = "pointer_blocks (ow_executable w)" and ?W = "pointer_blocks (ow_working_directory w)"
  obtain h1 where h1: "free_pointer (ow_executable w) h = Some h1" "grown (B - ?E) h0 h1"
      "\<And>b. b \<notin> ?E \<Longrightarrow> h_block h1 b = h_block h b"
    using free_pointer_grown [OF assms(1)] assms(2) by (metis Un_assoc sup_ge1)
  have "owned_vector h1 (ow_arguments w) (nat (sint (ow_argument_count w))) F"
    by (rule owned_vector_frame [OF assms(3)]) (use h1(3) assms(5) in auto)
  moreover have "F \<subseteq> B - ?E" using assms(2,5) by auto
  ultimately obtain h2 where h2: "free_string_vector (ow_arguments w) (nat (sint (ow_argument_count w))) h1 = Some h2"
      "grown (B - ?E - F) h0 h2" "\<And>b. b \<notin> F \<Longrightarrow> h_block h2 b = h_block h1 b"
    using free_owned_vector [OF h1(2)] by blast
  have "owned_vector h2 (ow_environment w) (nat (sint (ow_environment_count w))) G"
  proof (rule owned_vector_frame [OF assms(4)])
    fix b
    assume "b \<in> G"
    then have "b \<notin> ?E" "b \<notin> F" using assms(5,6) by blast+
    then show "h_block h2 b = h_block h b" using h1(3) h2(3) by simp
  qed
  moreover have "G \<subseteq> B - ?E - F" using assms(2,5,6) by auto
  ultimately obtain h3 where h3: "free_string_vector (ow_environment w) (nat (sint (ow_environment_count w))) h2 = Some h3"
      "grown (B - ?E - F - G) h0 h3"
    using free_owned_vector [OF h2(2)] by blast
  have "?W \<subseteq> B - ?E - F - G" using assms(2,5-7) by auto
  then obtain h4 where h4: "free_pointer (ow_working_directory w) h3 = Some h4" "grown (B - ?E - F - G - ?W) h0 h4"
    using free_pointer_grown [OF h3(2)] by blast
  have "B - ?E - F - G - ?W = {}" using assms(2) by auto
  then have "h_block h4 = h_block h0" using h4(2) grown_empty by metis
  then show ?thesis using h1(1) h2(1) h3(1) h4(1) by (simp add: pty_unix_free_options_def)
qed

lemma owned_none [simp]: "owned_vector h None n {}"
  by (simp add: owned_vector_def)

lemma pointer_blocks_none [simp]: "pointer_blocks None = {}"
  by (simp add: pointer_blocks_def)

definition clone_succeeds :: "allocator \<Rightarrow> spawn_options \<Rightarrow> bool" where
  "clone_succeeds ok src \<longleftrightarrow> (\<forall>n. ok n) \<and> vector_ok (sp_arguments src) (sp_argument_count src) 1 \<and>
     vector_ok (sp_environment src) (sp_environment_count src) 1"

lemma clone_options_cases:
  assumes h: "heap_ok h" and args: "vector_readable (sp_arguments src) (nat (sint (sp_argument_count src)))"
    and env: "vector_readable (sp_environment src) (nat (sint (sp_environment_count src)))"
  obtains (fail) w err' h' where "pty_unix_clone_options ok (Some src) (Some d) err h = Some (False, Some w, err', h')"
      "h_block h' = h_block h" "\<not> clone_succeeds ok src"
      "pty_unix_free_options (Some w) h' = Some (Some zero_options, h')"
  | (cloned) w h' h'' where "pty_unix_clone_options ok (Some src) (Some d) err h = Some (True, Some w, err, h')"
      "clone_of h' w src" "pty_unix_free_options (Some w) h' = Some (Some zero_options, h'')" "h_block h'' = h_block h"
proof -
  let ?m = "nat (sint (sp_argument_count src))" and ?n = "nat (sint (sp_environment_count src))"
  let ?w0 = "zero_options\<lparr>ow_argument_count := sp_argument_count src,
                    ow_environment_count := sp_environment_count src,
                    ow_options_executable := CallerPointer, ow_options_arguments := CallerPointer,
                    ow_options_environment := CallerPointer, ow_options_working_directory := CallerPointer\<rparr>"
  note unfold = pty_unix_clone_options_def Let_def
  have one: "nat (sint (1 :: i32)) = 1" by simp
  have zero: "pty_unix_free_options (Some zero_options) g = Some (Some zero_options, g)" for g
    by (simp add: pty_unix_free_options_def zero_options_def free_pointer_def free_string_vector_def)
  from grown_refl [OF h] show ?thesis
  proof (cases rule: copy_pointer_cases [where ok = ok and v = "sp_executable src"])
    case (fail h1)
    show ?thesis
    proof (rule that(1))
      show "pty_unix_free_options (Some (?w0\<lparr>ow_executable := None\<rparr>)) h1 = Some (Some zero_options, h1)"
        by (simp add: pty_unix_free_options_def zero_options_def free_pointer_def free_string_vector_def)
    qed (use fail grown_empty in \<open>auto simp: unfold clone_succeeds_def\<close>)
  next
    case (copied exe h1)
    note exe = this
    let ?E = "pointer_blocks exe"
    have g1: "grown ?E h h1" using exe(3) by simp
    from g1 args show ?thesis
    proof (cases rule: copy_string_vector_cases [where ok = ok and extra = 1 and err = err])
      case (fail err2 h2)
      have "\<exists>h'. pty_unix_free_options (Some (?w0\<lparr>ow_executable := exe, ow_arguments := None\<rparr>)) h2 =
          Some (Some zero_options, h') \<and> h_block h' = h_block h"
        by (rule free_options_grown [OF fail(2), where F = "{}" and G = "{}"]) (simp_all add: zero_options_def)
      then obtain h' where "pty_unix_free_options (Some (?w0\<lparr>ow_executable := exe, ow_arguments := None\<rparr>)) h2 =
          Some (Some zero_options, h')" "h_block h' = h_block h"
        by blast
      then show ?thesis
        by (intro that(1) [of zero_options err2 h'])
          (use exe(1,2) fail(1,4) zero in \<open>auto simp: unfold clone_succeeds_def\<close>)
    next
      case (copied b bs ss h2)
      note arguments = this
      let ?F = "insert b (set bs)"
      have owned2: "owned_vector h2 (Some b) ?m ?F"
        using arguments(4,8) by (auto simp: owned_vector_def)
      from arguments(2) env show ?thesis
      proof (cases rule: copy_string_vector_cases [where ok = ok and extra = 1 and err = err])
        case (fail err3 h3)
        have "owned_vector h3 (Some b) ?m ?F"
          by (rule owned_vector_frame [OF owned2]) (use fail(3) in auto)
        then have "\<exists>h'. pty_unix_free_options (Some (?w0\<lparr>ow_executable := exe, ow_arguments := Some b,
            ow_environment := None\<rparr>)) h3 = Some (Some zero_options, h') \<and> h_block h' = h_block h"
          using arguments(3)
          by (intro free_options_grown [OF fail(2), where F = ?F and G = "{}"]) (auto simp: zero_options_def)
        then obtain h' where "pty_unix_free_options (Some (?w0\<lparr>ow_executable := exe, ow_arguments := Some b,
            ow_environment := None\<rparr>)) h3 = Some (Some zero_options, h')" "h_block h' = h_block h"
          by blast
        then show ?thesis
          by (intro that(1) [of zero_options err3 h'])
            (use exe(1,2) arguments(1) fail(1,4) zero in \<open>auto simp: unfold clone_succeeds_def\<close>)
      next
        case (copied c cs ts h3)
        note environment = this
        let ?G = "insert c (set cs)"
        have owned3: "owned_vector h3 (Some b) ?m ?F" "owned_vector h3 (Some c) ?n ?G"
          using owned_vector_frame [OF owned2] environment(4,6,8) by (auto simp: owned_vector_def)
        from environment(2) show ?thesis
        proof (cases rule: copy_pointer_cases [where ok = ok and v = "sp_working_directory src"])
          case (fail h4)
          have owned4: "owned_vector h4 (Some b) ?m ?F" "owned_vector h4 (Some c) ?n ?G"
            by (rule owned_vector_frame [OF owned3(1)] owned_vector_frame [OF owned3(2)]; use fail(4) in auto)+
          then have "\<exists>h'. pty_unix_free_options (Some (?w0\<lparr>ow_executable := exe, ow_arguments := Some b,
              ow_environment := Some c, ow_working_directory := None\<rparr>)) h4 =
              Some (Some zero_options, h') \<and> h_block h' = h_block h"
            using arguments(3) environment(3)
            by (intro free_options_grown [OF fail(3), where F = ?F and G = ?G]) (auto simp: zero_options_def)
          then obtain h' where "pty_unix_free_options (Some (?w0\<lparr>ow_executable := exe, ow_arguments := Some b,
              ow_environment := Some c, ow_working_directory := None\<rparr>)) h4 = Some (Some zero_options, h')"
              "h_block h' = h_block h"
            by blast
          then show ?thesis
            by (intro that(1) [of zero_options _ h'])
              (use exe(1,2) arguments(1) environment(1) fail(1,2,5) zero in \<open>auto simp: unfold clone_succeeds_def\<close>)
        next
          case (copied wd h4)
          note wd = this
          let ?w = "?w0\<lparr>ow_executable := exe, ow_arguments := Some b, ow_environment := Some c,
              ow_working_directory := wd, ow_options_executable := CopyPointer exe,
              ow_options_arguments := CopyPointer (Some b), ow_options_environment := CopyPointer (Some c),
              ow_options_working_directory := CopyPointer wd\<rparr>"
          have owned4: "owned_vector h4 (Some b) ?m ?F" "owned_vector h4 (Some c) ?n ?G"
            by (rule owned_vector_frame [OF owned3(1)] owned_vector_frame [OF owned3(2)]; use wd(6) in auto)+
          then have free: "\<exists>h'. pty_unix_free_options (Some ?w) h4 = Some (Some zero_options, h') \<and> h_block h' = h_block h"
            using arguments(3) environment(3) wd(4)
            by (intro free_options_grown [OF wd(3), where F = ?F and G = ?G]) (auto simp: zero_options_def)
          have keep: "h_block h4 x = h_block h2 x" if "x \<in> ?E \<union> ?F" for x
          proof -
            have "x \<in> ?E \<union> ?F \<union> ?G" using that by blast
            from environment(6) [OF that] wd(6) [OF this] show ?thesis by simp
          qed
          have "copied_string h4 exe (sp_executable src)"
            by (rule copied_string_frame [OF exe(5)]) (simp add: keep arguments(6))
          moreover have "string_vector h4 b bs 1 ss"
            by (rule string_vector_frame [OF arguments(4) [unfolded one]], rule keep) blast
          moreover have "string_vector h4 c cs 1 ts"
            by (rule string_vector_frame [OF environment(4) [unfolded one]], rule wd(6)) blast
          ultimately have "clone_of h4 ?w src"
            using arguments(5) environment(5) wd(5) by (auto simp: clone_of_def zero_options_def)
          moreover obtain h' where "pty_unix_free_options (Some ?w) h4 = Some (Some zero_options, h')"
              "h_block h' = h_block h"
            using free by blast
          moreover have "\<not> (sp_executable src \<noteq> None \<and> exe = None)"
            "\<not> (sp_working_directory src \<noteq> None \<and> wd = None)"
            using exe(2) wd(2) by blast+
          then have "pty_unix_clone_options ok (Some src) (Some d) err h = Some (True, Some ?w, err, h4)"
            using exe(1) arguments(1) environment(1) wd(1) by (auto simp: unfold)
          ultimately show ?thesis by (intro that(2))
        qed
      qed
    qed
  qed
qed

subsection \<open>Properties\<close>

text \<open>C18: \<open>pty_unix_clone_options\<close> touches no memory it does not own, whatever the allocator
  answers and whatever the vectors hold. On success the destination is a copy of the source, string
  by string, and its options point to the copies only. In every case \<open>pty_unix_free_options\<close> gives
  back exactly the blocks the copy allocated; after a failure there are none, and a failure has a
  cause: an allocation, a NULL entry or an invalid count.\<close>

theorem clone_options_correct:
  assumes "heap_ok h" and "vector_readable (sp_arguments src) (nat (sint (sp_argument_count src)))"
    and "vector_readable (sp_environment src) (nat (sint (sp_environment_count src)))"
  shows "\<exists>r w err' h' h''. pty_unix_clone_options ok (Some src) (Some d) err h = Some (r, Some w, err', h') \<and>
    pty_unix_free_options (Some w) h' = Some (Some zero_options, h'') \<and> h_block h'' = h_block h \<and>
    (r \<longrightarrow> clone_of h' w src) \<and> (\<not> r \<longrightarrow> h_block h' = h_block h \<and> \<not> clone_succeeds ok src)"
  using assms
proof (cases rule: clone_options_cases [where ok = ok and d = d and err = err])
  case (fail w err' h')
  then show ?thesis by (intro exI [of _ False] exI [of _ w] exI [of _ err'] exI [of _ h'] exI [of _ h']) simp
next
  case (cloned w h' h'')
  then show ?thesis by (intro exI [of _ True] exI [of _ w] exI [of _ err] exI [of _ h'] exI [of _ h'']) simp
qed

definition example_spawn_options :: spawn_options where
  "example_spawn_options =
     \<lparr>sp_executable = Some [115, 104], sp_arguments = Some [Some [45, 99], Some []], sp_argument_count = 2,
      sp_environment = Some [Some [80, 61, 47]], sp_environment_count = 1, sp_working_directory = None,
      sp_size = \<lparr>size_rows = 24, size_columns = 80, size_pixel_width = 0, size_pixel_height = 0\<rparr>\<rparr>"

definition no_blocks :: uheap where
  "no_blocks = \<lparr>h_next = 0, h_block = \<lambda>_. None\<rparr>"

theorem clone_options_correct_witness:
  "\<exists>w err' h' h''. pty_unix_clone_options (\<lambda>_. True) (Some example_spawn_options) (Some zero_options) None no_blocks =
      Some (True, Some w, err', h') \<and> clone_of h' w example_spawn_options \<and>
    pty_unix_free_options (Some w) h' = Some (Some zero_options, h'') \<and> h_block h'' = h_block no_blocks"
proof -
  have ok: "heap_ok no_blocks"
    and args: "vector_readable (sp_arguments example_spawn_options) (nat (sint (sp_argument_count example_spawn_options)))"
    and env: "vector_readable (sp_environment example_spawn_options) (nat (sint (sp_environment_count example_spawn_options)))"
    and succeeds: "clone_succeeds (\<lambda>_. True) example_spawn_options"
    by (simp_all add: heap_ok_def no_blocks_def vector_readable_def example_spawn_options_def clone_succeeds_def
        vector_ok_def vector_prefix_def)
  obtain r w err' h' h'' where
    "pty_unix_clone_options (\<lambda>_. True) (Some example_spawn_options) (Some zero_options) None no_blocks =
      Some (r, Some w, err', h')"
    "pty_unix_free_options (Some w) h' = Some (Some zero_options, h'')" "h_block h'' = h_block no_blocks"
    "r \<longrightarrow> clone_of h' w example_spawn_options" "\<not> r \<longrightarrow> \<not> clone_succeeds (\<lambda>_. True) example_spawn_options"
    using clone_options_correct [OF ok args env, where ok = "\<lambda>_. True" and d = zero_options and err = None] by metis
  with succeeds show ?thesis by auto
qed

end
