(* ===== verification/Unix_Path.thy ===== *)
theory Unix_Path
  imports Unix_Options
begin

section \<open>Finding the executable (unix/pty_unix_spawn.c)\<close>

text \<open>
  What \<open>access(path, X_OK)\<close> and \<open>stat\<close> answer are arguments: \<open>access\<close> gives 0 or the error number. A
  function that may fail returns the error number it leaves in \<open>errno\<close>.
\<close>

type_synonym access_answer = "cstring \<Rightarrow> i32"

abbreviation (input) SLASH :: u8 where "SLASH \<equiv> 47"
abbreviation (input) COLON :: u8 where "COLON \<equiv> 58"

fun chars_of :: "cell option list \<Rightarrow> cstring option" where
  "chars_of (Some (Char c) # cells) = (if c = 0 then Some [] else map_option ((#) c) (chars_of cells))"
| "chars_of _ = None"

definition read_string :: "uheap \<Rightarrow> nat \<Rightarrow> cstring option" where
  "read_string h b = (case h_block h b of None \<Rightarrow> None | Some cells \<Rightarrow> chars_of cells)"

text \<open>The value of the first entry \<open>key=value\<close>; NULL entries are skipped.\<close>

primrec environment_entries :: "cstring option list \<Rightarrow> cstring \<Rightarrow> cstring option" where
  "environment_entries [] key = None"
| "environment_entries (entry # entries) key =
     (case entry of
        None \<Rightarrow> environment_entries entries key
      | Some e \<Rightarrow>
          if take (length key) e \<noteq> key then environment_entries entries key
          else if length key < length e \<and> e ! length key = 61 then Some (drop (length key + 1) e)
          else environment_entries entries key)"

definition environment_value :: "cstring option list option \<Rightarrow> i32 \<Rightarrow> cstring \<Rightarrow> cstring option" where
  "environment_value environment count key =
     environment_entries (vector_prefix environment (nat (sint count))) key"

definition is_absolute_path :: "cstring option \<Rightarrow> bool" where
  "is_absolute_path path = (case path of Some (c # cs) \<Rightarrow> c = SLASH | _ \<Rightarrow> False)"

definition needs_separator :: "cstring \<Rightarrow> bool" where
  "needs_separator directory \<longleftrightarrow> directory \<noteq> [] \<and> last directory \<noteq> SLASH"

definition join_path :: "allocator \<Rightarrow> cstring \<Rightarrow> cstring \<Rightarrow> uheap \<Rightarrow> (nat option \<times> i32 \<times> uheap) option" where
  "join_path ok directory name h =
     (let directory_length = strlen directory; name_length = strlen name;
          sep = (if needs_separator directory then 1 else 0)
      in if directory_length > SIZE_MAX - name_length - sep - 1 then Some (None, ENAMETOOLONG, h)
         else (case malloc_cells ok (replicate (unat (directory_length + name_length + sep + 1)) None) h of
                 (None, h1) \<Rightarrow> Some (None, ENOMEM, h1)
               | (Some b, h1) \<Rightarrow> do {
                   (h2, o2) \<leftarrow> put_list b (map Char directory) (h1, 0);
                   (h3, o3) \<leftarrow> (if needs_separator directory then put b (Char SLASH) (h2, o2) else Some (h2, o2));
                   (h4, o4) \<leftarrow> put_list b (map Char name) (h3, o3);
                   (h5, _) \<leftarrow> put b (Char 0) (h4, o4);
                   Some (Some b, 0, h5) }))"

definition access_path ::
  "allocator \<Rightarrow> access_answer \<Rightarrow> cstring \<Rightarrow> cstring option \<Rightarrow> uheap \<Rightarrow> (int \<times> i32 \<times> uheap) option" where
  "access_path ok access path working_directory h =
     (if is_absolute_path (Some path) \<or> working_directory = None \<or> working_directory = Some []
      then Some (if access path = 0 then 0 else -1, access path, h)
      else do {
        (absolute_path, e, h1) \<leftarrow> join_path ok (the working_directory) path h;
        (case absolute_path of
           None \<Rightarrow> Some (-1, if e = 0 then ENOMEM else e, h1)
         | Some b \<Rightarrow> do {
             p \<leftarrow> read_string h1 b;
             h2 \<leftarrow> free_block b h1;
             Some (if access p = 0 then 0 else -1, access p, h2) }) })"

text \<open>The answer of \<open>stat\<close>: an error number, or whether the path is a directory.\<close>

datatype stat_answer = StatErrno i32 | StatMode bool

definition validate_working_directory ::
  "(i32 \<Rightarrow> string) \<Rightarrow> (cstring \<Rightarrow> stat_answer) \<Rightarrow> cstring option \<Rightarrow> PtyError option \<Rightarrow> bool \<times> PtyError option" where
  "validate_working_directory strerror stat path err =
     (if path = None \<or> path = Some [] then (True, err)
      else (case stat (the path) of
              StatErrno e \<Rightarrow> (False, pty_error_set_errno strerror err PTY_ERROR_WORKING_DIRECTORY e
                (Some ''checking working directory failed''))
            | StatMode is_directory \<Rightarrow>
                if \<not> is_directory
                then (False, pty_error_set_errno strerror err PTY_ERROR_WORKING_DIRECTORY ENOTDIR
                  (Some ''working directory is not a directory''))
                else (True, err)))"

definition PTY_DEFAULT_PATH :: cstring where
  "PTY_DEFAULT_PATH = map (\<lambda>c. of_char c) ''/usr/local/bin:/usr/bin:/bin''"

definition out_of_memory :: "PtyError option \<Rightarrow> string \<Rightarrow> PtyError option" where
  "out_of_memory err msg =
     pty_error_set err PTY_ERROR_DOMAIN_INTERNAL PTY_ERROR_OUT_OF_MEMORY (scast ENOMEM) (Some msg)"

text \<open>The loop over the entries of PATH, from \<open>start\<close>; the last failed \<open>access\<close> leaves its error.\<close>

definition resolve_failed :: "(i32 \<Rightarrow> string) \<Rightarrow> bool \<Rightarrow> i32 \<Rightarrow> PtyError option \<Rightarrow> PtyError option" where
  "resolve_failed strerror saw_permission_denied e err =
     (let error_number = (if saw_permission_denied then EACCES else if e = 0 then ENOENT else e) in
      pty_error_set_errno strerror err
        (if error_number = EACCES then PTY_ERROR_PERMISSION_DENIED else PTY_ERROR_NOT_FOUND)
        error_number (Some ''resolving executable failed''))"

function path_loop ::
  "(i32 \<Rightarrow> string) \<Rightarrow> allocator \<Rightarrow> access_answer \<Rightarrow> cstring option \<Rightarrow> cstring \<Rightarrow> cstring \<Rightarrow> bool \<Rightarrow>
     PtyError option \<Rightarrow> uheap \<Rightarrow> nat fallible" where
  "path_loop strerror ok access working_directory executable start saw_permission_denied err h =
     (let entry = takeWhile (\<lambda>c. c \<noteq> COLON) start;
          separator = dropWhile (\<lambda>c. c \<noteq> COLON) start
      in do {
        (directory0, h1) \<leftarrow> copy_string ok (Some entry) h;
        (case directory0 of
           None \<Rightarrow> Some (None, out_of_memory err ''allocating PATH entry failed'', h1)
         | Some d0 \<Rightarrow> do {
             (directory, h2) \<leftarrow>
               (if entry = [] then do { h' \<leftarrow> free_block d0 h1; copy_string ok (Some [46]) h' }
                else Some (Some d0, h1));
             (case directory of
                None \<Rightarrow> Some (None, out_of_memory err ''allocating empty PATH entry failed'', h2)
              | Some d \<Rightarrow> do {
                  dir \<leftarrow> read_string h2 d;
                  (candidate, e, h3) \<leftarrow> join_path ok dir executable h2;
                  (case candidate of
                     None \<Rightarrow> do {
                       h4 \<leftarrow> free_block d h3;
                       (let error_number = (if e = 0 then ENOMEM else e) in
                        Some (None, pty_error_set_errno strerror err
                          (if error_number = ENAMETOOLONG then PTY_ERROR_NOT_FOUND else PTY_ERROR_OUT_OF_MEMORY)
                          error_number (Some ''building executable PATH candidate failed''), h4)) }
                   | Some c \<Rightarrow> do {
                       cand \<leftarrow> read_string h3 c;
                       (result, access_error, h4) \<leftarrow> access_path ok access cand working_directory h3;
                       h5 \<leftarrow> free_block d h4;
                       (if result = 0 then Some (Some c, err, h5)
                        else do {
                          h6 \<leftarrow> free_block c h5;
                          (let denied = (saw_permission_denied \<or> access_error = EACCES) in
                           if separator = [] then Some (None, resolve_failed strerror denied access_error err, h6)
                           else path_loop strerror ok access working_directory executable (tl separator)
                                  denied err h6) }) }) }) }) })"
  by pat_completeness auto
termination
proof (relation "measure (\<lambda>(strerror, ok, access, wd, executable, start, denied, err, h). length start)")
  fix start :: cstring and separator
  assume sep: "separator = dropWhile (\<lambda>c. c \<noteq> COLON) start" and n: "separator \<noteq> []"
  have "length (tl separator) < length separator" using n by simp
  also have "\<dots> \<le> length start" by (simp add: sep length_dropWhile_le)
  finally show "\<And>strerror ok access wd executable denied err h strerror' ok' access' wd' executable' denied' err' h'.
    ((strerror, ok, access, wd, executable, tl separator, denied, err, h),
     (strerror', ok', access', wd', executable', start, denied', err', h'))
      \<in> measure (\<lambda>(strerror, ok, access, wd, executable, start, denied, err, h). length start)"
    by simp
qed simp

declare path_loop.simps [simp del]

definition resolve_executable ::
  "(i32 \<Rightarrow> string) \<Rightarrow> allocator \<Rightarrow> access_answer \<Rightarrow> spawn_options \<Rightarrow> PtyError option \<Rightarrow> uheap \<Rightarrow> nat fallible" where
  "resolve_executable strerror ok access options err h =
     (let executable = the (sp_executable options) in
      if SLASH \<in> set executable then do {
        (result, error_number, h1) \<leftarrow> access_path ok access executable (sp_working_directory options) h;
        (if result \<noteq> 0
         then Some (None, pty_error_set_errno strerror err
           (if error_number = EACCES then PTY_ERROR_PERMISSION_DENIED else PTY_ERROR_NOT_FOUND)
           error_number (Some ''checking executable failed''), h1)
         else do {
           (resolved, h2) \<leftarrow> copy_string ok (Some executable) h1;
           (case resolved of
              None \<Rightarrow> Some (None, out_of_memory err ''copying executable path failed'', h2)
            | Some b \<Rightarrow> Some (Some b, err, h2)) }) }
      else
        (let path = (case environment_value (sp_environment options) (sp_environment_count options) [80, 65, 84, 72] of
                       None \<Rightarrow> PTY_DEFAULT_PATH | Some p \<Rightarrow> p)
         in path_loop strerror ok access (sp_working_directory options) executable path False err h))"

subsection \<open>What is looked for\<close>

definition joined :: "cstring \<Rightarrow> cstring \<Rightarrow> cstring" where
  "joined directory name = directory @ (if needs_separator directory then [SLASH] else []) @ name"

function path_entries :: "cstring \<Rightarrow> cstring list" where
  "path_entries start =
     (let separator = dropWhile (\<lambda>c. c \<noteq> COLON) start in
      takeWhile (\<lambda>c. c \<noteq> COLON) start # (if separator = [] then [] else path_entries (tl separator)))"
  by pat_completeness auto
termination
proof (relation "measure length")
  fix start :: cstring and separator
  assume sep: "separator = dropWhile (\<lambda>c. c \<noteq> COLON) start" and n: "separator \<noteq> []"
  have "length (tl separator) < length separator" using n by simp
  also have "\<dots> \<le> length start" by (simp add: sep length_dropWhile_le)
  finally show "(tl separator, start) \<in> measure length" by simp
qed simp

declare path_entries.simps [simp del]

definition candidate :: "cstring \<Rightarrow> cstring \<Rightarrow> cstring" where
  "candidate executable entry = joined (if entry = [] then [46] else entry) executable"

definition candidates :: "cstring \<Rightarrow> cstring \<Rightarrow> cstring list" where
  "candidates executable path = map (candidate executable) (path_entries path)"

text \<open>The path \<open>access\<close> is asked about: relative ones start at the working directory.\<close>

definition effective :: "cstring option \<Rightarrow> cstring \<Rightarrow> cstring" where
  "effective working_directory path =
     (if is_absolute_path (Some path) \<or> working_directory = None \<or> working_directory = Some [] then path
      else joined (the working_directory) path)"

definition small :: "cstring option \<Rightarrow> cstring \<Rightarrow> cstring \<Rightarrow> bool" where
  "small working_directory executable path \<longleftrightarrow>
     length (case working_directory of None \<Rightarrow> [] | Some w \<Rightarrow> w) + length executable + length path < 2 ^ 62 \<and>
     0 \<notin> set (case working_directory of None \<Rightarrow> [] | Some w \<Rightarrow> w) \<and> 0 \<notin> set executable \<and> 0 \<notin> set path"

lemma read_holds: "holds_string h b s \<Longrightarrow> 0 \<notin> set s \<Longrightarrow> read_string h b = Some s"
proof -
  have "0 \<notin> set s \<Longrightarrow> chars_of (map Some (string_cells s)) = Some s"
    by (induction s) (simp_all add: string_cells_def)
  then show "holds_string h b s \<Longrightarrow> 0 \<notin> set s \<Longrightarrow> read_string h b = Some s"
    by (simp add: read_string_def holds_string_def)
qed

lemma holds_string_frame: "holds_string h b s \<Longrightarrow> h_block h' b = h_block h b \<Longrightarrow> holds_string h' b s"
  by (simp add: holds_string_def)

lemma joined_length: "length (joined d n) \<le> length d + length n + 1"
  by (simp add: joined_def)

lemma joined_nul: "0 \<notin> set d \<Longrightarrow> 0 \<notin> set n \<Longrightarrow> 0 \<notin> set (joined d n)"
  by (auto simp: joined_def)

lemma join_sizes:
  assumes "length d + length n < 2 ^ 63"
  shows "\<not> strlen d > SIZE_MAX - strlen n - (if needs_separator d then 1 else 0) - 1"
    and "unat (strlen d + strlen n + (if needs_separator d then 1 else 0) + 1) = length (joined d n) + 1"
proof -
  let ?s = "if needs_separator d then 1 else (0 :: u64)"
  have d: "unat (strlen d) = length d" and n: "unat (strlen n) = length n"
    using assms by (simp_all add: strlen_def unat_of_nat_less_64)
  have s: "unat ?s = (if needs_separator d then 1 else 0)" by simp
  have "unat (SIZE_MAX - strlen n - ?s - 1) = 2 ^ 64 - 1 - length n - unat ?s - 1"
    using assms by (simp add: unat_sub_no_wrap SIZE_MAX_unat n)
  moreover have "unat ?s \<le> 1" by simp
  moreover have "length d \<le> 2 ^ 64 - 1 - length n - k - 1" if "k \<le> 1" for k :: nat
    using that assms by simp
  ultimately have "unat (strlen d) \<le> unat (SIZE_MAX - strlen n - ?s - 1)" using d by presburger
  then show "\<not> strlen d > SIZE_MAX - strlen n - ?s - 1" by (simp only: word_less_nat_alt not_less)
  have "unat (strlen d + strlen n) = length d + length n"
    using assms d n by (simp add: unat_add_no_wrap)
  then have "unat (strlen d + strlen n + ?s) = length d + length n + unat ?s"
    using assms by (simp add: unat_add_no_wrap)
  then have "unat (strlen d + strlen n + ?s + 1) = length d + length n + unat ?s + 1"
    using assms by (subst unat_add_no_wrap) simp_all
  then show "unat (strlen d + strlen n + ?s + 1) = length (joined d n) + 1"
    by (simp add: joined_def)
qed

lemma join_path_grown:
  assumes g: "grown B h0 h" and size: "length d + length n < 2 ^ 63"
  obtains (fail) h' where "join_path ok d n h = Some (None, ENOMEM, h')" "grown B h0 h'"
      "\<And>b. b \<in> B \<Longrightarrow> h_block h' b = h_block h b" "\<not> (\<forall>n. ok n)"
  | (joined) b h' where "join_path ok d n h = Some (Some b, 0, h')" "grown (insert b B) h0 h'" "b \<notin> B"
      "holds_string h' b (joined d n)" "\<And>b'. b' \<in> B \<Longrightarrow> h_block h' b' = h_block h b'"
proof -
  let ?l = "length (joined d n) + 1"
  let ?sep = "if needs_separator d then [SLASH] else []"
  note unfold = join_path_def join_sizes [OF size] Let_def
  from g show ?thesis
  proof (cases rule: grown_malloc [of B h0 h ok "replicate ?l None"])
    case (fail h1)
    show ?thesis by (rule that(1) [of h1]) (use fail in \<open>auto simp: unfold\<close>)
  next
    case (block h1)
    let ?b = "h_next h"
    have b: "h_block h1 ?b = Some (map Some [] @ replicate ?l None)" using block(4) by simp
    have "put_list ?b (string_cells (joined d n)) (h1, length []) =
        Some (h1\<lparr>h_block := (h_block h1)(?b \<mapsto> map Some (string_cells (joined d n)))\<rparr>, ?l)"
      using put_list_fills [OF b, of "string_cells (joined d n)"] by (simp add: string_cells_def)
    moreover have "string_cells (joined d n) = map Char d @ (if needs_separator d then [Char SLASH] else []) @ map Char n @ [Char 0]"
      by (simp add: string_cells_def joined_def)
    ultimately have put: "put_list ?b (map Char d @ (if needs_separator d then [Char SLASH] else []) @ map Char n @ [Char 0]) (h1, 0) =
        Some (h1\<lparr>h_block := (h_block h1)(?b \<mapsto> map Some (string_cells (joined d n)))\<rparr>, ?l)"
      by simp
    have run: "join_path ok d n h = Some (Some ?b, 0, h1\<lparr>h_block := (h_block h1)(?b \<mapsto> map Some (string_cells (joined d n)))\<rparr>)"
    proof -
      have "join_path ok d n h = do {
          (h2, o2) \<leftarrow> put_list ?b (map Char d) (h1, 0);
          (h3, o3) \<leftarrow> (if needs_separator d then put ?b (Char SLASH) (h2, o2) else Some (h2, o2));
          (h4, o4) \<leftarrow> put_list ?b (map Char n) (h3, o3);
          (h5, _) \<leftarrow> put ?b (Char 0) (h4, o4);
          Some (Some ?b, 0, h5) }"
        unfolding join_path_def Let_def using block(1) by (simp only: join_sizes [OF size] if_False prod.case option.case)
      also have "\<dots> = map_option (\<lambda>(h', _). (Some ?b, 0, h'))
          (put_list ?b (map Char d @ (if needs_separator d then [Char SLASH] else []) @ map Char n @ [Char 0]) (h1, 0))"
        by (simp add: put_list_append split: bind_splits)
      finally show ?thesis by (simp add: put)
    qed
    show ?thesis
    proof (rule that(2) [OF run])
      show "h_block (h1\<lparr>h_block := (h_block h1)(?b \<mapsto> map Some (string_cells (joined d n)))\<rparr>) b' = h_block h b'"
        if "b' \<in> B" for b'
        using that block(3,4) by auto
    qed (use block in \<open>auto simp: holds_string_def grown_def heap_ok_def\<close>)
  qed
qed

text \<open>The answer of \<open>access_path\<close>: an allocation failure counts as inaccessible.\<close>

lemma access_path_grown:
  assumes g: "grown B h0 h" and size: "length path + length (case wd of None \<Rightarrow> [] | Some w \<Rightarrow> w) < 2 ^ 63"
    and nul: "0 \<notin> set path" "0 \<notin> set (case wd of None \<Rightarrow> [] | Some w \<Rightarrow> w)"
  obtains r e h' where "access_path ok access path wd h = Some (r, e, h')" "grown B h0 h'"
    "\<And>b. b \<in> B \<Longrightarrow> h_block h' b = h_block h b" "r = 0 \<Longrightarrow> access (effective wd path) = 0"
    "(\<forall>n. ok n) \<Longrightarrow> e = access (effective wd path) \<and> (r = 0 \<longleftrightarrow> e = 0)"
proof (cases "is_absolute_path (Some path) \<or> wd = None \<or> wd = Some []")
  case True
  show ?thesis
    by (rule that [of "if access path = 0 then 0 else -1" "access path" h])
      (use True g in \<open>auto simp: access_path_def effective_def split: if_splits\<close>)
next
  case False
  then obtain w where w: "wd = Some w" "w \<noteq> []" by auto
  have "length w + length path < 2 ^ 63" using size w by simp
  from g this show ?thesis
  proof (cases rule: join_path_grown [where ok = ok])
    case (fail h1)
    show ?thesis
      by (rule that [of "-1" ENOMEM h1]) (use fail False w in \<open>auto simp: access_path_def\<close>)
  next
    case (joined b h1)
    have read: "read_string h1 b = Some (joined w path)"
      using joined(4) nul w by (intro read_holds joined_nul) simp_all
    obtain h2 where h2: "free_block b h1 = Some h2" "grown (insert b B - {b}) h0 h2"
        "\<And>b'. b' \<noteq> b \<Longrightarrow> h_block h2 b' = h_block h1 b'"
      using grown_free [OF joined(2), of b] by blast
    have "insert b B - {b} = B" using joined(3) by auto
    moreover have "h_block h2 b' = h_block h b'" if "b' \<in> B" for b'
    proof -
      have "b' \<noteq> b" using that joined(3) by blast
      then show ?thesis using h2(3) joined(5) [OF that] by simp
    qed
    moreover have "effective wd path = joined w path" using False w by (simp add: effective_def)
    ultimately show ?thesis
      by (intro that [of "if access (joined w path) = 0 then 0 else -1" "access (joined w path)" h2])
        (use joined(1) read h2 False w in \<open>auto simp: access_path_def split: if_splits\<close>)
  qed
qed

subsection \<open>The search\<close>

definition accessible :: "access_answer \<Rightarrow> cstring option \<Rightarrow> cstring \<Rightarrow> bool" where
  "accessible access wd c \<longleftrightarrow> access (effective wd c) = 0"

text \<open>What the search answers, from the candidates left: the first accessible one, or none with the
  error of the last one, a denied permission taking precedence.\<close>

fun search :: "access_answer \<Rightarrow> cstring option \<Rightarrow> bool \<Rightarrow> i32 \<Rightarrow> cstring list \<Rightarrow> cstring + (bool \<times> i32)" where
  "search access wd denied e [] = Inr (denied, e)"
| "search access wd denied e (c # cs) =
     (if accessible access wd c then Inl c
      else search access wd (denied \<or> access (effective wd c) = EACCES) (access (effective wd c)) cs)"

lemma candidates_eq:
  "candidates executable start =
     candidate executable (takeWhile (\<lambda>c. c \<noteq> COLON) start) #
       (if dropWhile (\<lambda>c. c \<noteq> COLON) start = [] then []
        else candidates executable (tl (dropWhile (\<lambda>c. c \<noteq> COLON) start)))"
  by (auto simp: candidates_def path_entries.simps [of start] Let_def)

definition search_result ::
  "(i32 \<Rightarrow> string) \<Rightarrow> PtyError option \<Rightarrow> cstring + (bool \<times> i32) \<Rightarrow> nat option \<Rightarrow> PtyError option \<Rightarrow> uheap \<Rightarrow> bool" where
  "search_result strerror err found r err' h' \<longleftrightarrow>
     (case found of
        Inl c \<Rightarrow> err' = err \<and> (\<exists>b. r = Some b \<and> holds_string h' b c)
      | Inr (denied, e) \<Rightarrow> r = None \<and> err' = resolve_failed strerror denied e err)"

text \<open>The loop allocates nothing that it does not free, but the path it returns.\<close>

definition owns_result :: "nat set \<Rightarrow> uheap \<Rightarrow> uheap \<Rightarrow> nat option \<Rightarrow> uheap \<Rightarrow> bool" where
  "owns_result B h0 h r h' \<longleftrightarrow> grown (B \<union> pointer_blocks r) h0 h' \<and> pointer_blocks r \<inter> B = {} \<and>
     (\<forall>b \<in> B. h_block h' b = h_block h b)"

lemma small_step:
  assumes "small wd executable start" and "e = takeWhile (\<lambda>c. c \<noteq> COLON) start"
  shows "length (if e = [] then [46] else e) + length executable < 2 ^ 63"
    and "length (candidate executable e) + length (case wd of None \<Rightarrow> [] | Some w \<Rightarrow> w) < 2 ^ 63"
    and "0 \<notin> set (candidate executable e)" and "0 \<notin> set (if e = [] then [46] else e)"
    and "dropWhile (\<lambda>c. c \<noteq> COLON) start \<noteq> [] \<Longrightarrow> small wd executable (tl (dropWhile (\<lambda>c. c \<noteq> COLON) start))"
proof -
  have len: "length e \<le> length start" using assms(2) by (simp add: length_takeWhile_le)
  have nul: "0 \<notin> set e" using assms by (auto simp: small_def dest: set_takeWhileD)
  show one: "length (if e = [] then [46] else e) + length executable < 2 ^ 63"
    using assms(1) len by (auto simp: small_def)
  have "length (candidate executable e) \<le> length (if e = [] then [46 :: u8] else e) + length executable + 1"
    unfolding candidate_def by (rule joined_length)
  moreover have "length (if e = [] then [46 :: u8] else e) \<le> length start + 1" using len by simp
  ultimately show "length (candidate executable e) + length (case wd of None \<Rightarrow> [] | Some w \<Rightarrow> w) < 2 ^ 63"
    using assms(1) by (simp add: small_def)
  show nul2: "0 \<notin> set (if e = [] then [46] else e)" using nul by simp
  then show "0 \<notin> set (candidate executable e)"
    using assms(1) unfolding candidate_def by (intro joined_nul) (auto simp: small_def)
  assume "dropWhile (\<lambda>c. c \<noteq> COLON) start \<noteq> []"
  let ?rest = "tl (dropWhile (\<lambda>c. c \<noteq> COLON) start)"
  have "length ?rest \<le> length start"
    by (metis diff_le_self le_trans length_dropWhile_le length_tl)
  moreover have "set ?rest \<subseteq> set start"
    using set_dropWhileD [of _ "\<lambda>c. c \<noteq> COLON" start] list.set_sel(2) by (metis subsetI tl_Nil)
  ultimately show "small wd executable ?rest" using assms(1) by (auto simp: small_def)
qed

lemma owns_none: "grown B h0 h' \<Longrightarrow> (\<And>b. b \<in> B \<Longrightarrow> h_block h' b = h_block h b) \<Longrightarrow> owns_result B h0 h None h'"
  by (simp add: owns_result_def)

text \<open>The directory of an entry, as the loop allocates it.\<close>

lemma entry_directory_cases:
  assumes g: "grown B h0 h"
  obtains (fail0) h' where "copy_string ok (Some entry) h = Some (None, h')" "grown B h0 h'"
      "\<And>b. b \<in> B \<Longrightarrow> h_block h' b = h_block h b" "\<not> (\<forall>n. ok n)"
  | (fail) d0 h1 h' where "copy_string ok (Some entry) h = Some (Some d0, h1)"
      "(if entry = [] then do { h' \<leftarrow> free_block d0 h1; copy_string ok (Some [46]) h' } else Some (Some d0, h1)) =
        Some (None, h')" "grown B h0 h'" "\<And>b. b \<in> B \<Longrightarrow> h_block h' b = h_block h b" "\<not> (\<forall>n. ok n)"
  | (directory) d0 h1 d h' where "copy_string ok (Some entry) h = Some (Some d0, h1)"
      "(if entry = [] then do { h' \<leftarrow> free_block d0 h1; copy_string ok (Some [46]) h' } else Some (Some d0, h1)) =
        Some (Some d, h')" "grown (insert d B) h0 h'" "d \<notin> B" "\<And>b. b \<in> B \<Longrightarrow> h_block h' b = h_block h b"
      "holds_string h' d (if entry = [] then [46] else entry)"
  using g
proof (cases rule: copy_string_grown [where ok = ok and s = entry])
  case (fail h')
  show ?thesis by (rule that(1) [OF fail(1,2)]) (use fail(3,4) in simp_all)
next
  case (copied d0 h1)
  have keep1: "h_block h1 b = h_block h b" if "b \<in> B" for b using copied(3,5) that by metis
  show ?thesis
  proof (cases "entry = []")
    case False
    show ?thesis by (rule that(3) [OF copied(1)]) (use copied False keep1 in simp_all)
  next
    case True
    obtain h2 where h2: "free_block d0 h1 = Some h2" "grown (insert d0 B - {d0}) h0 h2"
        "\<And>b'. b' \<noteq> d0 \<Longrightarrow> h_block h2 b' = h_block h1 b'"
      using grown_free [OF copied(2), of d0] by blast
    have same: "insert d0 B - {d0} = B" using copied(3) by auto
    have keep2: "h_block h2 b = h_block h b" if "b \<in> B" for b
      using h2(3) keep1 [OF that] copied(3) that by metis
    from h2(2) [unfolded same] show ?thesis
    proof (cases rule: copy_string_grown [where ok = ok and s = "[46]"])
      case (fail h3)
      show ?thesis
        by (rule that(2) [OF copied(1), of h3]) (use fail True h2(1) keep2 in simp_all)
    next
      case (copied d h3)
      have keep3: "h_block h3 b = h_block h b" if "b \<in> B" for b
        using copied(3,5) keep2 [OF that] that by metis
      show ?thesis
        by (rule that(3) [OF \<open>copy_string ok (Some entry) h = _\<close>, of d h3]) (use copied True h2(1) keep3 in simp_all)
    qed
  qed
qed

lemma path_loop_correct:
  assumes "grown B h0 h" and "small wd executable start"
  shows "\<exists>r err' h'. path_loop strerror ok access wd executable start denied err h = Some (r, err', h') \<and>
    owns_result B h0 h r h' \<and>
    (r \<noteq> None \<longrightarrow> (\<exists>c. c \<in> set (candidates executable start) \<and> accessible access wd c \<and> holds_string h' (the r) c)) \<and>
    ((\<forall>n. ok n) \<longrightarrow> search_result strerror err (search access wd denied e0 (candidates executable start)) r err' h')"
  using assms
proof (induction "length start" arbitrary: start denied h e0 rule: less_induct)
  case less
  let ?entry = "takeWhile (\<lambda>c. c \<noteq> COLON) start"
  let ?sep = "dropWhile (\<lambda>c. c \<noteq> COLON) start"
  note sizes = small_step [OF less.prems(2) refl]
  note unfold = path_loop.simps [of strerror ok access wd executable start denied err h] Let_def
  from less.prems(1) show ?case
  proof (cases rule: entry_directory_cases [where ok = ok and entry = ?entry])
    case (fail0 h')
    then have "owns_result B h0 h None h'" by (intro owns_none)
    with fail0 show ?thesis unfolding unfold by auto
  next
    case (fail d0 h1 h')
    then have "owns_result B h0 h None h'" by (intro owns_none)
    with fail show ?thesis unfolding unfold by auto
  next
    case (directory d0 h1 d h2)
    note dir = this
    have read_d: "read_string h2 d = Some (if ?entry = [] then [46] else ?entry)"
      using dir(6) sizes(4) by (rule read_holds)
    from dir(3) sizes(1) show ?thesis
    proof (cases rule: join_path_grown [where ok = ok])
      case (fail h3)
      obtain h4 where h4: "free_block d h3 = Some h4" "grown (insert d B - {d}) h0 h4"
          "\<And>b'. b' \<noteq> d \<Longrightarrow> h_block h4 b' = h_block h3 b'"
        using grown_free [OF fail(2), of d] by blast
      have "insert d B - {d} = B" using dir(4) by auto
      moreover have "h_block h4 b = h_block h b" if "b \<in> B" for b
        using h4(3) fail(3) dir(4,5) that by (metis insert_iff)
      ultimately have "owns_result B h0 h None h4" using h4(2) by (intro owns_none) simp_all
      with dir(1,2) read_d fail(1,4) h4(1) show ?thesis unfolding unfold by auto
    next
      case (joined c h3)
      let ?c = "candidate executable ?entry"
      have c: "holds_string h3 c ?c" using joined(4) by (simp add: candidate_def)
      have read_c: "read_string h3 c = Some ?c" using c sizes(3) by (rule read_holds)
      have cd: "c \<noteq> d" "c \<notin> B" using joined(3) by auto
      have nul: "0 \<notin> set (case wd of None \<Rightarrow> [] | Some w \<Rightarrow> w)" using less.prems(2) by (simp add: small_def)
      obtain r e h4 where acc: "access_path ok access ?c wd h3 = Some (r, e, h4)" "grown (insert c (insert d B)) h0 h4"
          "\<And>b. b \<in> insert c (insert d B) \<Longrightarrow> h_block h4 b = h_block h3 b" "r = 0 \<Longrightarrow> access (effective wd ?c) = 0"
          "(\<forall>n. ok n) \<Longrightarrow> e = access (effective wd ?c) \<and> (r = 0 \<longleftrightarrow> e = 0)"
        using access_path_grown [OF joined(2) sizes(2,3) nul] by blast
      obtain h5 where h5: "free_block d h4 = Some h5" "grown (insert c (insert d B) - {d}) h0 h5"
          "\<And>b'. b' \<noteq> d \<Longrightarrow> h_block h5 b' = h_block h4 b'"
        using grown_free [OF acc(2), of d] by blast
      have set5: "insert c (insert d B) - {d} = insert c B" using dir(4) cd by auto
      have keep: "h_block h5 b = h_block h b" if "b \<in> B" for b
        using h5(3) acc(3) joined(5) dir(4,5) that by (metis insert_iff)
      have c5: "holds_string h5 c ?c"
        by (rule holds_string_frame [OF c]) (use h5(3) acc(3) cd in simp)
      show ?thesis
      proof (cases "r = 0")
        case True
        have own: "owns_result B h0 h (Some c) h5"
          using h5(2) cd keep by (simp add: owns_result_def pointer_blocks_def set5)
        have run: "path_loop strerror ok access wd executable start denied err h = Some (Some c, err, h5)"
          using dir(1,2) read_d read_c joined(1) acc(1) h5(1) True unfolding unfold by simp
        have found: "accessible access wd ?c" using acc(4) True by (simp add: accessible_def)
        show ?thesis
          unfolding run using own found c5
          by (auto simp: candidates_eq [of executable start] search_result_def)
      next
        case False
        obtain h6 where h6: "free_block c h5 = Some h6" "grown (insert c B - {c}) h0 h6"
            "\<And>b'. b' \<noteq> c \<Longrightarrow> h_block h6 b' = h_block h5 b'"
          using grown_free [OF h5(2) [unfolded set5], of c] by blast
        have g6: "grown B h0 h6" using h6(2) cd by (simp add: Diff_insert_absorb)
        have keep6: "h_block h6 b = h_block h b" if "b \<in> B" for b
          using h6(3) keep [OF that] cd that by metis
        let ?denied = "denied \<or> e = EACCES"
        have inaccessible: "(\<forall>n. ok n) \<Longrightarrow> \<not> accessible access wd ?c \<and> e = access (effective wd ?c)"
          using acc(5) False unfolding accessible_def by metis
        show ?thesis
        proof (cases "?sep = []")
          case True
          have run: "path_loop strerror ok access wd executable start denied err h =
              Some (None, resolve_failed strerror ?denied e err, h6)"
            using dir(1,2) read_d read_c joined(1) acc(1) h5(1) h6(1) False True unfolding unfold by auto
          have "owns_result B h0 h None h6" using g6 keep6 by (intro owns_none) simp_all
          then show ?thesis
            unfolding run using inaccessible True
            by (simp add: candidates_eq [of executable start] search_result_def)
        next
          case more: False
          have shorter: "length (tl ?sep) < length start"
          proof -
            have "length (tl ?sep) < length ?sep" using more by simp
            also have "\<dots> \<le> length start" by (rule length_dropWhile_le)
            finally show ?thesis .
          qed
          obtain q err' h' where rest: "path_loop strerror ok access wd executable (tl ?sep) ?denied err h6 = Some (q, err', h')"
              "owns_result B h0 h6 q h'"
              "q \<noteq> None \<longrightarrow> (\<exists>c. c \<in> set (candidates executable (tl ?sep)) \<and> accessible access wd c \<and> holds_string h' (the q) c)"
              "(\<forall>n. ok n) \<longrightarrow> search_result strerror err (search access wd ?denied e (candidates executable (tl ?sep))) q err' h'"
            using less.hyps [OF shorter g6 sizes(5) [OF more]] by metis
          have run: "path_loop strerror ok access wd executable start denied err h = Some (q, err', h')"
            using dir(1,2) read_d read_c joined(1) acc(1) h5(1) h6(1) False more rest(1) unfolding unfold by auto
          have own: "owns_result B h0 h q h'" using rest(2) keep6 by (simp add: owns_result_def)
          have some: "q \<noteq> None \<longrightarrow> (\<exists>c. c \<in> set (candidates executable start) \<and> accessible access wd c \<and> holds_string h' (the q) c)"
            using rest(3) more by (auto simp: candidates_eq [of executable start])
          have result: "search_result strerror err (search access wd denied e0 (candidates executable start)) q err' h'"
            if "\<forall>n. ok n"
            using inaccessible [OF that] rest(4) that more by (auto simp: candidates_eq [of executable start])
          show ?thesis unfolding run using own some result by blast
        qed
      qed
    qed
  qed
qed

subsection \<open>Properties\<close>

definition search_path :: "spawn_options \<Rightarrow> cstring" where
  "search_path options =
     (case environment_value (sp_environment options) (sp_environment_count options) [80, 65, 84, 72] of
        None \<Rightarrow> PTY_DEFAULT_PATH | Some p \<Rightarrow> p)"

text \<open>What the executable resolves to: itself when it names a path, else the first candidate of PATH.\<close>

definition resolution :: "access_answer \<Rightarrow> spawn_options \<Rightarrow> cstring + (bool \<times> i32)" where
  "resolution access options =
     (let executable = the (sp_executable options); wd = sp_working_directory options in
      if SLASH \<in> set executable
      then (if accessible access wd executable then Inl executable
            else Inr (access (effective wd executable) = EACCES, access (effective wd executable)))
      else search access wd False 0 (candidates executable (search_path options)))"

lemma resolve_executable_owns:
  assumes h: "heap_ok h" and exe: "sp_executable options = Some executable"
    and small: "small (sp_working_directory options) executable (search_path options)"
  shows "\<exists>r err' h'. resolve_executable strerror ok access options err h = Some (r, err', h') \<and>
    owns_result {} h h r h' \<and>
    (case r of
       None \<Rightarrow> (\<forall>n. ok n) \<longrightarrow> (\<exists>d e. resolution access options = Inr (d, e))
     | Some b \<Rightarrow> \<exists>c. holds_string h' b c \<and> accessible access (sp_working_directory options) c \<and>
         ((\<forall>n. ok n) \<longrightarrow> resolution access options = Inl c))"
proof -
  let ?wd = "sp_working_directory options"
  show ?thesis
  proof (cases "SLASH \<in> set executable")
    case False
    obtain r err' h' where loop: "path_loop strerror ok access ?wd executable (search_path options) False err h = Some (r, err', h')"
        "owns_result {} h h r h'"
        "r \<noteq> None \<longrightarrow> (\<exists>c. c \<in> set (candidates executable (search_path options)) \<and> accessible access ?wd c \<and> holds_string h' (the r) c)"
        "(\<forall>n. ok n) \<longrightarrow> search_result strerror err (search access ?wd False 0 (candidates executable (search_path options))) r err' h'"
      using path_loop_correct [OF grown_refl [OF h] small] by metis
    have run: "resolve_executable strerror ok access options err h = Some (r, err', h')"
      using False exe loop(1) by (simp add: resolve_executable_def search_path_def Let_def)
    have res: "resolution access options = search access ?wd False 0 (candidates executable (search_path options))"
      using False exe by (simp add: resolution_def)
    have unique: "c = c'" if "holds_string h' b c" "holds_string h' b c'" for b c c'
    proof -
      have "map Some (map Char c @ [Char 0]) = map Some (map Char c' @ [Char 0])"
        using that by (simp add: holds_string_def string_cells_def)
      then have "map Char c = map Char c'" by (simp only: inj_map_eq_map inj_Some append_same_eq)
      then show ?thesis by (simp add: inj_map_eq_map inj_def)
    qed
    show ?thesis
    proof (cases r)
      case None
      then show ?thesis
        using run loop(2,4) res
        by (auto simp: search_result_def split: sum.splits prod.splits)
    next
      case (Some b)
      then obtain c where c: "accessible access ?wd c" "holds_string h' b c" using loop(3) by auto
      have "(\<forall>n. ok n) \<longrightarrow> resolution access options = Inl c"
        using loop(4) res c(2) unique Some by (auto simp: search_result_def split: sum.splits prod.splits)
      then show ?thesis using run loop(2) Some c by auto
    qed
  next
    case True
    have size: "length executable + length (case ?wd of None \<Rightarrow> [] | Some w \<Rightarrow> w) < 2 ^ 63"
      and nul: "0 \<notin> set executable" "0 \<notin> set (case ?wd of None \<Rightarrow> [] | Some w \<Rightarrow> w)"
      using small by (simp_all add: small_def)
    obtain r e h1 where acc: "access_path ok access executable ?wd h = Some (r, e, h1)" "grown {} h h1"
        "r = 0 \<Longrightarrow> access (effective ?wd executable) = 0"
        "(\<forall>n. ok n) \<Longrightarrow> e = access (effective ?wd executable) \<and> (r = 0 \<longleftrightarrow> e = 0)"
      using access_path_grown [OF grown_refl [OF h] size nul] by metis
    have res: "resolution access options = (if accessible access ?wd executable then Inl executable
        else Inr (access (effective ?wd executable) = EACCES, access (effective ?wd executable)))"
      using True exe by (simp add: resolution_def Let_def)
    show ?thesis
    proof (cases "r = 0")
      case False
      have "owns_result {} h h None h1" using acc(2) by (simp add: owns_result_def)
      moreover have "(\<forall>n. ok n) \<longrightarrow> \<not> accessible access ?wd executable"
        using acc(4) False unfolding accessible_def by metis
      ultimately show ?thesis
        using True exe acc(1) False res by (auto simp: resolve_executable_def Let_def)
    next
      case zero: True
      have found: "accessible access ?wd executable" using acc(3) zero by (simp add: accessible_def)
      from acc(2) show ?thesis
      proof (cases rule: copy_string_grown [where ok = ok and s = executable])
        case (fail h2)
        then show ?thesis
          using True exe acc(1) zero owns_none [OF fail(2), of h]
          by (auto simp: resolve_executable_def Let_def)
      next
        case (copied b h2)
        have "owns_result {} h h (Some b) h2"
          using copied(2) by (simp add: owns_result_def pointer_blocks_def)
        then show ?thesis
          using True exe acc(1) zero copied(1,4) found res by (auto simp: resolve_executable_def Let_def)
      qed
    qed
  qed
qed


text \<open>\<open>PATH=/x::/y\<close> with \<open>sh\<close> only in the last directory and denied in the current one.\<close>

definition example_path_options :: spawn_options where
  "example_path_options = example_spawn_options
     \<lparr>sp_environment := Some [Some [80, 65, 84, 72, 61, 47, 120, 58, 58, 47, 121]]\<rparr>"

definition example_access :: access_answer where
  "example_access p = (if p = [47, 121, 47, 115, 104] then 0 else if p = [46, 47, 115, 104] then EACCES else ENOENT)"


end
