(* ===== verification/Unix_Spawn.thy ===== *)
theory Unix_Spawn
  imports Unix_Path Unix_State
begin

section \<open>Starting a program: the calling process (unix/pty_unix_spawn.c)\<close>

text \<open>
  The state is the set of open descriptors of the process and its heap. Every system call takes the
  next answer of the environment; a call that opens a descriptor gets one that is not in use, or
  fails. Closing a descriptor that is not open would hit one another thread has opened meanwhile: it
  is undefined behaviour here (\<open>None\<close>), as is a misuse of the heap. \<open>EINTR\<close> repetitions of \<open>waitpid\<close>
  are one answer; the reads of a pipe are a list of answers after which the pipe is at its end.
\<close>

record sysret =
  sr_fail :: bool
  sr_errno :: i32
  sr_value :: int
  sr_value2 :: int
  sr_reads :: "read_answer list"

record spawn_env =
  e_answer :: "nat \<Rightarrow> sysret"
  e_ok :: allocator
  e_strerror :: "i32 \<Rightarrow> string"
  e_access :: access_answer
  e_stat :: "cstring \<Rightarrow> stat_answer"
  e_android :: bool
  e_linux :: bool
  e_iutf8 :: bool

record spawn_state =
  k_open :: "fd set"
  k_time :: nat
  k_heap :: uheap
  k_killed :: "int list"

abbreviation (input) PTY_CHILD_STATUS_FD :: fd where "PTY_CHILD_STATUS_FD \<equiv> 3"

subsection \<open>System calls\<close>

definition next_answer :: "spawn_env \<Rightarrow> spawn_state \<Rightarrow> sysret \<times> spawn_state" where
  "next_answer E s = (e_answer E (k_time s), s\<lparr>k_time := Suc (k_time s)\<rparr>)"

text \<open>A call that returns a new descriptor of at least \<open>minimum\<close>, or -1, with \<open>errno\<close>.\<close>

definition sys_fd :: "spawn_env \<Rightarrow> fd \<Rightarrow> spawn_state \<Rightarrow> fd \<times> i32 \<times> spawn_state" where
  "sys_fd E minimum s =
     (case next_answer E s of (a, s1) \<Rightarrow>
        if \<not> sr_fail a \<and> minimum \<le> sr_value a \<and> 0 \<le> sr_value a \<and> sr_value a \<notin> k_open s1
        then (sr_value a, sr_errno a, s1\<lparr>k_open := insert (sr_value a) (k_open s1)\<rparr>)
        else (-1, sr_errno a, s1))"

definition sys_pair :: "spawn_env \<Rightarrow> spawn_state \<Rightarrow> int \<times> fd \<times> fd \<times> i32 \<times> spawn_state" where
  "sys_pair E s =
     (case next_answer E s of (a, s1) \<Rightarrow>
        if \<not> sr_fail a \<and> 0 \<le> sr_value a \<and> 0 \<le> sr_value2 a \<and> sr_value a \<noteq> sr_value2 a \<and>
           sr_value a \<notin> k_open s1 \<and> sr_value2 a \<notin> k_open s1
        then (0, sr_value a, sr_value2 a, sr_errno a,
              s1\<lparr>k_open := insert (sr_value a) (insert (sr_value2 a) (k_open s1))\<rparr>)
        else (-1, -1, -1, sr_errno a, s1))"

text \<open>A call that succeeds (0) or fails (-1).\<close>

definition sys_check :: "spawn_env \<Rightarrow> spawn_state \<Rightarrow> int \<times> i32 \<times> spawn_state" where
  "sys_check E s = (case next_answer E s of (a, s1) \<Rightarrow> (if sr_fail a then -1 else 0, sr_errno a, s1))"

definition sys_close :: "fd \<Rightarrow> spawn_state \<Rightarrow> spawn_state option" where
  "sys_close d s = (if d \<in> k_open s then Some (s\<lparr>k_open := k_open s - {d}\<rparr>) else None)"

primrec close_fds :: "fd list \<Rightarrow> spawn_state \<Rightarrow> spawn_state option" where
  "close_fds [] s = Some s"
| "close_fds (d # ds) s = do { s1 \<leftarrow> sys_close d s; close_fds ds s1 }"

definition sys_reads :: "spawn_env \<Rightarrow> spawn_state \<Rightarrow> read_answer list \<times> spawn_state" where
  "sys_reads E s = (case next_answer E s of (a, s1) \<Rightarrow> (sr_reads a, s1))"

subsection \<open>Whole reads and writes\<close>

text \<open>The result (1, 0 at the end before any byte, -1), and the bytes received.\<close>

fun read_fully :: "read_answer list \<Rightarrow> nat \<Rightarrow> u8 list \<Rightarrow> int \<times> u8 list" where
  "read_fully answers count received =
     (if count \<le> length received then (1, received)
      else (case answers of
              [] \<Rightarrow> (if received = [] then 0 else -1, received)
            | ReadBytes bytes # rest \<Rightarrow>
                if bytes = [] then (if received = [] then 0 else -1, received)
                else read_fully rest count (received @ take (count - length received) bytes)
            | ReadErrno e # rest \<Rightarrow>
                if e = EINTR then read_fully rest count received else (-1, received)))"

declare read_fully.simps [simp del]

text \<open>The result, and the bytes written; a write takes at most what it was offered.\<close>

fun write_fully :: "write_answer list \<Rightarrow> u8 list \<Rightarrow> u8 list \<Rightarrow> int \<times> u8 list" where
  "write_fully answers remaining done =
     (if remaining = [] then (1, done)
      else (case answers of
              [] \<Rightarrow> (0, done)
            | WriteCount n # rest \<Rightarrow>
                if 0 < n then write_fully rest (drop n remaining) (done @ take n remaining)
                else (0, done)
            | WriteErrno e # rest \<Rightarrow>
                if e = EINTR then write_fully rest remaining done else (0, done)))"

declare write_fully.simps [simp del]

text \<open>A 32-bit integer in memory, least significant byte first.\<close>

definition i32_bytes :: "i32 \<Rightarrow> u8 list" where
  "i32_bytes w = [ucast w, ucast (drop_bit 8 w), ucast (drop_bit 16 w), ucast (drop_bit 24 w)]"

definition bytes_i32 :: "u8 list \<Rightarrow> i32" where
  "bytes_i32 bytes = word_of_int (foldr (\<lambda>b n. uint b + 256 * n) bytes 0)"

lemma bytes_i32_nat: "bytes_i32 bytes = of_nat (foldr (\<lambda>b n. unat b + 256 * n) bytes 0)"
proof -
  have "foldr (\<lambda>b n. uint b + 256 * n) bytes 0 = int (foldr (\<lambda>b n. unat b + 256 * n) bytes 0)"
    by (induction bytes) auto
  then show ?thesis by (simp add: bytes_i32_def)
qed

lemma bytes_i32_bytes [simp]: "bytes_i32 (i32_bytes w) = w"
proof -
  let ?n = "unat w"
  have "unat (ucast (drop_bit k w) :: u8) = ?n div 2 ^ k mod 256" for k
    by (simp add: unsigned_ucast_eq unat_drop_bit_eq drop_bit_eq_div [where 'a = nat] take_bit_eq_mod [where 'a = nat])
  moreover have "unat (ucast w :: u8) = ?n mod 256" by (simp add: unsigned_ucast_eq take_bit_eq_mod)
  moreover have "?n mod 256 + 256 * (?n div 2 ^ 8 mod 256 + 256 * (?n div 2 ^ 16 mod 256 + 256 * (?n div 2 ^ 24 mod 256))) = ?n"
  proof -
    have "?n div 2 ^ 24 < 256" using unsigned_less [of w] by (simp add: div_less_iff_less_mult)
    then have 3: "?n div 2 ^ 24 mod 256 = ?n div 2 ^ 24" by simp
    have 2: "?n div 2 ^ 16 mod 256 + 256 * (?n div 2 ^ 24) = ?n div 2 ^ 16"
      using mod_mult_div_eq [of "?n div 2 ^ 16" 256] by (simp add: div_mult2_eq [symmetric])
    have 1: "?n div 2 ^ 8 mod 256 + 256 * (?n div 2 ^ 16) = ?n div 2 ^ 8"
      using mod_mult_div_eq [of "?n div 2 ^ 8" 256] by (simp add: div_mult2_eq [symmetric])
    show ?thesis unfolding 3 2 1 using mod_mult_div_eq [of ?n 256] by simp
  qed
  ultimately have "foldr (\<lambda>b n. unat b + 256 * n) (i32_bytes w) 0 = ?n"
    by (simp only: i32_bytes_def foldr.simps o_apply id_apply mult_0_right add_0_right)
  then show ?thesis by (simp add: bytes_i32_nat)
qed

record PtyChildError =
  ce_stage :: i32
  ce_error_number :: i32

definition read_child_error :: "read_answer list \<Rightarrow> int \<times> PtyChildError" where
  "read_child_error answers =
     (case read_fully answers 8 [] of (r, bytes) \<Rightarrow>
        (r, \<lparr>ce_stage = bytes_i32 (take 4 bytes), ce_error_number = bytes_i32 (drop 4 bytes)\<rparr>))"

record PtyUnixExit =
  ux_signaled :: i32
  ux_value :: i32

definition pty_unix_read_exit :: "read_answer list \<Rightarrow> int \<times> PtyUnixExit" where
  "pty_unix_read_exit answers =
     (case read_fully answers 8 [] of (r, bytes) \<Rightarrow>
        (r, \<lparr>ux_signaled = bytes_i32 (take 4 bytes), ux_value = bytes_i32 (drop 4 bytes)\<rparr>))"

text \<open>The program's pid, the first report of the supervisor.\<close>

definition read_program :: "read_answer list \<Rightarrow> int \<times> int" where
  "read_program answers =
     (case read_fully answers 4 [] of (r, bytes) \<Rightarrow> (r, sint (bytes_i32 bytes)))"

definition pty_unix_release_process :: "PtyUnixProcess option \<Rightarrow> spawn_state \<Rightarrow> (PtyUnixProcess option \<times> spawn_state) option" where
  "pty_unix_release_process process s =
     (case process of
        None \<Rightarrow> Some (None, s)
      | Some p \<Rightarrow> do {
          s1 \<leftarrow> (if proc_release_fd p \<ge> 0 then sys_close (proc_release_fd p) s else Some s);
          s2 \<leftarrow> (if proc_exit_fd p \<ge> 0 then sys_close (proc_exit_fd p) s1 else Some s1);
          Some (Some (p\<lparr>proc_release_fd := -1, proc_exit_fd := -1\<rparr>), s2) })"

subsection \<open>Descriptors\<close>

definition pty_open_android :: "spawn_env \<Rightarrow> spawn_state \<Rightarrow> (int \<times> fd \<times> fd \<times> i32 \<times> spawn_state) option" where
  "pty_open_android E s =
     (case sys_fd E 0 s of (master, e, s1) \<Rightarrow>
        if master < 0 then Some (-1, master, -1, e, s1)
        else
          (case sys_check E s1 of (granted, e, s2) \<Rightarrow>
            (case (if granted = 0 then sys_check E s2 else (granted, e, s2)) of (unlocked, e, s3) \<Rightarrow>
              if granted \<noteq> 0 \<or> unlocked \<noteq> 0
              then do { s4 \<leftarrow> sys_close master s3; Some (-1, -1, -1, e, s4) }
              else
                (case sys_check E s3 of (named, e, s4) \<Rightarrow>
                  if named \<noteq> 0 then do { s5 \<leftarrow> sys_close master s4; Some (-1, -1, -1, e, s5) }
                  else
                    (case sys_fd E 0 s4 of (slave, e, s5) \<Rightarrow>
                      if slave < 0 then do { s6 \<leftarrow> sys_close master s5; Some (-1, -1, slave, e, s6) }
                      else
                        (case sys_check E s5 of (sized, e, s6) \<Rightarrow>
                          if sized \<noteq> 0 then do {
                            s7 \<leftarrow> sys_close slave s6;
                            s8 \<leftarrow> sys_close master s7;
                            Some (-1, -1, -1, e, s8) }
                          else Some (0, master, slave, e, s6)))))))"

definition pty_open :: "spawn_env \<Rightarrow> spawn_state \<Rightarrow> (int \<times> fd \<times> fd \<times> i32 \<times> spawn_state) option" where
  "pty_open E s = (if e_android E then pty_open_android E s else Some (sys_pair E s))"

text \<open>The mutex of \<open>pty_open_serialized\<close> only orders calls of several threads.\<close>

definition pty_open_serialized :: "spawn_env \<Rightarrow> spawn_state \<Rightarrow> (int \<times> fd \<times> fd \<times> i32 \<times> spawn_state) option" where
  "pty_open_serialized E s = pty_open E s"

definition move_fd_above ::
  "spawn_env \<Rightarrow> fd \<Rightarrow> fd \<Rightarrow> i32 \<Rightarrow> spawn_state \<Rightarrow> (fd \<times> i32 \<times> spawn_state) option" where
  "move_fd_above E d minimum error_number s =
     (if d \<ge> minimum then Some (d, error_number, s)
      else (case sys_fd E minimum s of (moved, e, s1) \<Rightarrow>
        if moved < 0 then do { s2 \<leftarrow> sys_close d s1; Some (-1, e, s2) }
        else do { s2 \<leftarrow> sys_close d s1; Some (moved, error_number, s2) }))"

definition set_close_on_exec :: "spawn_env \<Rightarrow> spawn_state \<Rightarrow> int \<times> i32 \<times> spawn_state" where
  "set_close_on_exec E s =
     (case sys_check E s of (flags, e, s1) \<Rightarrow>
        if flags < 0 then (-1, e, s1) else sys_check E s1)"

text \<open>\<open>flags < 0 || fcntl(master, F_SETFL, flags | O_NONBLOCK) != 0\<close>\<close>

definition set_nonblocking :: "spawn_env \<Rightarrow> spawn_state \<Rightarrow> int \<times> i32 \<times> spawn_state" where
  "set_nonblocking E s =
     (case sys_check E s of (flags, e, s1) \<Rightarrow>
        if flags < 0 then (-1, e, s1) else sys_check E s1)"

text \<open>\<open>a != 0 || b != 0\<close> over two descriptors: the second is not tried after the first fails.\<close>

definition set_both_close_on_exec :: "spawn_env \<Rightarrow> spawn_state \<Rightarrow> bool \<times> i32 \<times> spawn_state" where
  "set_both_close_on_exec E s =
     (case set_close_on_exec E s of (r, e, s1) \<Rightarrow>
        if r \<noteq> 0 then (False, e, s1)
        else (case set_close_on_exec E s1 of (r2, e2, s2) \<Rightarrow> (r2 = 0, e2, s2)))"

definition open_cloexec_pipe :: "spawn_env \<Rightarrow> spawn_state \<Rightarrow> (int \<times> fd \<times> fd \<times> i32 \<times> spawn_state) option" where
  "open_cloexec_pipe E s =
     (if e_linux E then Some (sys_pair E s)
      else (case sys_pair E s of (r, d0, d1, e, s1) \<Rightarrow>
        if r \<noteq> 0 then Some (-1, d0, d1, e, s1)
        else (case set_both_close_on_exec E s1 of (both, e2, s2) \<Rightarrow>
          if both then Some (0, d0, d1, e2, s2)
          else do { s3 \<leftarrow> close_fds [d0, d1] s2; Some (-1, d0, d1, e2, s3) })))"

text \<open>The master of a terminal whose program could not be kept, and the program.\<close>

definition cleanup_failed_child :: "int \<Rightarrow> fd \<Rightarrow> spawn_state \<Rightarrow> spawn_state option" where
  "cleanup_failed_child process_id master s = do {
     s1 \<leftarrow> (if master \<ge> 0 then sys_close master s else Some s);
     Some (if process_id \<le> 0 then s1 else s1\<lparr>k_killed := k_killed s1 @ [- process_id, process_id]\<rparr>) }"

subsection \<open>The argument vectors\<close>

record spawn_blocks =
  bk_argv :: nat
  bk_argc :: nat
  bk_envp :: nat
  bk_envc :: nat
  bk_resolved :: nat

definition free_blocks :: "spawn_blocks \<Rightarrow> spawn_state \<Rightarrow> spawn_state option" where
  "free_blocks bl s = do {
     h1 \<leftarrow> free_string_vector (Some (bk_argv bl)) (bk_argc bl) (k_heap s);
     h2 \<leftarrow> free_string_vector (Some (bk_envp bl)) (bk_envc bl) h1;
     h3 \<leftarrow> free_block (bk_resolved bl) h2;
     Some (s\<lparr>k_heap := h3\<rparr>) }"

text \<open>\<open>for (index = argument_count; index > 0; index--) argv[index] = argv[index - 1]\<close>\<close>

fun shift_arguments :: "nat \<Rightarrow> nat \<Rightarrow> uheap \<Rightarrow> uheap option" where
  "shift_arguments b 0 h = Some h"
| "shift_arguments b (Suc i) h = do {
     p \<leftarrow> load_pointer b i h;
     h1 \<leftarrow> store b (Suc i) (Pointer p) h;
     shift_arguments b i h1 }"

datatype 'a stage = Failed "PtyError option" | Continue 'a

type_synonym 'a stage_result = "('a stage \<times> spawn_state) option"

definition prepare_arguments ::
  "spawn_env \<Rightarrow> spawn_options \<Rightarrow> PtyError option \<Rightarrow> spawn_state \<Rightarrow> spawn_blocks stage_result" where
  "prepare_arguments E options err s = do {
     (resolved, err1, h1) \<leftarrow> resolve_executable (e_strerror E) (e_ok E) (e_access E) options err (k_heap s);
     (case resolved of
        None \<Rightarrow> Some (Failed err1, s\<lparr>k_heap := h1\<rparr>)
      | Some rb \<Rightarrow> do {
          (argv, err2, h2) \<leftarrow> copy_string_vector (e_ok E) (sp_arguments options) (sp_argument_count options) 2 err1 h1;
          (case argv of
             None \<Rightarrow> do { h3 \<leftarrow> free_block rb h2; Some (Failed err2, s\<lparr>k_heap := h3\<rparr>) }
           | Some ab \<Rightarrow>
               (let argc = nat (sint (sp_argument_count options)) in do {
                 h3 \<leftarrow> shift_arguments ab argc h2;
                 (name, h4) \<leftarrow> copy_string (e_ok E) (sp_executable options) h3;
                 h5 \<leftarrow> store ab 0 (Pointer name) h4;
                 h6 \<leftarrow> store ab (argc + 1) (Pointer None) h5;
                 (if name = None then do {
                    h7 \<leftarrow> free_string_vector (Some ab) (argc + 1) h6;
                    h8 \<leftarrow> free_block rb h7;
                    Some (Failed (out_of_memory err2 ''copying argv[0] failed''), s\<lparr>k_heap := h8\<rparr>) }
                  else do {
                    (envp, err3, h7) \<leftarrow>
                      copy_string_vector (e_ok E) (sp_environment options) (sp_environment_count options) 1 err2 h6;
                    (case envp of
                       None \<Rightarrow> do {
                         h8 \<leftarrow> free_string_vector (Some ab) (argc + 1) h7;
                         h9 \<leftarrow> free_block rb h8;
                         Some (Failed err3, s\<lparr>k_heap := h9\<rparr>) }
                     | Some eb \<Rightarrow>
                         Some (Continue \<lparr>bk_argv = ab, bk_argc = argc + 1, bk_envp = eb,
                                         bk_envc = nat (sint (sp_environment_count options)),
                                         bk_resolved = rb\<rparr>, s\<lparr>k_heap := h7\<rparr>)) }) })) }) }"

subsection \<open>The stages of \<open>pty_unix_spawn\<close>\<close>

text \<open>A failure closes what is held, in the order of the code, and frees the vectors.\<close>

definition fail_stage :: "spawn_blocks \<Rightarrow> fd list \<Rightarrow> PtyError option \<Rightarrow> spawn_state \<Rightarrow> 'a stage_result" where
  "fail_stage bl fds err s = do {
     s1 \<leftarrow> close_fds fds s;
     s2 \<leftarrow> free_blocks bl s1;
     Some (Failed err, s2) }"

definition spawn_error :: "spawn_env \<Rightarrow> PtyError option \<Rightarrow> i32 \<Rightarrow> string \<Rightarrow> PtyError option" where
  "spawn_error E err error_number operation =
     pty_error_set_errno (e_strerror E) err PTY_ERROR_SPAWN_FAILED error_number (Some operation)"

definition held_fds :: "fd list \<Rightarrow> fd list" where
  "held_fds fds = filter (\<lambda>d. d \<ge> 0) fds"

text \<open>The terminal: its attributes (where the platform has \<open>IUTF8\<close>), both descriptors above the
  child's status descriptor and closed on exec.\<close>

definition terminal_attributes ::
  "spawn_env \<Rightarrow> spawn_blocks \<Rightarrow> fd \<Rightarrow> fd \<Rightarrow> PtyError option \<Rightarrow> spawn_state \<Rightarrow> unit stage_result" where
  "terminal_attributes E bl master slave err s =
     (if \<not> e_iutf8 E then Some (Continue (), s)
      else (case sys_check E s of (r, e, s1) \<Rightarrow>
        if r \<noteq> 0
        then fail_stage bl [master, slave] (spawn_error E err e ''reading PTY terminal attributes failed'') s1
        else (case sys_check E s1 of (r2, e2, s2) \<Rightarrow>
          if r2 \<noteq> 0
          then fail_stage bl [master, slave] (spawn_error E err e2 ''setting PTY terminal attributes failed'') s2
          else Some (Continue (), s2))))"

definition place_terminal ::
  "spawn_env \<Rightarrow> spawn_blocks \<Rightarrow> fd \<Rightarrow> fd \<Rightarrow> PtyError option \<Rightarrow> spawn_state \<Rightarrow> (fd \<times> fd) stage_result" where
  "place_terminal E bl master0 slave0 err s = do {
     (master1, e1, s1) \<leftarrow> move_fd_above E master0 (PTY_CHILD_STATUS_FD + 1) 0 s;
     (slave1, e2, s2) \<leftarrow> move_fd_above E slave0 (PTY_CHILD_STATUS_FD + 1) e1 s1;
     (master, slave, e, s3) \<leftarrow>
       (if master1 \<ge> 0 \<and> slave1 \<ge> 0
        then (case set_both_close_on_exec E s2 of (both, e3, s3) \<Rightarrow>
          if both then Some (master1, slave1, e2, s3)
          else do { s4 \<leftarrow> close_fds [master1, slave1] s3; Some (-1, -1, e3, s4) })
        else Some (master1, slave1, e2, s2));
     (if master < 0 \<or> slave < 0
      then fail_stage bl (held_fds [master, slave])
        (spawn_error E err (if e = 0 then EIO else e) ''preparing PTY descriptors failed'') s3
      else Some (Continue (master, slave), s3)) }"

definition open_terminal ::
  "spawn_env \<Rightarrow> spawn_blocks \<Rightarrow> PtyError option \<Rightarrow> spawn_state \<Rightarrow> (fd \<times> fd) stage_result" where
  "open_terminal E bl err s = do {
     (result, master, slave, open_error, s1) \<leftarrow> pty_open_serialized E s;
     (if result \<noteq> 0 then fail_stage bl [] (spawn_error E err open_error ''openpty failed'') s1
      else do {
        (attributes, s2) \<leftarrow> terminal_attributes E bl master slave err s1;
        (case attributes of
           Failed err' \<Rightarrow> Some (Failed err', s2)
         | Continue _ \<Rightarrow> place_terminal E bl master slave err s2) }) }"

text \<open>The pipe on which the child reports that it could not run the program; \<open>held\<close> are the
  descriptors of the terminal.\<close>

definition place_status_pipe ::
  "spawn_env \<Rightarrow> spawn_blocks \<Rightarrow> fd list \<Rightarrow> fd \<Rightarrow> fd \<Rightarrow> PtyError option \<Rightarrow> spawn_state \<Rightarrow> (fd \<times> fd) stage_result" where
  "place_status_pipe E bl held p0 p1 err s = do {
     (q0, e, s1) \<leftarrow> move_fd_above E p0 (PTY_CHILD_STATUS_FD + 1) 0 s;
     (if q0 < 0
      then fail_stage bl (p1 # held)
        (spawn_error E err (if e = 0 then EIO else e) ''moving exec status pipe failed'') s1
      else
        (case sys_fd E PTY_CHILD_STATUS_FD s1 of (status_fd, e1, s2) \<Rightarrow>
          (case (if status_fd < 0 then (-1, e1, s2) else set_close_on_exec E s2) of (marked, e2, s3) \<Rightarrow>
            if marked \<noteq> 0
            then fail_stage bl (q0 # p1 # held_fds [status_fd] @ held)
              (spawn_error E err e2 ''placing exec status pipe failed'') s3
            else do { s4 \<leftarrow> sys_close p1 s3; Some (Continue (q0, status_fd), s4) }))) }"

definition open_status_pipe ::
  "spawn_env \<Rightarrow> spawn_blocks \<Rightarrow> fd list \<Rightarrow> PtyError option \<Rightarrow> spawn_state \<Rightarrow> (fd \<times> fd) stage_result" where
  "open_status_pipe E bl held err s = do {
     (r, p0, p1, e, s1) \<leftarrow> open_cloexec_pipe E s;
     (if r \<noteq> 0 then fail_stage bl held (spawn_error E err e ''creating exec status pipe failed'') s1
      else (case set_both_close_on_exec E s1 of (both, e2, s2) \<Rightarrow>
        if \<not> both
        then fail_stage bl (p0 # p1 # held) (spawn_error E err e2 ''configuring exec status pipe failed'') s2
        else place_status_pipe E bl held p0 p1 err s2)) }"

text \<open>The exit and the release pipe are opened the same way.\<close>

definition open_process_pipe ::
  "spawn_env \<Rightarrow> spawn_blocks \<Rightarrow> fd list \<Rightarrow> string \<Rightarrow> string \<Rightarrow> PtyError option \<Rightarrow> spawn_state \<Rightarrow> (fd \<times> fd) stage_result" where
  "open_process_pipe E bl held creating placing err s = do {
     (r, p0, p1, e, s1) \<leftarrow> open_cloexec_pipe E s;
     (if r \<noteq> 0 then fail_stage bl held (spawn_error E err e creating) s1
      else do {
        (q0, e0, s2) \<leftarrow> move_fd_above E p0 (PTY_CHILD_STATUS_FD + 1) 0 s1;
        (q1, e1, s3) \<leftarrow> move_fd_above E p1 (PTY_CHILD_STATUS_FD + 1) e0 s2;
        (case (if q0 < 0 \<or> q1 < 0 then (False, 0, s3) else set_both_close_on_exec E s3) of (both, e2, s4) \<Rightarrow>
          if \<not> both
          then fail_stage bl (held_fds [q0, q1] @ held)
            (spawn_error E err (if e1 \<noteq> 0 then e1 else e2) placing) s4
          else Some (Continue (q0, q1), s4)) }) }"

text \<open>The signal mask and the fork; the launcher's code is in theory \<open>Unix_Child\<close>.\<close>

definition fork_launcher ::
  "spawn_env \<Rightarrow> spawn_blocks \<Rightarrow> fd list \<Rightarrow> PtyError option \<Rightarrow> spawn_state \<Rightarrow> int stage_result" where
  "fork_launcher E bl held err s =
     (case sys_check E s of (r, e, s1) \<Rightarrow>
        if r \<noteq> 0 then fail_stage bl held (spawn_error E err e ''preparing child signal mask failed'') s1
        else (case next_answer E s1 of (a, s2) \<Rightarrow>
          if sr_fail a \<or> sr_value a \<le> 0
          then fail_stage bl held (spawn_error E err (sr_errno a) ''fork failed'') s2
          else Some (Continue (sr_value a), s2)))"

definition child_failure_kind :: "PtyChildError \<Rightarrow> PtyErrorKind" where
  "child_failure_kind e =
     (if ce_stage e = 6 then PTY_ERROR_WORKING_DIRECTORY
      else if ce_error_number e = EACCES then PTY_ERROR_PERMISSION_DENIED
      else if ce_error_number e = ENOENT then PTY_ERROR_NOT_FOUND else PTY_ERROR_SPAWN_FAILED)"

definition internal_spawn_error :: "PtyError option \<Rightarrow> string \<Rightarrow> PtyError option" where
  "internal_spawn_error err msg =
     pty_error_set err PTY_ERROR_DOMAIN_INTERNAL PTY_ERROR_SPAWN_FAILED (scast EIO) (Some msg)"

text \<open>After the fork: the launcher is awaited, the status pipe is read to its end. Something on it is a
  failure; else the supervisor's first report is the pid of the program.\<close>

definition child_failed ::
  "spawn_env \<Rightarrow> fd \<Rightarrow> fd \<Rightarrow> fd \<Rightarrow> fd \<Rightarrow> int \<Rightarrow> PtyChildError \<Rightarrow> PtyError option \<Rightarrow> spawn_state \<Rightarrow> 'a stage_result" where
  "child_failed E master slave exit0 release1 status_result child_error err s =
     (case (if status_result < 0 then sys_reads E s else ([], s)) of (reads, s1) \<Rightarrow>
        (let program = (if status_result < 0 then (case read_program reads of (r, p) \<Rightarrow> if r \<noteq> 1 then -1 else p)
                        else -1)
         in do {
           s2 \<leftarrow> close_fds [exit0, release1] s1;
           s3 \<leftarrow> cleanup_failed_child program master s2;
           s4 \<leftarrow> sys_close slave s3;
           Some (Failed
             (if status_result < 0 then internal_spawn_error err ''invalid exec status response''
              else pty_error_set_errno (e_strerror E) err (child_failure_kind child_error)
                (ce_error_number child_error) (Some ''Unix child setup failed'')), s4) }))"

definition finish_spawn ::
  "spawn_env \<Rightarrow> spawn_blocks \<Rightarrow> fd \<Rightarrow> fd \<Rightarrow> fd \<Rightarrow> fd \<Rightarrow> fd \<Rightarrow> fd \<Rightarrow> fd \<Rightarrow> fd \<Rightarrow> PtyError option \<Rightarrow> spawn_state \<Rightarrow>
     (fd \<times> fd \<times> PtyUnixProcess) stage_result" where
  "finish_spawn E bl master slave status0 status_fd exit0 exit1 release0 release1 err s = do {
     s1 \<leftarrow> close_fds [status_fd, exit1, release0] s;
     (case sys_check E s1 of (_, _, s2) \<Rightarrow>
       (case sys_reads E s2 of (status_reads, s3) \<Rightarrow>
         (case read_child_error status_reads of (status_result, child_error) \<Rightarrow> do {
            s4 \<leftarrow> sys_close status0 s3;
            s5 \<leftarrow> free_blocks bl s4;
            (if status_result \<noteq> 0
             then child_failed E master slave exit0 release1 status_result child_error err s5
             else
               (case sys_reads E s5 of (reads, s6) \<Rightarrow>
                 (case read_program reads of (r, program) \<Rightarrow>
                   if r \<noteq> 1 \<or> program \<le> 0
                   then do {
                     s7 \<leftarrow> close_fds [exit0, release1] s6;
                     s8 \<leftarrow> cleanup_failed_child (-1) master s7;
                     s9 \<leftarrow> sys_close slave s8;
                     Some (Failed (internal_spawn_error err ''reading the spawned process id failed''), s9) }
                   else
                     (case set_nonblocking E s6 of (nonblocking, e, s7) \<Rightarrow>
                       if nonblocking \<noteq> 0
                       then do {
                         s8 \<leftarrow> cleanup_failed_child program master s7;
                         s9 \<leftarrow> close_fds [exit0, release1, slave] s8;
                         Some (Failed (spawn_error E err e ''configuring PTY master failed''), s9) }
                       else Some (Continue (master, slave, \<lparr>proc_process_id = program, proc_exit_fd = exit0,
                                             proc_release_fd = release1\<rparr>), s7))))) }))) }"

definition spawn_process ::
  "spawn_env \<Rightarrow> spawn_blocks \<Rightarrow> PtyError option \<Rightarrow> spawn_state \<Rightarrow> (fd \<times> fd \<times> PtyUnixProcess) stage_result" where
  "spawn_process E bl err s = do {
     (terminal, s1) \<leftarrow> open_terminal E bl err s;
     (case terminal of
        Failed e \<Rightarrow> Some (Failed e, s1)
      | Continue (master, slave) \<Rightarrow> do {
          (status, s2) \<leftarrow> open_status_pipe E bl [master, slave] err s1;
          (case status of
             Failed e \<Rightarrow> Some (Failed e, s2)
           | Continue (status0, status_fd) \<Rightarrow> do {
               (exit_pipe, s3) \<leftarrow> open_process_pipe E bl [status0, status_fd, master, slave]
                 ''creating exit status pipe failed'' ''placing exit status pipe failed'' err s2;
               (case exit_pipe of
                  Failed e \<Rightarrow> Some (Failed e, s3)
                | Continue (exit0, exit1) \<Rightarrow> do {
                    (release_pipe, s4) \<leftarrow> open_process_pipe E bl [exit0, exit1, status0, status_fd, master, slave]
                      ''creating process release pipe failed'' ''placing process release pipe failed'' err s3;
                    (case release_pipe of
                       Failed e \<Rightarrow> Some (Failed e, s4)
                     | Continue (release0, release1) \<Rightarrow> do {
                         (child, s5) \<leftarrow> fork_launcher E bl
                           [release0, release1, exit0, exit1, status0, status_fd, master, slave] err s4;
                         (case child of
                            Failed e \<Rightarrow> Some (Failed e, s5)
                          | Continue _ \<Rightarrow>
                              finish_spawn E bl master slave status0 status_fd exit0 exit1 release0 release1 err s5) }) }) }) }) }"

text \<open>The caller's output parameters are never NULL in the program; the result is 0 with the error, or 1
  with the terminal and the process.\<close>

definition pty_unix_spawn ::
  "spawn_env \<Rightarrow> spawn_options option \<Rightarrow> PtyError option \<Rightarrow> spawn_state \<Rightarrow> (fd \<times> fd \<times> PtyUnixProcess) stage_result" where
  "pty_unix_spawn E options error0 s =
     (let err = pty_error_clear error0;
          invalid = (\<lambda>msg. Some (Failed (pty_error_set err PTY_ERROR_DOMAIN_INTERNAL PTY_ERROR_INVALID_ARGUMENT
            (scast EINVAL) (Some msg)), s))
      in if options = None \<or> sp_executable (the options) = None \<or> sp_executable (the options) = Some []
         then invalid ''invalid Unix spawn options''
         else if \<not> pty_size_is_valid (sp_size (the options)) then invalid ''invalid Unix PTY size''
         else
           (case validate_working_directory (e_strerror E) (e_stat E) (sp_working_directory (the options)) err of
              (False, err1) \<Rightarrow> Some (Failed err1, s)
            | (True, err1) \<Rightarrow> do {
                (prepared, s1) \<leftarrow> prepare_arguments E (the options) err1 s;
                (case prepared of
                   Failed e \<Rightarrow> Some (Failed e, s1)
                 | Continue bl \<Rightarrow> spawn_process E bl err1 s1) }))"

end
