(* ===== verification/Spawn_Resources.thy ===== *)
theory Spawn_Resources
  imports Unix_Spawn
begin

section \<open>Descriptors and memory of \<open>pty_unix_spawn\<close>\<close>

text \<open>The process holds the descriptors \<open>F\<close> beside the ones it had, \<open>D\<close>; its heap is \<open>H\<close>.\<close>

definition holds :: "fd set \<Rightarrow> fd set \<Rightarrow> uheap \<Rightarrow> spawn_state \<Rightarrow> bool" where
  "holds D F H s \<longleftrightarrow> k_open s = D \<union> F \<and> F \<inter> D = {} \<and> (\<forall>d \<in> F. 0 \<le> d) \<and> k_heap s = H"

text \<open>Everything was given back.\<close>

definition restored :: "fd set \<Rightarrow> (nat \<Rightarrow> cell option list option) \<Rightarrow> spawn_state \<Rightarrow> bool" where
  "restored D blocks s \<longleftrightarrow> k_open s = D \<and> h_block (k_heap s) = blocks"

definition blocks_ok :: "spawn_blocks \<Rightarrow> uheap \<Rightarrow> (nat \<Rightarrow> cell option list option) \<Rightarrow> bool" where
  "blocks_ok bl H blocks \<longleftrightarrow> (\<forall>s. k_heap s = H \<longrightarrow>
     (\<exists>h. free_blocks bl s = Some (s\<lparr>k_heap := h\<rparr>) \<and> h_block h = blocks))"

subsection \<open>System calls\<close>

lemma next_answer_holds: "holds D F H s \<Longrightarrow> next_answer E s = (a, s') \<Longrightarrow> holds D F H s'"
  by (auto simp: next_answer_def holds_def)

lemma sys_check_cases:
  assumes "holds D F H s"
  obtains r e s' where "sys_check E s = (r, e, s')" "holds D F H s'" "r = 0 \<or> r = -1"
  using assms by (auto simp: sys_check_def next_answer_def holds_def)

lemma sys_reads_cases:
  assumes "holds D F H s"
  obtains reads s' where "sys_reads E s = (reads, s')" "holds D F H s'"
  using assms by (auto simp: sys_reads_def next_answer_def holds_def)

lemma sys_fd_cases:
  assumes "holds D F H s" and "0 \<le> minimum"
  obtains (fail) e s' where "sys_fd E minimum s = (-1, e, s')" "holds D F H s'"
  | (new) d e s' where "sys_fd E minimum s = (d, e, s')" "holds D (insert d F) H s'" "minimum \<le> d" "d \<notin> F" "d \<notin> D"
proof (cases "next_answer E s")
  case (Pair a s1)
  have s1: "holds D F H s1" using next_answer_holds [OF assms(1) Pair] .
  let ?new = "\<not> sr_fail a \<and> minimum \<le> sr_value a \<and> 0 \<le> sr_value a \<and> sr_value a \<notin> k_open s1"
  show ?thesis
  proof (cases ?new)
    case True
    show ?thesis
      by (rule new [of "sr_value a" "sr_errno a" "s1\<lparr>k_open := insert (sr_value a) (k_open s1)\<rparr>"])
        (use s1 True Pair in \<open>auto simp: sys_fd_def holds_def\<close>)
  next
    case False
    show ?thesis by (rule fail [of "sr_errno a" s1]) (use s1 False Pair in \<open>auto simp: sys_fd_def\<close>)
  qed
qed

lemma sys_pair_cases:
  assumes "holds D F H s"
  obtains (fail) d0 d1 e s' where "sys_pair E s = (-1, d0, d1, e, s')" "holds D F H s'"
  | (new) d0 d1 e s' where "sys_pair E s = (0, d0, d1, e, s')" "holds D (insert d0 (insert d1 F)) H s'"
      "d0 \<noteq> d1" "d0 \<notin> F" "d1 \<notin> F" "0 \<le> d0" "0 \<le> d1"
proof (cases "next_answer E s")
  case (Pair a s1)
  have s1: "holds D F H s1" using next_answer_holds [OF assms(1) Pair] .
  let ?new = "\<not> sr_fail a \<and> 0 \<le> sr_value a \<and> 0 \<le> sr_value2 a \<and> sr_value a \<noteq> sr_value2 a \<and>
    sr_value a \<notin> k_open s1 \<and> sr_value2 a \<notin> k_open s1"
  show ?thesis
  proof (cases ?new)
    case True
    show ?thesis
      by (rule new [of "sr_value a" "sr_value2 a" "sr_errno a"
            "s1\<lparr>k_open := insert (sr_value a) (insert (sr_value2 a) (k_open s1))\<rparr>"])
        (use s1 True Pair in \<open>auto simp: sys_pair_def holds_def\<close>)
  next
    case False
    show ?thesis
      by (rule fail [of "-1" "-1" "sr_errno a" s1]) (use s1 False Pair in \<open>auto simp: sys_pair_def\<close>)
  qed
qed

lemma sys_close_holds:
  assumes "holds D F H s" and "d \<in> F"
  obtains s' where "sys_close d s = Some s'" "holds D (F - {d}) H s'"
proof -
  have "sys_close d s = Some (s\<lparr>k_open := k_open s - {d}\<rparr>)" using assms by (simp add: sys_close_def holds_def)
  moreover have "holds D (F - {d}) H (s\<lparr>k_open := k_open s - {d}\<rparr>)" using assms by (auto simp: holds_def)
  ultimately show ?thesis by (rule that)
qed

lemma close_fds_holds:
  assumes "holds D F H s" and "distinct fds" and "set fds \<subseteq> F"
  obtains s' where "close_fds fds s = Some s'" "holds D (F - set fds) H s'"
  using assms
proof (induction fds arbitrary: s F thesis)
  case Nil
  then show ?case by simp
next
  case (Cons d fds)
  obtain s1 where s1: "sys_close d s = Some s1" "holds D (F - {d}) H s1"
    using sys_close_holds [OF Cons.prems(2), of d] Cons.prems(4) by auto
  obtain s2 where s2: "close_fds fds s1 = Some s2" "holds D (F - {d} - set fds) H s2"
    using Cons.IH [OF _ s1(2)] Cons.prems(3,4) by auto
  have "F - {d} - set fds = F - set (d # fds)" by auto
  then show ?case using Cons.prems(1) [of s2] s1(1) s2 by simp
qed

lemma fail_stage_restores:
  assumes "holds D F H s" and "blocks_ok bl H blocks" and "distinct fds" and "set fds = F"
  shows "\<exists>s'. fail_stage bl fds err s = Some (Failed err, s') \<and> restored D blocks s'"
proof -
  obtain s1 where s1: "close_fds fds s = Some s1" "holds D (F - set fds) H s1"
    using close_fds_holds [OF assms(1,3)] assms(4) by blast
  then have s1': "k_open s1 = D" "k_heap s1 = H" using assms(4) by (simp_all add: holds_def)
  with assms(2) obtain h where "free_blocks bl s1 = Some (s1\<lparr>k_heap := h\<rparr>)" "h_block h = blocks"
    unfolding blocks_ok_def by blast
  then show ?thesis using s1 s1' by (simp add: fail_stage_def restored_def)
qed

lemma fail_stage_post:
  assumes "holds D F H s" and "blocks_ok bl H blocks" and "distinct fds" and "set fds = F"
  shows "\<exists>r s'. fail_stage bl fds err s = Some (r, s') \<and>
    (case r of Failed _ \<Rightarrow> restored D blocks s' | Continue x \<Rightarrow> Q x s')"
  using fail_stage_restores [OF assms, of err] by force

lemma set_close_on_exec_cases:
  assumes "holds D F H s"
  obtains r e s' where "set_close_on_exec E s = (r, e, s')" "holds D F H s'"
proof -
  obtain r e s1 where 1: "sys_check E s = (r, e, s1)" "holds D F H s1" using sys_check_cases [OF assms] by metis
  obtain r2 e2 s2 where 2: "sys_check E s1 = (r2, e2, s2)" "holds D F H s2" using sys_check_cases [OF 1(2)] by metis
  show ?thesis
  proof (cases "r < 0")
    case True
    show ?thesis by (rule that [of "-1" e s1]) (use 1 True in \<open>simp_all add: set_close_on_exec_def\<close>)
  next
    case False
    show ?thesis by (rule that [of r2 e2 s2]) (use 1 2 False in \<open>simp_all add: set_close_on_exec_def\<close>)
  qed
qed

lemma set_nonblocking_eq: "set_nonblocking E s = set_close_on_exec E s"
  by (simp add: set_nonblocking_def set_close_on_exec_def)

lemma set_both_cases:
  assumes "holds D F H s"
  obtains both e s' where "set_both_close_on_exec E s = (both, e, s')" "holds D F H s'"
proof -
  obtain r e s1 where 1: "set_close_on_exec E s = (r, e, s1)" "holds D F H s1"
    using set_close_on_exec_cases [OF assms] by metis
  obtain r2 e2 s2 where 2: "set_close_on_exec E s1 = (r2, e2, s2)" "holds D F H s2"
    using set_close_on_exec_cases [OF 1(2)] by metis
  show ?thesis
  proof (cases "r = 0")
    case True
    show ?thesis
      by (rule that [of "r2 = 0" e2 s2]) (use 1 2 True in \<open>simp_all add: set_both_close_on_exec_def\<close>)
  next
    case False
    show ?thesis by (rule that [of False e s1]) (use 1 False in \<open>simp_all add: set_both_close_on_exec_def\<close>)
  qed
qed

lemma move_fd_above_cases:
  assumes "holds D F H s" and "d \<in> F" and "0 \<le> minimum"
  obtains (lost) e s' where "move_fd_above E d minimum e0 s = Some (-1, e, s')" "holds D (F - {d}) H s'"
  | (moved) d' s' where "move_fd_above E d minimum e0 s = Some (d', e0, s')"
      "holds D (insert d' (F - {d})) H s'" "minimum \<le> d'" "d' \<notin> F - {d}"
proof (cases "minimum \<le> d")
  case True
  show ?thesis
    by (rule moved [of d s]) (use True assms in \<open>auto simp: move_fd_above_def insert_absorb\<close>)
next
  case False
  from assms(1,3) show ?thesis
  proof (cases rule: sys_fd_cases [where E = E])
    case (fail e s1)
    obtain s2 where "sys_close d s1 = Some s2" "holds D (F - {d}) H s2"
      using sys_close_holds [OF fail(2) assms(2)] by blast
    then show ?thesis by (intro lost [of e s2]) (use False fail in \<open>simp_all add: move_fd_above_def\<close>)
  next
    case (new d' e s1)
    obtain s2 where s2: "sys_close d s1 = Some s2" "holds D (insert d' F - {d}) H s2"
      using sys_close_holds [OF new(2), of d] assms(2) by blast
    have "insert d' F - {d} = insert d' (F - {d})" using new(4) assms(2) by auto
    then show ?thesis
      using s2 new assms(3) False by (intro moved [of d' s2]) (simp_all add: move_fd_above_def)
  qed
qed

lemma open_cloexec_pipe_cases:
  assumes "holds D F H s"
  obtains (fail) r d0 d1 e s' where "open_cloexec_pipe E s = Some (r, d0, d1, e, s')" "r \<noteq> 0" "holds D F H s'"
  | (new) d0 d1 e s' where "open_cloexec_pipe E s = Some (0, d0, d1, e, s')"
      "holds D (insert d0 (insert d1 F)) H s'" "d0 \<noteq> d1" "d0 \<notin> F" "d1 \<notin> F" "0 \<le> d0" "0 \<le> d1"
  using assms
proof (cases rule: sys_pair_cases [where E = E])
  case (fail d0 d1 e s')
  show ?thesis
    by (rule that(1) [of "-1" d0 d1 e s']) (use fail in \<open>simp_all add: open_cloexec_pipe_def\<close>)
next
  case (new d0 d1 e s1)
  show ?thesis
  proof (cases "e_linux E")
    case True
    show ?thesis by (rule that(2) [of d0 d1 e s1]) (use new True in \<open>simp_all add: open_cloexec_pipe_def\<close>)
  next
    case False
    obtain both e2 s2 where 2: "set_both_close_on_exec E s1 = (both, e2, s2)" "holds D (insert d0 (insert d1 F)) H s2"
      using set_both_cases [OF new(2)] by metis
    show ?thesis
    proof (cases both)
      case True
      show ?thesis
        by (rule that(2) [of d0 d1 e2 s2]) (use new 2 True False in \<open>simp_all add: open_cloexec_pipe_def\<close>)
    next
      case no: False
      obtain s3 where s3: "close_fds [d0, d1] s2 = Some s3" "holds D (insert d0 (insert d1 F) - set [d0, d1]) H s3"
        using close_fds_holds [OF 2(2), of "[d0, d1]"] new(3) by auto
      have "insert d0 (insert d1 F) - set [d0, d1] = F" using new(4,5) by auto
      then show ?thesis
        using s3 new(1) 2(1) no False
        by (intro that(1) [of "-1" d0 d1 e2 s3]) (simp_all add: open_cloexec_pipe_def del: close_fds.simps)
    qed
  qed
qed

subsection \<open>The terminal\<close>

text \<open>A failing \<open>pty_open\<close> keeps no descriptor.\<close>

lemma pty_open_android_cases:
  assumes s: "holds D F H s"
  obtains (fail) r d0 d1 e s' where "pty_open_android E s = Some (r, d0, d1, e, s')" "r \<noteq> 0" "holds D F H s'"
  | (new) d0 d1 e s' where "pty_open_android E s = Some (0, d0, d1, e, s')"
      "holds D (insert d0 (insert d1 F)) H s'" "d0 \<noteq> d1" "d0 \<notin> F" "d1 \<notin> F" "0 \<le> d0" "0 \<le> d1"
  using s order.refl [of "0 :: fd"]
proof (cases rule: sys_fd_cases [where E = E])
  case (fail e s1)
  show ?thesis by (rule that(1) [of "-1" "-1" "-1" e s1]) (use fail in \<open>simp_all add: pty_open_android_def\<close>)
next
  case (new m e s1)
  have give_up: "\<exists>s'. sys_close m g = Some s' \<and> holds D F H s'" if held: "holds D (insert m F) H g" for g
  proof -
    obtain s' where "sys_close m g = Some s'" "holds D (insert m F - {m}) H s'"
      using sys_close_holds [OF held, of m] by blast
    then show ?thesis using new(4) by (simp add: Diff_insert_absorb)
  qed
  obtain g e2 s2 where 2: "sys_check E s1 = (g, e2, s2)" "holds D (insert m F) H s2"
    using sys_check_cases [OF new(2)] by metis
  obtain u e3 s3 where 3: "(if g = 0 then sys_check E s2 else (g, e2, s2)) = (u, e3, s3)" "holds D (insert m F) H s3"
  proof (cases "g = 0")
    case True
    then show ?thesis using sys_check_cases [OF 2(2)] that by metis
  next
    case False
    then show ?thesis using 2 that by simp
  qed
  note start = pty_open_android_def new(1) 2(1) 3(1)
  show ?thesis
  proof (cases "g \<noteq> 0 \<or> u \<noteq> 0")
    case True
    obtain s4 where "sys_close m s3 = Some s4" "holds D F H s4" using give_up [OF 3(2)] by blast
    then show ?thesis
      using True new(3) by (intro that(1) [of "-1" "-1" "-1" e3 s4]) (simp_all add: start)
  next
    case False
    then have gu: "g = 0" "sys_check E s2 = (0, e3, s3)" using 3(1) by auto
    obtain n e4 s4 where 4: "sys_check E s3 = (n, e4, s4)" "holds D (insert m F) H s4"
      using sys_check_cases [OF 3(2)] by metis
    show ?thesis
    proof (cases "n = 0")
      case False
      obtain s5 where "sys_close m s4 = Some s5" "holds D F H s5" using give_up [OF 4(2)] by blast
      then show ?thesis
        using gu False 4(1) new(3) by (intro that(1) [of "-1" "-1" "-1" e4 s5]) (simp_all add: start)
    next
      case n: True
      from 4(2) order.refl [of "0 :: fd"] show ?thesis
      proof (cases rule: sys_fd_cases [where E = E])
        case (fail e5 s5)
        obtain s6 where "sys_close m s5 = Some s6" "holds D F H s6" using give_up [OF fail(2)] by blast
        then show ?thesis
          using gu n 4(1) new(3) fail(1) by (intro that(1) [of "-1" "-1" "-1" e5 s6]) (simp_all add: start)
      next
        case slave: (new sl e5 s5)
        obtain z e6 s6 where 6: "sys_check E s5 = (z, e6, s6)" "holds D (insert sl (insert m F)) H s6"
          using sys_check_cases [OF slave(2)] by metis
        show ?thesis
        proof (cases "z = 0")
          case True
          have "insert sl (insert m F) = insert m (insert sl F)" by auto
          then show ?thesis
            using gu n 4(1) new(3,4) slave 6 True
            by (intro that(2) [of m sl e6 s6]) (auto simp: start)
        next
          case False
          obtain s7 where s7: "sys_close sl s6 = Some s7" "holds D (insert sl (insert m F) - {sl}) H s7"
            using sys_close_holds [OF 6(2), of sl] by blast
          have "insert sl (insert m F) - {sl} = insert m F" using slave(4) by auto
          then obtain s8 where s8: "sys_close m s7 = Some s8" "holds D F H s8" using give_up s7(2) by metis
          show ?thesis
            using gu n 4(1) new(3) slave(1,3) 6(1) False s7(1) s8
            by (intro that(1) [of "-1" "-1" "-1" e6 s8]) (simp_all add: start)
        qed
      qed
    qed
  qed
qed

lemma pty_open_cases:
  assumes "holds D F H s"
  obtains (fail) r d0 d1 e s' where "pty_open_serialized E s = Some (r, d0, d1, e, s')" "r \<noteq> 0" "holds D F H s'"
  | (new) d0 d1 e s' where "pty_open_serialized E s = Some (0, d0, d1, e, s')"
      "holds D (insert d0 (insert d1 F)) H s'" "d0 \<noteq> d1" "d0 \<notin> F" "d1 \<notin> F" "0 \<le> d0" "0 \<le> d1"
proof (cases "e_android E")
  case True
  with assms show ?thesis
    by (cases rule: pty_open_android_cases [where E = E])
      (use True that in \<open>auto simp: pty_open_serialized_def pty_open_def\<close>)
next
  case False
  with assms show ?thesis
    by (cases rule: sys_pair_cases [where E = E])
      (use False that in \<open>auto simp: pty_open_serialized_def pty_open_def\<close>)
qed

lemma place_terminal_post:
  assumes s: "holds D {m, sl} H s" and bl: "blocks_ok bl H blocks" and ne: "m \<noteq> sl"
  shows "\<exists>r s'. place_terminal E bl m sl err s = Some (r, s') \<and>
    (case r of Failed _ \<Rightarrow> restored D blocks s' | Continue (m', sl') \<Rightarrow> m' \<noteq> sl' \<and> holds D {m', sl'} H s')"
proof -
  obtain m1 e1 s1 where 1: "move_fd_above E m (PTY_CHILD_STATUS_FD + 1) 0 s = Some (m1, e1, s1)"
    "m1 = -1 \<and> holds D {sl} H s1 \<or> 0 \<le> m1 \<and> m1 \<noteq> sl \<and> holds D {m1, sl} H s1"
    by (rule move_fd_above_cases [OF s, of m "PTY_CHILD_STATUS_FD + 1" E 0])
      (use ne that in \<open>auto simp: insert_Diff_if\<close>)
  have held: "{x. x = m1 \<and> 0 \<le> m1} \<union> {sl} = (if m1 = -1 then {sl} else {m1, sl})" using 1(2) by auto
  then obtain sl1 e2 s2 where 2: "move_fd_above E sl (PTY_CHILD_STATUS_FD + 1) e1 s1 = Some (sl1, e2, s2)"
    "sl1 = -1 \<and> holds D (if m1 = -1 then {} else {m1}) H s2 \<or>
     0 \<le> sl1 \<and> m1 \<noteq> sl1 \<and> holds D (if m1 = -1 then {sl1} else {m1, sl1}) H s2"
  proof -
    have s1: "holds D (if m1 = -1 then {sl} else {m1, sl}) H s1" using 1(2) by auto
    have diff: "(if m1 = -1 then {sl} else {m1, sl}) - {sl} = (if m1 = -1 then {} else {m1})"
      using 1(2) by auto
    have "sl \<in> (if m1 = -1 then {sl} else {m1, sl})" "0 \<le> PTY_CHILD_STATUS_FD + 1" by simp_all
    with s1 show ?thesis
    proof (cases rule: move_fd_above_cases [where E = E and ?e0.0 = e1])
      case (lost e s')
      then show ?thesis using that [of "-1" e s'] diff by simp
    next
      case (moved d' s')
      have "insert d' (if m1 = -1 then {} else {m1}) = (if m1 = -1 then {d'} else {m1, d'})" by auto
      moreover have "m1 \<noteq> d'" using moved(3,4) diff 1(2) by (auto split: if_splits)
      ultimately show ?thesis using that [of d' e1 s'] moved diff by simp
    qed
  qed
  show ?thesis
  proof (cases "m1 \<ge> 0 \<and> sl1 \<ge> 0")
    case True
    have s2: "holds D {m1, sl1} H s2" and ne': "m1 \<noteq> sl1" using 2(2) True by auto
    obtain both e3 s3 where 3: "set_both_close_on_exec E s2 = (both, e3, s3)" "holds D {m1, sl1} H s3"
      using set_both_cases [OF s2] by metis
    show ?thesis
    proof (cases both)
      case both: True
      then show ?thesis using 1(1) 2(1) True 3 ne' by (simp add: place_terminal_def)
    next
      case False
      obtain s4 where s4: "close_fds [m1, sl1] s3 = Some s4" "holds D ({m1, sl1} - set [m1, sl1]) H s4"
        using close_fds_holds [OF 3(2), of "[m1, sl1]"] ne' by auto
      then have "holds D {} H s4" by simp
      then show ?thesis
        using s4(1) 1(1) 2(1) True 3(1) False
        by (simp add: place_terminal_def held_fds_def fail_stage_post [OF _ bl] del: close_fds.simps)
    qed
  next
    case False
    have "m1 < 0 \<or> sl1 < 0" using False by auto
    have s2: "holds D (set (held_fds [m1, sl1])) H s2" "distinct (held_fds [m1, sl1])"
      using 1(2) 2(2) False by (auto simp: held_fds_def)
    show ?thesis
      using 1(1) 2(1) False \<open>m1 < 0 \<or> sl1 < 0\<close>
      by (auto simp: place_terminal_def intro!: fail_stage_post [OF s2(1) bl s2(2) refl])
  qed
qed

lemma open_terminal_post:
  assumes s: "holds D {} H s" and bl: "blocks_ok bl H blocks"
  shows "\<exists>r s'. open_terminal E bl err s = Some (r, s') \<and>
    (case r of Failed _ \<Rightarrow> restored D blocks s' | Continue (m, sl) \<Rightarrow> m \<noteq> sl \<and> holds D {m, sl} H s')"
  using s
proof (cases rule: pty_open_cases [where E = E])
  case (fail r d0 d1 e s1)
  show ?thesis
    unfolding open_terminal_def fail(1) by (simp add: fail(2) fail_stage_post [OF fail(3) bl])
next
  case (new m sl e s1)
  have at: "\<exists>q s2. terminal_attributes E bl m sl err s1 = Some (q, s2) \<and>
    (case q of Failed _ \<Rightarrow> restored D blocks s2 | Continue _ \<Rightarrow> holds D {m, sl} H s2)"
  proof (cases "e_iutf8 E")
    case True
    obtain r e1 s2 where 1: "sys_check E s1 = (r, e1, s2)" "holds D {m, sl} H s2"
      using sys_check_cases [OF new(2)] by metis
    obtain r2 e2 s3 where 2: "sys_check E s2 = (r2, e2, s3)" "holds D {m, sl} H s3"
      using sys_check_cases [OF 1(2)] by metis
    show ?thesis
      using True 1 2 new(3)
      by (auto simp: terminal_attributes_def intro!: fail_stage_post [OF 1(2) bl] fail_stage_post [OF 2(2) bl])
  qed (use new in \<open>simp add: terminal_attributes_def\<close>)
  then obtain q s2 where q: "terminal_attributes E bl m sl err s1 = Some (q, s2)"
    "case q of Failed _ \<Rightarrow> restored D blocks s2 | Continue _ \<Rightarrow> holds D {m, sl} H s2" by blast
  show ?thesis
  proof (cases q)
    case (Failed err')
    then show ?thesis using q new(1) by (simp add: open_terminal_def)
  next
    case (Continue x)
    then show ?thesis
      using place_terminal_post [OF _ bl new(3), of D s2 E err] q new(1) by (auto simp: open_terminal_def)
  qed
qed

subsection \<open>The pipes\<close>

text \<open>What a pipe stage leaves: nothing, or its two descriptors beside the ones held before.\<close>

definition pipe_post ::
  "fd set \<Rightarrow> uheap \<Rightarrow> (nat \<Rightarrow> cell option list option) \<Rightarrow> fd list \<Rightarrow> (fd \<times> fd) stage \<Rightarrow> spawn_state \<Rightarrow> bool" where
  "pipe_post D H blocks held r s' \<longleftrightarrow>
     (case r of Failed _ \<Rightarrow> restored D blocks s'
      | Continue (a, b) \<Rightarrow> distinct (a # b # held) \<and> holds D (set (a # b # held)) H s')"

lemma fail_stage_pipe:
  assumes "holds D F H s" and "blocks_ok bl H blocks" and "distinct fds" and "set fds = F"
  shows "\<exists>r s'. fail_stage bl fds err s = Some (r, s') \<and> pipe_post D H blocks held r s'"
  using fail_stage_restores [OF assms, of err] by (force simp: pipe_post_def)

lemma open_process_pipe_post:
  assumes s: "holds D (set held) H s" and d: "distinct held" and bl: "blocks_ok bl H blocks"
    and pos: "\<forall>x \<in> set held. 0 \<le> x"
  shows "\<exists>r s'. open_process_pipe E bl held creating placing err s = Some (r, s') \<and> pipe_post D H blocks held r s'"
  using s
proof (cases rule: open_cloexec_pipe_cases [where E = E])
  case (fail r d0 d1 e s1)
  show ?thesis
    using fail(1,2) by (simp add: open_process_pipe_def fail_stage_pipe [OF fail(3) bl d])
next
  case (new p0 p1 e s1)
  let ?four = "PTY_CHILD_STATUS_FD + 1"
  let ?held0 = "\<lambda>q. (if q = -1 then {} else {q})"
  obtain q0 e0 s2 where 0: "move_fd_above E p0 ?four 0 s1 = Some (q0, e0, s2)"
    "q0 = -1 \<or> 0 \<le> q0 \<and> q0 \<noteq> p1 \<and> q0 \<notin> set held" "holds D (insert p1 (?held0 q0 \<union> set held)) H s2"
  proof -
    have diff: "insert p0 (insert p1 (set held)) - {p0} = insert p1 (set held)" using new(3,4) by auto
    show ?thesis
    proof (rule move_fd_above_cases [OF new(2), of p0 ?four E 0])
      fix e s'
      assume "move_fd_above E p0 ?four 0 s1 = Some (-1, e, s')"
        and "holds D (insert p0 (insert p1 (set held)) - {p0}) H s'"
      then show thesis using that [of "-1" e s'] diff by simp
    next
      fix d' s'
      assume "move_fd_above E p0 ?four 0 s1 = Some (d', 0, s')"
        and "holds D (insert d' (insert p0 (insert p1 (set held)) - {p0})) H s'"
        and "?four \<le> d'" and "d' \<notin> insert p0 (insert p1 (set held)) - {p0}"
      then show thesis using that [of d' 0 s'] unfolding diff by (simp add: insert_commute)
    qed simp_all
  qed
  obtain q1 e1 s3 where 1: "move_fd_above E p1 ?four e0 s2 = Some (q1, e1, s3)"
    "q1 = -1 \<or> 0 \<le> q1 \<and> q1 \<noteq> q0 \<and> q1 \<notin> set held" "holds D (?held0 q1 \<union> (?held0 q0 \<union> set held)) H s3"
  proof -
    have diff: "insert p1 (?held0 q0 \<union> set held) - {p1} = ?held0 q0 \<union> set held" using new(5) 0(2) by auto
    show ?thesis
    proof (rule move_fd_above_cases [OF 0(3), of p1 ?four E e0])
      fix e s'
      assume "move_fd_above E p1 ?four e0 s2 = Some (-1, e, s')"
        and "holds D (insert p1 (?held0 q0 \<union> set held) - {p1}) H s'"
      then show thesis using that [of "-1" e s'] diff by simp
    next
      fix d' s'
      assume "move_fd_above E p1 ?four e0 s2 = Some (d', e0, s')"
        and "holds D (insert d' (insert p1 (?held0 q0 \<union> set held) - {p1})) H s'"
        and "?four \<le> d'" and "d' \<notin> insert p1 (?held0 q0 \<union> set held) - {p1}"
      then show thesis using that [of d' e0 s'] diff 0(2) by (auto split: if_splits)
    qed simp_all
  qed
  have fds: "set (held_fds [q0, q1] @ held) = ?held0 q1 \<union> (?held0 q0 \<union> set held)" "distinct (held_fds [q0, q1] @ held)"
    using 0(2) 1(2) d by (auto simp: held_fds_def)
  show ?thesis
  proof (cases "q0 < 0 \<or> q1 < 0")
    case True
    then show ?thesis
      using new(1) 0(1) 1(1)
      by (simp add: open_process_pipe_def fail_stage_pipe [OF 1(3) bl fds(2,1)])
  next
    case False
    obtain both e2 s4 where 2: "set_both_close_on_exec E s3 = (both, e2, s4)"
        "holds D (?held0 q1 \<union> (?held0 q0 \<union> set held)) H s4"
      using set_both_cases [OF 1(3)] by metis
    show ?thesis
    proof (cases both)
      case True
      have "set (q0 # q1 # held) = ?held0 q1 \<union> (?held0 q0 \<union> set held)" and "distinct (q0 # q1 # held)"
        using False 0(2) 1(2) d by auto
      then show ?thesis
        using new(1) 0(1) 1(1) 2 False True by (auto simp: open_process_pipe_def pipe_post_def)
    next
      case no: False
      then show ?thesis
        using new(1) 0(1) 1(1) 2(1) False
        by (simp add: open_process_pipe_def fail_stage_pipe [OF 2(2) bl fds(2,1)])
    qed
  qed
qed

lemma place_status_pipe_post:
  assumes s: "holds D (set (p0 # p1 # held)) H s" and d: "distinct (p0 # p1 # held)" and bl: "blocks_ok bl H blocks"
    and pos: "\<forall>x \<in> set (p0 # p1 # held). 0 \<le> x"
  shows "\<exists>r s'. place_status_pipe E bl held p0 p1 err s = Some (r, s') \<and> pipe_post D H blocks held r s'"
proof -
  let ?four = "PTY_CHILD_STATUS_FD + 1"
  have diff: "set (p0 # p1 # held) - {p0} = set (p1 # held)" using d by auto
  show ?thesis
  proof (rule move_fd_above_cases [OF s, of p0 ?four E 0])
    fix e s1
    assume m: "move_fd_above E p0 ?four 0 s = Some (-1, e, s1)" and s1: "holds D (set (p0 # p1 # held) - {p0}) H s1"
    have "distinct (p1 # held)" using d by simp
    from m show ?thesis
      by (simp add: place_status_pipe_def fail_stage_pipe [OF s1 [unfolded diff] bl \<open>distinct (p1 # held)\<close>])
  next
    fix q0 s1
    assume m: "move_fd_above E p0 ?four 0 s = Some (q0, 0, s1)"
      and s1: "holds D (insert q0 (set (p0 # p1 # held) - {p0})) H s1"
      and q0: "?four \<le> q0" "q0 \<notin> set (p0 # p1 # held) - {p0}"
    have dq: "distinct (q0 # p1 # held)" using q0(2) d by auto
    from s1 [unfolded diff] have s1': "holds D (set (q0 # p1 # held)) H s1" by simp
    have q0': "\<not> q0 < 0" using q0(1) by simp
    have "0 \<le> PTY_CHILD_STATUS_FD" by simp
    with s1' show ?thesis
    proof (cases rule: sys_fd_cases [where E = E])
      case (fail e1 s2)
      show ?thesis
        using m q0' fail(1)
        by (simp add: place_status_pipe_def held_fds_def fail_stage_pipe [OF fail(2) bl dq])
    next
      case (new status e1 s2)
      have ds: "distinct (q0 # p1 # status # held)" using dq new(4) by auto
      have set: "insert status (set (q0 # p1 # held)) = set (q0 # p1 # status # held)" by auto
      obtain r e2 s3 where 3: "set_close_on_exec E s2 = (r, e2, s3)" "holds D (set (q0 # p1 # status # held)) H s3"
        using set_close_on_exec_cases [OF new(2) [unfolded set]] by metis
      have st: "\<not> status < 0" "0 \<le> status" using new(3) by simp_all
      show ?thesis
      proof (cases "r = 0")
        case False
        show ?thesis
          using m q0' new(1) st 3(1) False
          by (simp add: place_status_pipe_def held_fds_def fail_stage_pipe [OF 3(2) bl ds])
      next
        case True
        obtain s4 where s4: "sys_close p1 s3 = Some s4" "holds D (set (q0 # p1 # status # held) - {p1}) H s4"
          using sys_close_holds [OF 3(2), of p1] by auto
        have "set (q0 # p1 # status # held) - {p1} = set (q0 # status # held)" and "distinct (q0 # status # held)"
          using ds by auto
        then show ?thesis
          using m q0' new(1) st 3(1) True s4 by (auto simp: place_status_pipe_def pipe_post_def)
      qed
    qed
  qed simp_all
qed

lemma open_status_pipe_post:
  assumes s: "holds D (set held) H s" and d: "distinct held" and bl: "blocks_ok bl H blocks"
    and pos: "\<forall>x \<in> set held. 0 \<le> x"
  shows "\<exists>r s'. open_status_pipe E bl held err s = Some (r, s') \<and> pipe_post D H blocks held r s'"
  using s
proof (cases rule: open_cloexec_pipe_cases [where E = E])
  case (fail r d0 d1 e s1)
  show ?thesis
    using fail(1,2) by (simp add: open_status_pipe_def fail_stage_pipe [OF fail(3) bl d])
next
  case (new p0 p1 e s1)
  have s1: "holds D (set (p0 # p1 # held)) H s1" using new(2) by simp
  have dp: "distinct (p0 # p1 # held)" using new(3-5) d by simp
  obtain both e2 s2 where 2: "set_both_close_on_exec E s1 = (both, e2, s2)" "holds D (set (p0 # p1 # held)) H s2"
    using set_both_cases [OF s1] by metis
  show ?thesis
  proof (cases both)
    case True
    then show ?thesis
      using new(1,6,7) 2 pos place_status_pipe_post [OF 2(2) dp bl, of E err] by (simp add: open_status_pipe_def)
  next
    case False
    then show ?thesis
      using new(1) 2(1) by (simp add: open_status_pipe_def fail_stage_pipe [OF 2(2) bl dp])
  qed
qed

subsection \<open>After the fork\<close>

lemma fork_launcher_post:
  assumes s: "holds D (set held) H s" and d: "distinct held" and bl: "blocks_ok bl H blocks"
  shows "\<exists>r s'. fork_launcher E bl held err s = Some (r, s') \<and>
    (case r of Failed _ \<Rightarrow> restored D blocks s' | Continue _ \<Rightarrow> holds D (set held) H s')"
proof -
  obtain r e s1 where 1: "sys_check E s = (r, e, s1)" "holds D (set held) H s1" using sys_check_cases [OF s] by metis
  obtain a s2 where 2: "next_answer E s1 = (a, s2)" by fastforce
  have s2: "holds D (set held) H s2" using next_answer_holds [OF 1(2) 2] .
  show ?thesis
    using 1(1) 2 s2
    by (auto simp: fork_launcher_def fail_stage_post [OF 1(2) bl d] fail_stage_post [OF s2 bl d])
qed

text \<open>What \<open>pty_unix_spawn\<close> leaves.\<close>

definition spawn_post ::
  "fd set \<Rightarrow> (nat \<Rightarrow> cell option list option) \<Rightarrow> (fd \<times> fd \<times> PtyUnixProcess) stage \<Rightarrow> spawn_state \<Rightarrow> bool" where
  "spawn_post D blocks r s' \<longleftrightarrow> h_block (k_heap s') = blocks \<and>
     (case r of Failed _ \<Rightarrow> k_open s' = D
      | Continue (master, slave, proc) \<Rightarrow>
          distinct [master, slave, proc_exit_fd proc, proc_release_fd proc] \<and>
          {master, slave, proc_exit_fd proc, proc_release_fd proc} \<inter> D = {} \<and>
          k_open s' = D \<union> {master, slave, proc_exit_fd proc, proc_release_fd proc} \<and>
          0 \<le> master \<and> 0 \<le> slave \<and> 0 \<le> proc_exit_fd proc \<and> 0 \<le> proc_release_fd proc \<and> 0 < proc_process_id proc)"

lemma restored_post: "restored D blocks s \<Longrightarrow> spawn_post D blocks (Failed e) s"
  by (simp add: restored_def spawn_post_def)

lemma cleanup_failed_child_holds:
  assumes "holds D F H s" and "master \<in> F"
  obtains s' where "cleanup_failed_child pid master s = Some s'" "holds D (F - {master}) H s'"
proof -
  obtain s1 where s1: "sys_close master s = Some s1" "holds D (F - {master}) H s1"
    using sys_close_holds [OF assms] by blast
  have "0 \<le> master" using assms by (simp add: holds_def)
  then show ?thesis
    using s1 that [of "if pid \<le> 0 then s1 else s1\<lparr>k_killed := k_killed s1 @ [- pid, pid]\<rparr>"]
    by (auto simp: cleanup_failed_child_def holds_def)
qed

text \<open>The three failures after the fork close the four descriptors that are left.\<close>

lemma close_rest:
  assumes s: "holds D {m, sl, e0, r1} H s" and d: "distinct [m, sl, e0, r1]"
  shows "\<exists>s'. do { s1 \<leftarrow> close_fds [e0, r1] s; s2 \<leftarrow> cleanup_failed_child pid m s1; sys_close sl s2 } = Some s' \<and>
    k_open s' = D \<and> k_heap s' = H"
    and "\<exists>s'. do { s1 \<leftarrow> cleanup_failed_child pid m s; close_fds [e0, r1, sl] s1 } = Some s' \<and>
    k_open s' = D \<and> k_heap s' = H"
proof -
  obtain s1 where 1: "close_fds [e0, r1] s = Some s1" "holds D ({m, sl, e0, r1} - set [e0, r1]) H s1"
    using close_fds_holds [OF s, of "[e0, r1]"] d by auto
  have set1: "{m, sl, e0, r1} - set [e0, r1] = {m, sl}" using d by auto
  obtain s2 where 2: "cleanup_failed_child pid m s1 = Some s2" "holds D ({m, sl} - {m}) H s2"
    using cleanup_failed_child_holds [of D "{m, sl}" H s1 m pid] 1(2) set1 by auto
  have set2: "{m, sl} - {m} = {sl}" using d by auto
  obtain s3 where 3: "sys_close sl s2 = Some s3" "holds D ({sl} - {sl}) H s3"
    using sys_close_holds [of D "{sl}" H s2 sl] 2(2) set2 by auto
  show "\<exists>s'. do { s1 \<leftarrow> close_fds [e0, r1] s; s2 \<leftarrow> cleanup_failed_child pid m s1; sys_close sl s2 } = Some s' \<and>
    k_open s' = D \<and> k_heap s' = H"
    using 1(1) 2(1) 3 by (simp add: holds_def del: close_fds.simps)
  obtain t1 where t1: "cleanup_failed_child pid m s = Some t1" "holds D ({m, sl, e0, r1} - {m}) H t1"
    using cleanup_failed_child_holds [OF s, of m pid] by auto
  have "{m, sl, e0, r1} - {m} = {sl, e0, r1}" using d by auto
  then obtain t2 where "close_fds [e0, r1, sl] t1 = Some t2" "holds D ({sl, e0, r1} - set [e0, r1, sl]) H t2"
    using close_fds_holds [of D "{sl, e0, r1}" H t1 "[e0, r1, sl]"] t1(2) d by auto
  then show "\<exists>s'. do { s1 \<leftarrow> cleanup_failed_child pid m s; close_fds [e0, r1, sl] s1 } = Some s' \<and>
    k_open s' = D \<and> k_heap s' = H"
    using t1(1) by (auto simp: holds_def simp del: close_fds.simps)
qed

lemma child_failed_post:
  assumes s: "holds D {m, sl, e0, r1} H s" and d: "distinct [m, sl, e0, r1]" and blocks: "h_block H = blocks"
  shows "\<exists>r s'. child_failed E m sl e0 r1 status ce err s = Some (r, s') \<and> spawn_post D blocks r s'"
proof -
  obtain reads s1 where 1: "(if status < 0 then sys_reads E s else ([], s)) = (reads, s1)" "holds D {m, sl, e0, r1} H s1"
    using sys_reads_cases [OF s] s by (metis (full_types))
  let ?pid = "if status < 0 then (case read_program reads of (r, p) \<Rightarrow> if r \<noteq> 1 then -1 else p) else -1"
  obtain s' where s': "do { s2 \<leftarrow> close_fds [e0, r1] s1; s3 \<leftarrow> cleanup_failed_child ?pid m s2; sys_close sl s3 } = Some s'"
      "k_open s' = D" "k_heap s' = H"
    using close_rest(1) [OF 1(2) d] by blast
  then obtain s2 s3 where "close_fds [e0, r1] s1 = Some s2" "cleanup_failed_child ?pid m s2 = Some s3" "sys_close sl s3 = Some s'"
    by (auto simp: bind_eq_Some_conv simp del: close_fds.simps)
  then show ?thesis
    using 1(1) s'(2,3) blocks by (simp add: child_failed_def Let_def spawn_post_def del: close_fds.simps)
qed

lemma finish_spawn_post:
  assumes s: "holds D (set [r0, r1, e0, e1, st0, st, m, sl]) H s" and d: "distinct [r0, r1, e0, e1, st0, st, m, sl]"
    and bl: "blocks_ok bl H blocks"
  shows "\<exists>r s'. finish_spawn E bl m sl st0 st e0 e1 r0 r1 err s = Some (r, s') \<and> spawn_post D blocks r s'"
proof -
  obtain s1 where 1: "close_fds [st, e1, r0] s = Some s1"
      "holds D (set [r0, r1, e0, e1, st0, st, m, sl] - set [st, e1, r0]) H s1"
    using close_fds_holds [OF s, of "[st, e1, r0]"] d by auto
  have "set [r0, r1, e0, e1, st0, st, m, sl] - set [st, e1, r0] = {st0, m, sl, e0, r1}" using d by auto
  with 1 have s1: "holds D {st0, m, sl, e0, r1} H s1" by simp
  obtain w we s2 where 2: "sys_check E s1 = (w, we, s2)" "holds D {st0, m, sl, e0, r1} H s2"
    using sys_check_cases [OF s1] by metis
  obtain reads s3 where 3: "sys_reads E s2 = (reads, s3)" "holds D {st0, m, sl, e0, r1} H s3"
    using sys_reads_cases [OF 2(2)] by metis
  obtain status ce where rd: "read_child_error reads = (status, ce)" by fastforce
  obtain s4 where 4: "sys_close st0 s3 = Some s4" "holds D ({st0, m, sl, e0, r1} - {st0}) H s4"
    using sys_close_holds [OF 3(2), of st0] by auto
  have "{st0, m, sl, e0, r1} - {st0} = {m, sl, e0, r1}" using d by auto
  with 4 have s4: "holds D {m, sl, e0, r1} H s4" by simp
  then obtain h where h: "free_blocks bl s4 = Some (s4\<lparr>k_heap := h\<rparr>)" "h_block h = blocks"
    using bl unfolding blocks_ok_def holds_def by blast
  let ?s5 = "s4\<lparr>k_heap := h\<rparr>"
  have s5: "holds D {m, sl, e0, r1} h ?s5" using s4 by (simp add: holds_def)
  have d4: "distinct [m, sl, e0, r1]" using d by auto
  note start = finish_spawn_def 1(1) 2(1) 3(1) rd 4(1) h(1)
  show ?thesis
  proof (cases "status = 0")
    case False
    then show ?thesis
      using child_failed_post [OF s5 d4 h(2)] by (simp add: start del: close_fds.simps)
  next
    case True
    obtain reads2 s6 where 6: "sys_reads E ?s5 = (reads2, s6)" "holds D {m, sl, e0, r1} h s6"
      using sys_reads_cases [OF s5] by metis
    obtain r pid where pid: "read_program reads2 = (r, pid)" by fastforce
    show ?thesis
    proof (cases "r \<noteq> 1 \<or> pid \<le> 0")
      case bad: True
      obtain s' where s': "do { s1 \<leftarrow> close_fds [e0, r1] s6; s2 \<leftarrow> cleanup_failed_child (-1) m s1; sys_close sl s2 } = Some s'"
          "k_open s' = D" "k_heap s' = h"
        using close_rest(1) [OF 6(2) d4] by blast
      then obtain t1 t2 where "close_fds [e0, r1] s6 = Some t1" "cleanup_failed_child (-1) m t1 = Some t2" "sys_close sl t2 = Some s'"
        by (auto simp: bind_eq_Some_conv simp del: close_fds.simps)
      then show ?thesis
        using True 6(1) pid bad s' h(2) by (simp add: start spawn_post_def del: close_fds.simps)
    next
      case good: False
      obtain nb e s7 where 7: "set_nonblocking E s6 = (nb, e, s7)" "holds D {m, sl, e0, r1} h s7"
        using set_close_on_exec_cases [OF 6(2), of E] by (metis set_nonblocking_eq)
      show ?thesis
      proof (cases "nb = 0")
        case nb: True
        have "spawn_post D blocks (Continue (m, sl, \<lparr>proc_process_id = pid, proc_exit_fd = e0, proc_release_fd = r1\<rparr>)) s7"
          using 7(2) d4 h(2) good by (auto simp: spawn_post_def holds_def)
        then show ?thesis
          using True 6(1) pid good 7(1) nb by (simp add: start del: close_fds.simps)
      next
        case nb: False
        obtain s' where s': "do { s1 \<leftarrow> cleanup_failed_child pid m s7; close_fds [e0, r1, sl] s1 } = Some s'"
            "k_open s' = D" "k_heap s' = h"
          using close_rest(2) [OF 7(2) d4] by blast
        then obtain t1 where "cleanup_failed_child pid m s7 = Some t1" "close_fds [e0, r1, sl] t1 = Some s'"
          by (auto simp: bind_eq_Some_conv simp del: close_fds.simps)
        then show ?thesis
          using True 6(1) pid good 7(1) nb s' h(2) by (simp add: start spawn_post_def del: close_fds.simps)
      qed
    qed
  qed
qed

lemma holds_nonneg: "holds D (set F) H s \<Longrightarrow> \<forall>x \<in> set F. 0 \<le> x"
  by (simp add: holds_def)

lemma spawn_process_post:
  assumes s: "holds D {} H s" and bl: "blocks_ok bl H blocks"
  shows "\<exists>r s'. spawn_process E bl err s = Some (r, s') \<and> spawn_post D blocks r s'"
proof -
  obtain r s1 where 1: "open_terminal E bl err s = Some (r, s1)"
    "case r of Failed _ \<Rightarrow> restored D blocks s1 | Continue (m, sl) \<Rightarrow> m \<noteq> sl \<and> holds D {m, sl} H s1"
    using open_terminal_post [OF s bl] by blast
  show ?thesis
  proof (cases r)
    case (Failed e)
    then show ?thesis using 1 restored_post by (auto simp: spawn_process_def)
  next
    case (Continue t)
    obtain m sl where t: "t = (m, sl)" by fastforce
    have s1: "holds D (set [m, sl]) H s1" "distinct [m, sl]" using 1(2) Continue t by simp_all
    obtain r2 s2 where 2: "open_status_pipe E bl [m, sl] err s1 = Some (r2, s2)" "pipe_post D H blocks [m, sl] r2 s2"
      using open_status_pipe_post [OF s1 bl holds_nonneg [OF s1(1)]] by blast
    note run1 = spawn_process_def 1(1) Continue t 2(1)
    show ?thesis
    proof (cases r2)
      case (Failed e)
      then show ?thesis using 2(2) restored_post by (auto simp: run1 pipe_post_def)
    next
      case (Continue u)
      obtain st0 st where u: "u = (st0, st)" by fastforce
      have s2: "holds D (set [st0, st, m, sl]) H s2" "distinct [st0, st, m, sl]"
        using 2(2) Continue u by (simp_all add: pipe_post_def)
      obtain r3 s3 where 3: "open_process_pipe E bl [st0, st, m, sl] ''creating exit status pipe failed''
            ''placing exit status pipe failed'' err s2 = Some (r3, s3)" "pipe_post D H blocks [st0, st, m, sl] r3 s3"
        using open_process_pipe_post [OF s2 bl holds_nonneg [OF s2(1)]] by blast
      note run2 = run1 Continue u 3(1)
      show ?thesis
      proof (cases r3)
        case (Failed e)
        then show ?thesis using 3(2) restored_post by (auto simp: run2 pipe_post_def)
      next
        case (Continue v)
        obtain e0 e1 where v: "v = (e0, e1)" by fastforce
        have s3: "holds D (set [e0, e1, st0, st, m, sl]) H s3" "distinct [e0, e1, st0, st, m, sl]"
          using 3(2) Continue v by (simp_all add: pipe_post_def)
        obtain r4 s4 where 4: "open_process_pipe E bl [e0, e1, st0, st, m, sl] ''creating process release pipe failed''
              ''placing process release pipe failed'' err s3 = Some (r4, s4)"
            "pipe_post D H blocks [e0, e1, st0, st, m, sl] r4 s4"
          using open_process_pipe_post [OF s3 bl holds_nonneg [OF s3(1)]] by blast
        note run3 = run2 Continue v 4(1)
        show ?thesis
        proof (cases r4)
          case (Failed e)
          then show ?thesis using 4(2) restored_post by (auto simp: run3 pipe_post_def)
        next
          case (Continue w)
          obtain r0 r1 where w: "w = (r0, r1)" by fastforce
          have s4: "holds D (set [r0, r1, e0, e1, st0, st, m, sl]) H s4" "distinct [r0, r1, e0, e1, st0, st, m, sl]"
            using 4(2) Continue w by (simp_all add: pipe_post_def)
          obtain r5 s5 where 5: "fork_launcher E bl [r0, r1, e0, e1, st0, st, m, sl] err s4 = Some (r5, s5)"
              "case r5 of Failed _ \<Rightarrow> restored D blocks s5
               | Continue _ \<Rightarrow> holds D (set [r0, r1, e0, e1, st0, st, m, sl]) H s5"
            using fork_launcher_post [OF s4 bl] by blast
          note run4 = run3 Continue w 5(1)
          show ?thesis
          proof (cases r5)
            case (Failed e)
            then show ?thesis using 5(2) restored_post by (auto simp: run4)
          next
            case (Continue x)
            then have "holds D (set [r0, r1, e0, e1, st0, st, m, sl]) H s5" using 5(2) by simp
            from finish_spawn_post [OF this s4(2) bl] show ?thesis by (simp add: run4 Continue)
          qed
        qed
      qed
    qed
  qed
qed

subsection \<open>The argument vectors\<close>

text \<open>The shift moves the first \<open>i\<close> entries up by one; the first entry stays where it was, too.\<close>

lemma shift_arguments_holds:
  assumes "grown B h0 h" and "b \<in> B" and "holds_pointers h b xs" and "i < length xs"
  shows "\<exists>h'. shift_arguments b i h = Some h' \<and> grown B h0 h' \<and>
    holds_pointers h' b (hd xs # take i xs @ drop (Suc i) xs) \<and> (\<forall>b'. b' \<noteq> b \<longrightarrow> h_block h' b' = h_block h b')"
  using assms
proof (induction i arbitrary: h xs)
  case 0
  then show ?case by (cases xs) auto
next
  case (Suc i)
  have split: "xs = take (Suc i) xs @ xs ! Suc i # drop (Suc (Suc i)) xs"
    using Suc.prems(4) by (simp add: id_take_nth_drop)
  have load: "load_pointer b i h = Some (xs ! i)"
    using Suc.prems(3,4) by (simp add: load_pointer_def load_def holds_pointers_def)
  let ?ys = "take (Suc i) xs @ xs ! i # drop (Suc (Suc i)) xs"
  have len: "length (take (Suc i) xs) = Suc i" using Suc.prems(4) by simp
  obtain h1 where h1: "store b (Suc i) (Pointer (xs ! i)) h = Some h1" "holds_pointers h1 b ?ys"
      "\<And>b'. b' \<noteq> b \<Longrightarrow> h_block h1 b' = h_block h b'"
    using store_pointer [of h b "take (Suc i) xs" "xs ! Suc i" "drop (Suc (Suc i)) xs" "xs ! i"] Suc.prems(3) split len
    by metis
  have g1: "grown B h0 h1" using grown_store [OF Suc.prems(1) h1(1) Suc.prems(2)] .
  have "i < length ?ys" using Suc.prems(4) by simp
  from Suc.IH [OF g1 Suc.prems(2) h1(2) this] obtain h' where
    h': "shift_arguments b i h1 = Some h'" "grown B h0 h'"
      "holds_pointers h' b (hd ?ys # take i ?ys @ drop (Suc i) ?ys)" "\<forall>b'. b' \<noteq> b \<longrightarrow> h_block h' b' = h_block h1 b'"
    by blast
  have take: "take (Suc i) xs = take i xs @ [xs ! i]"
    using Suc.prems(4) by (simp add: take_Suc_conv_app_nth)
  have hd: "hd ?ys = hd xs" using Suc.prems(4) by (cases xs) simp_all
  have "hd ?ys # take i ?ys @ drop (Suc i) ?ys = hd xs # take (Suc i) xs @ drop (Suc (Suc i)) xs"
    unfolding hd using Suc.prems(4) by (simp add: take min_def)
  then show ?case using load h1 h' by auto
qed

lemma prepare_arguments_post:
  assumes h: "heap_ok (k_heap s)" and exe: "sp_executable options = Some executable"
    and small: "small (sp_working_directory options) executable (search_path options)"
    and args: "vector_readable (sp_arguments options) (nat (sint (sp_argument_count options)))"
    and env: "vector_readable (sp_environment options) (nat (sint (sp_environment_count options)))"
  shows "\<exists>r s'. prepare_arguments E options err s = Some (r, s') \<and> k_open s' = k_open s \<and>
    (case r of Failed _ \<Rightarrow> h_block (k_heap s') = h_block (k_heap s)
     | Continue bl \<Rightarrow> blocks_ok bl (k_heap s') (h_block (k_heap s)))"
proof -
  let ?h = "k_heap s" and ?n = "nat (sint (sp_argument_count options))" and ?m = "nat (sint (sp_environment_count options))"
  obtain r err1 h1 where 1: "resolve_executable (e_strerror E) (e_ok E) (e_access E) options err ?h = Some (r, err1, h1)"
      "owns_result {} ?h ?h r h1"
    using resolve_executable_owns [OF h exe small] by blast
  have g1: "grown (pointer_blocks r) ?h h1" using 1(2) by (simp add: owns_result_def)
  show ?thesis
  proof (cases r)
    case None
    have "grown {} ?h h1" using g1 None by simp
    then have "h_block h1 = h_block ?h" by (rule grown_empty)
    then show ?thesis using 1(1) None by (simp add: prepare_arguments_def)
  next
    case (Some rb)
    have g1: "grown {rb} ?h h1" using g1 Some by (simp add: pointer_blocks_def)
    note run1 = prepare_arguments_def 1(1) Some
    from g1 args show ?thesis
    proof (cases rule: copy_string_vector_cases [where ok = "e_ok E" and extra = 2 and err = err1])
      case (fail err2 h2)
      show ?thesis using fail(1) grown_free_last [OF fail(2)] by (auto simp: run1)
    next
      case (copied ab bs ss h2)
      let ?B = "{rb} \<union> insert ab (set bs)"
      note vec = copied
      have rb: "rb \<noteq> ab" "rb \<notin> set bs" using vec(3) by auto
      have bs: "length bs = ?n" "distinct bs" "ab \<notin> set bs"
        using vec(4,8) string_vector_length [OF vec(4)] by (simp_all add: string_vector_def)
      have two: "nat (sint (2 :: i32)) = 2" by simp
      have ptr2: "holds_pointers h2 ab (map Some bs @ [None, None])"
        using vec(4) unfolding string_vector_def two by (simp add: numeral_2_eq_2)
      obtain h3 where h3: "shift_arguments ab ?n h2 = Some h3" "grown ?B ?h h3"
          "holds_pointers h3 ab (hd (map Some bs @ [None, None]) # take ?n (map Some bs @ [None, None]) @
             drop (Suc ?n) (map Some bs @ [None, None]))"
          "\<forall>b'. b' \<noteq> ab \<longrightarrow> h_block h3 b' = h_block h2 b'"
        using shift_arguments_holds [OF vec(2) _ ptr2, of ?n] bs(1) by auto
      have ptr3: "holds_pointers h3 ab (hd (map Some bs @ [None, None]) # map Some bs @ [None])"
        using h3(3) bs(1) by simp
      have strings3: "holds_strings h3 bs ss"
        using vec(4) unfolding string_vector_def
        by (elim conjE holds_strings_frame) (use h3(4) bs(3) in metis)
      have setname: "\<exists>h5 h6. store ab 0 (Pointer name) h4 = Some h5 \<and> store ab (?n + 1) (Pointer None) h5 = Some h6 \<and>
          grown C ?h h6 \<and> holds_pointers h6 ab (name # map Some bs @ [None]) \<and>
          (\<forall>b'. b' \<noteq> ab \<longrightarrow> h_block h6 b' = h_block h4 b')"
        if g: "grown C ?h h4" and c: "ab \<in> C"
          and p: "holds_pointers h4 ab (hd (map Some bs @ [None, None]) # map Some bs @ [None])" for C h4 name
      proof -
        have p4: "holds_pointers h4 ab ([] @ hd (map Some bs @ [None, None]) # map Some bs @ [None])" using p by simp
        obtain h5 where h5: "store ab (length ([] :: nat option list)) (Pointer name) h4 = Some h5" "holds_pointers h5 ab ([] @ name # map Some bs @ [None])"
            "\<And>b'. b' \<noteq> ab \<Longrightarrow> h_block h5 b' = h_block h4 b'"
          using store_pointer [OF p4, of name] by metis
        have p5: "holds_pointers h5 ab ((name # map Some bs) @ None # [])" using h5(2) by simp
        obtain h6 where h6: "store ab (length (name # map Some bs)) (Pointer None) h5 = Some h6"
            "holds_pointers h6 ab ((name # map Some bs) @ None # [])" "\<And>b'. b' \<noteq> ab \<Longrightarrow> h_block h6 b' = h_block h5 b'"
          using store_pointer [OF p5, of None] by blast
        have "grown C ?h h6" using grown_store [OF grown_store [OF g h5(1) c] h6(1) c] .
        then show ?thesis using h5 h6 bs(1) by auto
      qed
      note run2 = run1 vec(1) h3(1)
      from h3(2) show ?thesis
      proof (cases rule: copy_string_grown [where ok = "e_ok E" and s = executable])
        case (fail h4)
        have ptr4: "holds_pointers h4 ab (hd (map Some bs @ [None, None]) # map Some bs @ [None])"
          using ptr3 fail(3) by (simp add: holds_pointers_def)
        obtain h5 h6 where h6: "store ab 0 (Pointer None) h4 = Some h5" "store ab (?n + 1) (Pointer None) h5 = Some h6"
            "grown ?B ?h h6" "holds_pointers h6 ab ((None # map Some bs) @ [None])"
          using setname [OF fail(2) _ ptr4, of None] by auto
        have "length (None # map Some bs) = ?n + 1" using bs(1) by simp
        then obtain h7 where h7: "free_string_vector (Some ab) (?n + 1) h6 = Some h7" "grown (?B - set bs - {ab}) ?h h7"
          using free_string_vector_grown [OF h6(3,4)] bs by auto
        have "?B - set bs - {ab} = {rb}" using rb by auto
        then have "grown {rb} ?h h7" using h7(2) by simp
        from grown_free_last [OF this] show ?thesis
          using fail(1) h6(1,2) h7(1) exe by (auto simp: run2 Let_def)
      next
        case (copied nb h4)
        have nb: "nb \<noteq> ab" "nb \<noteq> rb" "nb \<notin> set bs" using copied(3) by auto
        have ptr4: "holds_pointers h4 ab (hd (map Some bs @ [None, None]) # map Some bs @ [None])"
          using ptr3 copied(5) nb(1) by (simp add: holds_pointers_def)
        obtain h5 h6 where h6: "store ab 0 (Pointer (Some nb)) h4 = Some h5" "store ab (?n + 1) (Pointer None) h5 = Some h6"
            "grown (insert nb ?B) ?h h6" "holds_pointers h6 ab (Some nb # map Some bs @ [None])"
            "\<forall>b'. b' \<noteq> ab \<longrightarrow> h_block h6 b' = h_block h4 b'"
          using setname [OF copied(2) _ ptr4, of "Some nb"] by auto
        have strings6: "holds_strings h6 bs ss"
          by (rule holds_strings_frame [OF strings3]) (use h6(5) copied(5) bs(3) nb(3) in metis)
        have argv: "string_vector h6 ab (nb # bs) 1 (executable # ss)"
          using h6(4,5) strings6 copied(4) nb bs by (simp add: string_vector_def holds_strings_def holds_string_def)
        have len: "length (executable # ss) = ?n + 1" using bs(1) string_vector_length [OF vec(4)] by simp
        note run3 = run2 exe copied(1) h6(1,2)
        from h6(3) env show ?thesis
        proof (cases rule: copy_string_vector_cases [where ok = "e_ok E" and extra = 1 and err = err1])
          case (fail err3 h7)
          have argv7: "string_vector h7 ab (nb # bs) 1 (executable # ss)"
            by (rule string_vector_frame [OF argv]) (rule fail(3), auto)
          obtain h8 where h8: "free_string_vector (Some ab) (?n + 1) h7 = Some h8"
              "grown (insert nb ?B - insert ab (set (nb # bs))) ?h h8"
            using free_copied_vector [OF fail(2) argv7 _ len] by auto
          have "insert nb ?B - insert ab (set (nb # bs)) = {rb}" using rb nb by auto
          then have "grown {rb} ?h h8" using h8(2) by simp
          from grown_free_last [OF this] show ?thesis using fail(1) h6(2) h8(1) by (auto simp: run3 Let_def)
        next
          case (copied eb cs ts h7)
          let ?C = "insert nb ?B \<union> insert eb (set cs)"
          let ?bl = "\<lparr>bk_argv = ab, bk_argc = ?n + 1, bk_envp = eb, bk_envc = ?m, bk_resolved = rb\<rparr>"
          have argv7: "string_vector h7 ab (nb # bs) 1 (executable # ss)"
            by (rule string_vector_frame [OF argv]) (rule copied(6), auto)
          have envp7: "string_vector h7 eb cs 1 ts" using copied(4) by simp
          have "blocks_ok ?bl h7 (h_block ?h)"
            unfolding blocks_ok_def
          proof (intro allI impI)
            fix t :: spawn_state
            assume t: "k_heap t = h7"
            obtain h8 where h8: "free_string_vector (Some ab) (?n + 1) h7 = Some h8"
                "grown (?C - insert ab (set (nb # bs))) ?h h8"
                "\<And>b'. b' \<notin> insert ab (set (nb # bs)) \<Longrightarrow> h_block h8 b' = h_block h7 b'"
              using free_copied_vector [OF copied(2) argv7 _ len] by auto
            have set8: "?C - insert ab (set (nb # bs)) = insert rb (insert eb (set cs))"
              using rb nb copied(3) by auto
            have envp8: "string_vector h8 eb cs 1 ts"
              by (rule string_vector_frame [OF envp7]) (rule h8(3), use copied(3) in auto)
            obtain h9 where h9: "free_string_vector (Some eb) ?m h8 = Some h9"
                "grown (insert rb (insert eb (set cs)) - insert eb (set cs)) ?h h9"
              using free_copied_vector [OF h8(2) [unfolded set8] envp8 _ copied(8)] by auto
            have "insert rb (insert eb (set cs)) - insert eb (set cs) = {rb}" using copied(3) by auto
            then have "grown {rb} ?h h9" using h9(2) by simp
            from grown_free_last [OF this] show "\<exists>h. free_blocks ?bl t = Some (t\<lparr>k_heap := h\<rparr>) \<and> h_block h = h_block ?h"
              using t h8(1) h9(1) by (auto simp: free_blocks_def)
          qed
          then show ?thesis using copied(1) h6(2) by (simp add: run3 Let_def)
        qed
      qed
    qed
  qed
qed

subsection \<open>The function\<close>


text \<open>A system that answers every call, with descriptors from 10 on, and a program with pid 100.\<close>

definition example_env :: spawn_env where
  "example_env =
     \<lparr>e_answer = (\<lambda>n. \<lparr>sr_fail = False, sr_errno = 0, sr_value = 10 + 2 * int n, sr_value2 = 11 + 2 * int n,
        sr_reads = (if n = 29 then [ReadErrno EINTR, ReadBytes [100], ReadBytes [0, 0, 0]] else [])\<rparr>),
      e_ok = (\<lambda>_. True), e_strerror = (\<lambda>_. ''error''), e_access = example_access,
      e_stat = (\<lambda>_. StatMode True), e_android = False, e_linux = True, e_iutf8 = True\<rparr>"

definition example_process :: spawn_state where
  "example_process = \<lparr>k_open = {0, 1, 2}, k_time = 0, k_heap = no_blocks, k_killed = []\<rparr>"


end
