(* ===== verification/Unix_Child.thy ===== *)
theory Unix_Child
  imports Unix_Spawn
begin

section \<open>Starting a program: launcher, supervisor and program (unix/pty_unix_spawn.c)\<close>

text \<open>
  The code that runs after \<open>fork\<close>. A process is its descriptor table (which open file a descriptor
  names, and which descriptors close on exec), its signal dispositions, session, terminal and
  directory, and what it wrote so far. The launcher, the supervisor and the program run in processes
  of their own, each with its own answers of the system; \<open>fork\<close> copies the state. A process either
  ends with \<open>_exit code\<close> (\<open>Some code\<close>) or goes on (\<open>None\<close>).
\<close>

subsection \<open>The state of a child process\<close>

datatype disposition = SigDefault | SigIgnore | SigHandler nat

record child_answer =
  ca_fail :: bool
  ca_errno :: i32
  ca_value :: int
  ca_writes :: "write_answer list"

record child_env =
  c_answer :: "nat \<Rightarrow> child_answer"
  c_close_range :: bool
  c_nsig :: int
  c_sigstop :: int
  c_reserved :: "int set"

record child_state =
  c_fds :: "fd \<rightharpoonup> nat"
  c_cloexec :: "fd set"
  c_disposition :: "int \<Rightarrow> disposition"
  c_mask_empty :: bool
  c_session_leader :: bool
  c_tty :: "nat option"
  c_directory :: "cstring option"
  c_written :: "(nat \<times> u8 list) list"
  c_time :: nat

abbreviation (input) SIGKILL_number :: int where "SIGKILL_number \<equiv> 9"
abbreviation (input) STDERR_FILENO :: fd where "STDERR_FILENO \<equiv> 2"
abbreviation (input) EBADF :: i32 where "EBADF \<equiv> 9"

datatype PtyChildStage =
    PTY_CHILD_STAGE_NONE
  | PTY_CHILD_STAGE_SIGNAL_MASK
  | PTY_CHILD_STAGE_SIGNAL_DISPOSITION
  | PTY_CHILD_STAGE_SETSID
  | PTY_CHILD_STAGE_CONTROLLING_TTY
  | PTY_CHILD_STAGE_DUP2
  | PTY_CHILD_STAGE_CHDIR
  | PTY_CHILD_STAGE_EXEC
  | PTY_CHILD_STAGE_SUPERVISOR

fun stage_number :: "PtyChildStage \<Rightarrow> i32" where
  "stage_number PTY_CHILD_STAGE_NONE = 0"
| "stage_number PTY_CHILD_STAGE_SIGNAL_MASK = 1"
| "stage_number PTY_CHILD_STAGE_SIGNAL_DISPOSITION = 2"
| "stage_number PTY_CHILD_STAGE_SETSID = 3"
| "stage_number PTY_CHILD_STAGE_CONTROLLING_TTY = 4"
| "stage_number PTY_CHILD_STAGE_DUP2 = 5"
| "stage_number PTY_CHILD_STAGE_CHDIR = 6"
| "stage_number PTY_CHILD_STAGE_EXEC = 7"
| "stage_number PTY_CHILD_STAGE_SUPERVISOR = 8"

subsection \<open>System calls of a child\<close>

definition child_next :: "child_env \<Rightarrow> child_state \<Rightarrow> child_answer \<times> child_state" where
  "child_next E s = (c_answer E (c_time s), s\<lparr>c_time := Suc (c_time s)\<rparr>)"

text \<open>A call without an effect the model keeps: 0 or -1 with \<open>errno\<close>.\<close>

definition child_check :: "child_env \<Rightarrow> child_state \<Rightarrow> int \<times> i32 \<times> child_state" where
  "child_check E s = (case child_next E s of (a, s1) \<Rightarrow> (if ca_fail a then -1 else 0, ca_errno a, s1))"

text \<open>Closing a number that is not open has no effect.\<close>

definition child_close :: "fd \<Rightarrow> child_state \<Rightarrow> child_state" where
  "child_close d s = s\<lparr>c_fds := (c_fds s)(d := None), c_cloexec := c_cloexec s - {d}\<rparr>"

definition child_close_all :: "(fd \<Rightarrow> bool) \<Rightarrow> child_state \<Rightarrow> child_state" where
  "child_close_all P s = s\<lparr>c_fds := (\<lambda>d. if P d then None else c_fds s d), c_cloexec := Set.filter (\<lambda>d. \<not> P d) (c_cloexec s)\<rparr>"

text \<open>\<open>close_range(first, range_end, 0)\<close>; no \<open>range_end\<close> is \<open>UINT_MAX\<close>.\<close>

definition in_range :: "fd \<Rightarrow> fd option \<Rightarrow> fd \<Rightarrow> bool" where
  "in_range first range_end d \<longleftrightarrow> first \<le> d \<and> (case range_end of None \<Rightarrow> True | Some l \<Rightarrow> d \<le> l)"

definition child_close_range :: "child_env \<Rightarrow> fd \<Rightarrow> fd option \<Rightarrow> child_state \<Rightarrow> int \<times> child_state" where
  "child_close_range E first range_end s =
     (case child_next E s of (a, s1) \<Rightarrow>
        if ca_fail a then (-1, s1) else (0, child_close_all (in_range first range_end) s1))"

definition child_dup2 :: "child_env \<Rightarrow> fd \<Rightarrow> fd \<Rightarrow> child_state \<Rightarrow> int \<times> i32 \<times> child_state" where
  "child_dup2 E old new s =
     (case child_next E s of (a, s1) \<Rightarrow>
        (case c_fds s1 old of
           None \<Rightarrow> (-1, EBADF, s1)
         | Some f \<Rightarrow>
             if ca_fail a then (-1, ca_errno a, s1)
             else if old = new then (new, 0, s1)
             else (new, 0, s1\<lparr>c_fds := (c_fds s1)(new \<mapsto> f), c_cloexec := c_cloexec s1 - {new}\<rparr>)))"

definition child_setsid :: "child_env \<Rightarrow> child_state \<Rightarrow> int \<times> i32 \<times> child_state" where
  "child_setsid E s =
     (case child_check E s of (r, e, s1) \<Rightarrow>
        if r < 0 then (r, e, s1) else (r, e, s1\<lparr>c_session_leader := True, c_tty := None\<rparr>))"

definition child_set_controlling_tty :: "child_env \<Rightarrow> fd \<Rightarrow> child_state \<Rightarrow> int \<times> i32 \<times> child_state" where
  "child_set_controlling_tty E d s =
     (case child_next E s of (a, s1) \<Rightarrow>
        (case c_fds s1 d of
           None \<Rightarrow> (-1, EBADF, s1)
         | Some f \<Rightarrow> if ca_fail a then (-1, ca_errno a, s1) else (0, 0, s1\<lparr>c_tty := Some f\<rparr>)))"

definition child_chdir :: "child_env \<Rightarrow> cstring \<Rightarrow> child_state \<Rightarrow> int \<times> i32 \<times> child_state" where
  "child_chdir E directory s =
     (case child_check E s of (r, e, s1) \<Rightarrow>
        if r < 0 then (r, e, s1) else (r, e, s1\<lparr>c_directory := Some directory\<rparr>))"

text \<open>\<open>EINVAL\<close> is the answer exactly for the numbers the C library reserves.\<close>

definition child_sigaction :: "child_env \<Rightarrow> int \<Rightarrow> disposition \<Rightarrow> child_state \<Rightarrow> int \<times> i32 \<times> child_state" where
  "child_sigaction E signal_number act s =
     (case child_next E s of (a, s1) \<Rightarrow>
        if signal_number \<in> c_reserved E then (-1, EINVAL, s1)
        else if ca_fail a \<and> ca_errno a \<noteq> EINVAL then (-1, ca_errno a, s1)
        else (0, 0, s1\<lparr>c_disposition := (c_disposition s1)(signal_number := act)\<rparr>))"

text \<open>\<open>execve\<close> keeps the descriptors that do not close on exec.\<close>

definition child_execve :: "child_env \<Rightarrow> child_state \<Rightarrow> bool \<times> i32 \<times> child_state" where
  "child_execve E s =
     (case child_next E s of (a, s1) \<Rightarrow>
        if ca_fail a then (False, ca_errno a, s1)
        else (True, 0, child_close_all (\<lambda>d. d \<in> c_cloexec s1) s1))"

subsection \<open>Closing what a child inherited\<close>

text \<open>The list of open descriptors (macOS); elsewhere there is none. \<open>needed\<close> and \<open>filled\<close> are answers of
  \<open>proc_pidinfo\<close>, in bytes.\<close>

record PtyFdList =
  fl_buffer :: bool
  fl_size :: int

abbreviation (input) PROC_PIDLISTFD_SIZE :: int where "PROC_PIDLISTFD_SIZE \<equiv> 8"

definition fd_list_prepare :: "bool \<Rightarrow> int \<Rightarrow> bool \<Rightarrow> PtyFdList" where
  "fd_list_prepare apple needed allocated =
     (if \<not> apple \<or> needed \<le> 0 \<or> \<not> allocated then \<lparr>fl_buffer = False, fl_size = 0\<rparr>
      else \<lparr>fl_buffer = True, fl_size = needed * 2 + 64 * PROC_PIDLISTFD_SIZE\<rparr>)"

definition close_unless_kept :: "fd list \<Rightarrow> fd \<Rightarrow> child_state \<Rightarrow> child_state" where
  "close_unless_kept keep d s = (if d \<le> STDERR_FILENO \<or> d \<in> set keep then s else child_close d s)"

definition listed_fds :: "int \<Rightarrow> fd list \<Rightarrow> fd list" where
  "listed_fds filled entries = take (nat (filled div PROC_PIDLISTFD_SIZE)) entries"

definition close_listed_fds_except ::
  "PtyFdList \<Rightarrow> int \<Rightarrow> fd list \<Rightarrow> fd list \<Rightarrow> child_state \<Rightarrow> bool \<times> child_state" where
  "close_listed_fds_except open_fds filled entries keep s =
     (if \<not> fl_buffer open_fds then (False, s)
      else if filled \<le> 0 \<or> filled \<ge> fl_size open_fds then (False, s)
      else (True, fold (close_unless_kept keep) (listed_fds filled entries) s))"

definition max_open_fd :: "int \<Rightarrow> int" where
  "max_open_fd open_max =
     (let value = (if open_max < 0 then 1024 else open_max)
      in if value > 1024 * 1024 then 1024 * 1024 else value)"

definition close_fd_range :: "child_env \<Rightarrow> fd \<Rightarrow> fd \<Rightarrow> bool \<Rightarrow> child_state \<Rightarrow> child_state" where
  "close_fd_range E first final is_last_range s =
     (if first > final then s
      else (case (if c_close_range E
                  then child_close_range E first (if is_last_range then None else Some final) s
                  else (-1, s)) of (r, s1) \<Rightarrow>
        if r = 0 then s1 else fold child_close [first..final] s1))"

text \<open>The smallest kept descriptor from \<open>first\<close> on, or the maximum.\<close>

definition next_kept_fd :: "fd list \<Rightarrow> fd \<Rightarrow> fd \<Rightarrow> fd" where
  "next_kept_fd keep first maximum_fd =
     fold (\<lambda>k next_kept. if k \<ge> first \<and> k < next_kept then k else next_kept) keep maximum_fd"

lemma next_kept_fd_Nil [simp]: "next_kept_fd [] first m = m"
  by (simp add: next_kept_fd_def)

lemma next_kept_fd_Cons:
  "next_kept_fd (k # keep) first m = next_kept_fd keep first (if k \<ge> first \<and> k < m then k else m)"
  by (simp add: next_kept_fd_def)

lemma next_kept_fd_bounds: "next_kept_fd keep first m \<le> m \<and> (next_kept_fd keep first m = m \<or>
    first \<le> next_kept_fd keep first m \<and> next_kept_fd keep first m \<in> set keep)"
proof (induction keep arbitrary: m)
  case (Cons k keep)
  show ?case
    using Cons [of "if k \<ge> first \<and> k < m then k else m"] by (auto simp: next_kept_fd_Cons split: if_splits)
qed simp

lemmas next_kept_fd_le = next_kept_fd_bounds [THEN conjunct1]
  and next_kept_fd_least = next_kept_fd_bounds [THEN conjunct2]

lemma next_kept_fd_skips: "d \<in> set keep \<Longrightarrow> first \<le> d \<Longrightarrow> next_kept_fd keep first m \<le> d"
proof (induction keep arbitrary: m)
  case (Cons k keep)
  let ?m = "if k \<ge> first \<and> k < m then k else m"
  show ?case
  proof (cases "d = k")
    case True
    with Cons(3) have "?m \<le> d" by simp
    then show ?thesis using next_kept_fd_le [of keep first ?m] by (simp add: next_kept_fd_Cons)
  qed (use Cons in \<open>simp add: next_kept_fd_Cons\<close>)
qed simp

function close_fds_from :: "child_env \<Rightarrow> fd list \<Rightarrow> fd \<Rightarrow> fd \<Rightarrow> child_state \<Rightarrow> child_state" where
  "close_fds_from E keep first maximum_fd s =
     (let next_kept = next_kept_fd keep first maximum_fd;
          s1 = close_fd_range E first (next_kept - 1) (next_kept = maximum_fd) s
      in if next_kept = maximum_fd then s1 else close_fds_from E keep (next_kept + 1) maximum_fd s1)"
  by pat_completeness auto
termination
proof (relation "measure (\<lambda>(E, keep, first, maximum_fd, s). nat (maximum_fd - first))")
  fix E keep first maximum_fd s x y
  assume "x = next_kept_fd keep first maximum_fd" "x \<noteq> maximum_fd"
  then show "((E, keep, x + 1, maximum_fd, y), (E, keep, first, maximum_fd, s))
    \<in> measure (\<lambda>(E, keep, first, maximum_fd, s). nat (maximum_fd - first))"
    using next_kept_fd_least [of keep first maximum_fd] next_kept_fd_le [of keep first maximum_fd] by auto
qed simp

declare close_fds_from.simps [simp del]

definition close_fds_except :: "child_env \<Rightarrow> fd list \<Rightarrow> fd \<Rightarrow> child_state \<Rightarrow> child_state" where
  "close_fds_except E keep maximum_fd s = close_fds_from E keep (STDERR_FILENO + 1) maximum_fd s"

definition close_extra_fds :: "child_env \<Rightarrow> fd \<Rightarrow> fd \<Rightarrow> child_state \<Rightarrow> child_state" where
  "close_extra_fds E status_fd maximum_fd s =
     (case (if c_close_range E \<and> status_fd = PTY_CHILD_STATUS_FD
            then child_close_range E (PTY_CHILD_STATUS_FD + 1) None s else (-1, s)) of (r, s1) \<Rightarrow>
        if r = 0 then s1
        else fold (\<lambda>d s. if d = status_fd then s else child_close d s) [PTY_CHILD_STATUS_FD..maximum_fd - 1] s1)"

subsection \<open>Reporting a failure\<close>

fun report_loop :: "write_answer list \<Rightarrow> u8 list \<Rightarrow> u8 list \<Rightarrow> u8 list" where
  "report_loop answers remaining done =
     (if remaining = [] then done
      else (case answers of
              [] \<Rightarrow> done
            | WriteCount n # rest \<Rightarrow>
                if 0 < n then report_loop rest (drop n remaining) (done @ take n remaining) else done
            | WriteErrno e # rest \<Rightarrow> if e = EINTR then report_loop rest remaining done else done))"

declare report_loop.simps [simp del]

definition child_error_bytes :: "PtyChildError \<Rightarrow> u8 list" where
  "child_error_bytes e = i32_bytes (ce_stage e) @ i32_bytes (ce_error_number e)"

definition child_report_error :: "child_env \<Rightarrow> fd \<Rightarrow> PtyChildStage \<Rightarrow> i32 \<Rightarrow> child_state \<Rightarrow> child_state" where
  "child_report_error E d stage error_number s =
     (case child_next E s of (a, s1) \<Rightarrow>
        (case c_fds s1 d of
           None \<Rightarrow> s1
         | Some f \<Rightarrow> s1\<lparr>c_written := c_written s1 @
             [(f, report_loop (ca_writes a)
                (child_error_bytes \<lparr>ce_stage = stage_number stage, ce_error_number = error_number\<rparr>) [])]\<rparr>))"

subsection \<open>The launcher\<close>

text \<open>What a child inherits in variables of \<open>pty_unix_spawn\<close>.\<close>

record launch =
  l_status_fd :: fd
  l_slave :: fd
  l_exit1 :: fd
  l_release0 :: fd
  l_maximum_fd :: fd
  l_open_fds :: PtyFdList
  l_filled :: int
  l_entries :: "fd list"
  l_directory :: "cstring option"

primrec reset_signals :: "child_env \<Rightarrow> int list \<Rightarrow> child_state \<Rightarrow> int \<times> i32 \<times> child_state" where
  "reset_signals E [] s = (0, 0, s)"
| "reset_signals E (n # ns) s =
     (if n = SIGKILL_number \<or> n = c_sigstop E then reset_signals E ns s
      else (case child_sigaction E n SigDefault s of (r, e, s1) \<Rightarrow>
        if r = 0 then reset_signals E ns s1
        else if e = EINVAL then reset_signals E ns s1
        else (-1, e, s1)))"

definition pty_unix_reset_child_signals :: "child_env \<Rightarrow> child_state \<Rightarrow> int \<times> i32 \<times> child_state" where
  "pty_unix_reset_child_signals E s = reset_signals E [1..c_nsig E - 1] s"

text \<open>\<open>child_report_error(status_fd, stage, errno); _exit(code)\<close>\<close>

definition child_fails ::
  "child_env \<Rightarrow> launch \<Rightarrow> PtyChildStage \<Rightarrow> i32 \<Rightarrow> int \<Rightarrow> child_state \<Rightarrow> int option \<times> child_state" where
  "child_fails E L stage error_number code s =
     (Some code, child_report_error E (l_status_fd L) stage error_number s)"

definition kept_fds :: "launch \<Rightarrow> fd list" where
  "kept_fds L = [l_status_fd L, l_slave L, l_exit1 L, l_release0 L]"

definition program_fd_limit :: "launch \<Rightarrow> fd" where
  "program_fd_limit L = fold (\<lambda>k limit. if k \<ge> limit then k + 1 else limit) (kept_fds L) 0"

definition close_inherited :: "child_env \<Rightarrow> launch \<Rightarrow> child_state \<Rightarrow> child_state" where
  "close_inherited E L s =
     (case close_listed_fds_except (l_open_fds L) (l_filled L) (l_entries L) (kept_fds L) s of (listed, s1) \<Rightarrow>
        if listed then s1 else close_fds_except E (kept_fds L) (l_maximum_fd L) s1)"

text \<open>Going on means that the supervisor has been forked; the launcher itself then exits with 0.\<close>

definition launcher :: "child_env \<Rightarrow> launch \<Rightarrow> child_state \<Rightarrow> int option \<times> child_state" where
  "launcher E L s =
     (case child_check E s of (masked, e, s1) \<Rightarrow>
        if masked \<noteq> 0 then child_fails E L PTY_CHILD_STAGE_SIGNAL_MASK e 126 s1
        else (case pty_unix_reset_child_signals E (s1\<lparr>c_mask_empty := True\<rparr>) of (reset, e, s2) \<Rightarrow>
          if reset \<noteq> 0 then child_fails E L PTY_CHILD_STAGE_SIGNAL_DISPOSITION e 126 s2
          else (case child_check E (close_inherited E L s2) of (forked, e, s3) \<Rightarrow>
            if forked < 0 then child_fails E L PTY_CHILD_STAGE_SUPERVISOR e 126 s3
            else (None, s3))))"

subsection \<open>The supervisor\<close>

text \<open>Going on means that the program has been forked; the number is its pid in the supervisor.\<close>

definition supervisor_start :: "child_env \<Rightarrow> launch \<Rightarrow> child_state \<Rightarrow> int option \<times> int \<times> child_state" where
  "supervisor_start E L s =
     (case child_setsid E s of (r, e, s1) \<Rightarrow>
        if r < 0
        then (case child_fails E L PTY_CHILD_STAGE_SUPERVISOR e 126 s1 of (c, s2) \<Rightarrow> (c, -1, s2))
        else (case child_next E s1 of (a, s2) \<Rightarrow>
          if ca_fail a \<or> ca_value a \<le> 0
          then (case child_fails E L PTY_CHILD_STAGE_SUPERVISOR (ca_errno a) 126 s2 of (c, s3) \<Rightarrow> (c, -1, s3))
          else (None, ca_value a, s2)))"

primrec ignore_signals :: "child_env \<Rightarrow> int list \<Rightarrow> child_state \<Rightarrow> child_state" where
  "ignore_signals E [] s = s"
| "ignore_signals E (n # ns) s =
     (case child_sigaction E n SigIgnore s of (_, _, s1) \<Rightarrow> ignore_signals E ns s1)"

text \<open>\<open>/dev/null\<close> is the open file 0; \<open>SIGHUP\<close>, \<open>SIGINT\<close>, \<open>SIGQUIT\<close>, \<open>SIGTERM\<close>, \<open>SIGPIPE\<close>.\<close>

definition supervisor_stdio :: "child_env \<Rightarrow> child_state \<Rightarrow> child_state" where
  "supervisor_stdio E s =
     (case child_next E s of (a, s1) \<Rightarrow>
        if ca_fail a \<or> ca_value a < 0 \<or> c_fds s1 (ca_value a) \<noteq> None then s1
        else
          (case child_dup2 E (ca_value a) 0 (s1\<lparr>c_fds := (c_fds s1)(ca_value a \<mapsto> 0)\<rparr>) of (_, _, s2) \<Rightarrow>
          (case child_dup2 E (ca_value a) 1 s2 of (_, _, s3) \<Rightarrow>
          (case child_dup2 E (ca_value a) 2 s3 of (_, _, s4) \<Rightarrow>
             if ca_value a > STDERR_FILENO then child_close (ca_value a) s4 else s4))))"

definition supervisor_detach :: "child_env \<Rightarrow> child_state \<Rightarrow> child_state" where
  "supervisor_detach E s =
     (case child_chdir E [47] (supervisor_stdio E s) of (_, _, s1) \<Rightarrow> ignore_signals E [1, 2, 3, 15, 13] s1)"

datatype wait_answer = WaitExit bool i32 | WaitErrno i32

text \<open>What the supervisor does, in order. \<open>None\<close> is a call that has not returned yet.\<close>

datatype sup_action = SupWrote "u8 list" | SupSawExit | SupReleased | SupReaped

fun wait_program :: "wait_answer list \<Rightarrow> (bool \<times> i32) option option" where
  "wait_program [] = None"
| "wait_program (WaitExit exited status # _) = Some (Some (exited, status))"
| "wait_program (WaitErrno e # rest) = (if e = EINTR then wait_program rest else Some None)"

text \<open>\<open>read(...) != 0\<close>, then \<open>errno != EINTR\<close>: after a byte was read, \<open>errno\<close> is the one of an earlier call.\<close>

fun wait_release :: "i32 \<Rightarrow> read_answer list \<Rightarrow> unit option" where
  "wait_release err [] = None"
| "wait_release err (ReadBytes bytes # rest) =
     (if bytes = [] then Some () else if err \<noteq> EINTR then Some () else wait_release err rest)"
| "wait_release err (ReadErrno e # rest) = (if e \<noteq> EINTR then Some () else wait_release e rest)"

text \<open>\<open>while (waitpid(...) < 0 && errno == EINTR)\<close>: the call succeeds (\<open>None\<close>) or fails.\<close>

fun reap_loop :: "i32 option list \<Rightarrow> bool option" where
  "reap_loop [] = None"
| "reap_loop (None # _) = Some True"
| "reap_loop (Some e # rest) = (if e = EINTR then reap_loop rest else Some False)"

record supervisor_answers =
  sa_pid_writes :: "write_answer list"
  sa_waits :: "wait_answer list"
  sa_report_writes :: "write_answer list"
  sa_errno :: i32
  sa_release_reads :: "read_answer list"
  sa_reaps :: "i32 option list"

definition exit_report :: "bool \<Rightarrow> i32 \<Rightarrow> u8 list" where
  "exit_report exited status = i32_bytes (if exited then 0 else 1) @ i32_bytes status"

text \<open>The actions and the exit code, once the supervisor ends.\<close>

definition supervise_program :: "i32 \<Rightarrow> supervisor_answers \<Rightarrow> sup_action list \<times> int option" where
  "supervise_program program A =
     (case write_fully (sa_pid_writes A) (i32_bytes program) [] of (told, pid_bytes) \<Rightarrow>
        if told = 0 then ([SupWrote pid_bytes], Some 126)
        else (case wait_program (sa_waits A) of
            None \<Rightarrow> ([SupWrote pid_bytes], None)
          | Some None \<Rightarrow> ([SupWrote pid_bytes], Some 126)
          | Some (Some (exited, status)) \<Rightarrow>
              (case write_fully (sa_report_writes A) (exit_report exited status) [] of (_, report_bytes) \<Rightarrow>
                let log = [SupWrote pid_bytes, SupSawExit, SupWrote report_bytes]
                in (case wait_release (sa_errno A) (sa_release_reads A) of
                      None \<Rightarrow> (log, None)
                    | Some _ \<Rightarrow>
                        (case reap_loop (sa_reaps A) of
                           None \<Rightarrow> (log @ [SupReleased], None)
                         | Some reaped \<Rightarrow> (log @ [SupReleased] @ (if reaped then [SupReaped] else []), Some 0))))))"

definition supervisor_body ::
  "child_env \<Rightarrow> launch \<Rightarrow> i32 \<Rightarrow> supervisor_answers \<Rightarrow> child_state \<Rightarrow> child_state \<times> sup_action list \<times> int option" where
  "supervisor_body E L program A s =
     (supervisor_detach E (child_close (l_status_fd L) (child_close (l_slave L) s)), supervise_program program A)"

subsection \<open>The program\<close>

definition dup_terminal :: "child_env \<Rightarrow> fd \<Rightarrow> child_state \<Rightarrow> bool \<times> i32 \<times> child_state" where
  "dup_terminal E slave s =
     (case child_dup2 E slave 0 s of (r, e, s1) \<Rightarrow>
        if r < 0 then (False, e, s1)
        else (case child_dup2 E slave 1 s1 of (r, e, s2) \<Rightarrow>
          if r < 0 then (False, e, s2)
          else (case child_dup2 E slave 2 s2 of (r, e, s3) \<Rightarrow> (\<not> r < 0, e, s3))))"

definition change_directory :: "child_env \<Rightarrow> cstring option \<Rightarrow> child_state \<Rightarrow> int \<times> i32 \<times> child_state" where
  "change_directory E directory s =
     (case directory of
        None \<Rightarrow> (0, 0, s)
      | Some d \<Rightarrow> if d = [] then (0, 0, s) else child_chdir E d s)"

text \<open>Going on means that \<open>execve\<close> has replaced the program.\<close>

definition program_start :: "child_env \<Rightarrow> launch \<Rightarrow> child_state \<Rightarrow> int option \<times> child_state" where
  "program_start E L s =
     (case child_setsid E s of (r, e, s1) \<Rightarrow>
        if r < 0 then child_fails E L PTY_CHILD_STAGE_SETSID e 126 s1
        else (case child_set_controlling_tty E (l_slave L) s1 of (r, e, s2) \<Rightarrow>
          if r < 0 then child_fails E L PTY_CHILD_STAGE_CONTROLLING_TTY e 126 s2
          else (case dup_terminal E (l_slave L) s2 of (dup, e, s3) \<Rightarrow>
            if \<not> dup then child_fails E L PTY_CHILD_STAGE_DUP2 e 126 s3
            else
              (let s4 = (if l_slave L > STDERR_FILENO \<and> l_slave L \<noteq> l_status_fd L
                         then child_close (l_slave L) s3 else s3);
                   s5 = close_extra_fds E (l_status_fd L) (program_fd_limit L) s4
               in (case change_directory E (l_directory L) s5 of (r, e, s6) \<Rightarrow>
                 if r \<noteq> 0 then child_fails E L PTY_CHILD_STAGE_CHDIR e 126 s6
                 else (case child_execve E s6 of (done, e, s7) \<Rightarrow>
                   if done then (None, s7)
                   else child_fails E L PTY_CHILD_STAGE_EXEC e 127 s7))))))"

text \<open>The three processes in a row, each with its own answers.\<close>

definition start_program ::
  "child_env \<Rightarrow> child_env \<Rightarrow> child_env \<Rightarrow> launch \<Rightarrow> child_state \<Rightarrow> int option \<times> child_state" where
  "start_program EL ES EP L s =
     (case launcher EL L s of (ended, s1) \<Rightarrow>
        if ended \<noteq> None then (ended, s1)
        else (case supervisor_start ES L s1 of (ended, _, s2) \<Rightarrow>
          if ended \<noteq> None then (ended, s2) else program_start EP L s2))"

end
