(* ===== verification/Child_Facts.thy ===== *)
theory Child_Facts
  imports Unix_Child
begin

section \<open>Facts about the processes \<open>pty_unix_spawn\<close> starts\<close>

text \<open>
  What a program starts with, what the closing of inherited descriptors leaves, and the two reports
  over pipes: the failure of a child to its parent, and the exit of the program from its supervisor.
\<close>

subsection \<open>Reports over a pipe\<close>

text \<open>The bytes a reader gets until the end of the pipe, where no read fails.\<close>

fun delivered :: "read_answer list \<Rightarrow> u8 list option" where
  "delivered [] = Some []"
| "delivered (ReadBytes bytes # rest) =
     (if bytes = [] then None else map_option (\<lambda>more. bytes @ more) (delivered rest))"
| "delivered (ReadErrno e # rest) = (if e = EINTR then delivered rest else None)"

text \<open>How many bytes a pipe takes before a write fails.\<close>

fun accepted :: "write_answer list \<Rightarrow> nat" where
  "accepted [] = 0"
| "accepted (WriteCount n # rest) = (if 0 < n then n + accepted rest else 0)"
| "accepted (WriteErrno e # rest) = (if e = EINTR then accepted rest else 0)"

lemma read_fully_delivered:
  "delivered answers = Some bytes \<Longrightarrow> length received \<le> n \<Longrightarrow>
   read_fully answers n received =
     (if n \<le> length received + length bytes then 1 else if received @ bytes = [] then 0 else -1,
      received @ take (n - length received) bytes)"
proof (induction answers arbitrary: bytes received rule: delivered.induct)
  case 1
  then show ?case by (simp add: read_fully.simps)
next
  case (2 chunk rest)
  then obtain more where more: "chunk \<noteq> []" "delivered rest = Some more" "bytes = chunk @ more"
    by (auto split: if_splits)
  show ?case
  proof (cases "n \<le> length received")
    case True
    with 2(3) show ?thesis by (simp add: read_fully.simps)
  next
    case False
    let ?got = "received @ take (n - length received) chunk"
    have "length ?got \<le> n" using 2(3) by simp
    from 2(1) [OF more(1,2) this] have "read_fully rest n ?got =
      (if n \<le> length ?got + length more then 1 else if ?got @ more = [] then 0 else -1,
       ?got @ take (n - length ?got) more)" .
    moreover have "read_fully (ReadBytes chunk # rest) n received = read_fully rest n ?got"
      using False more(1) by (subst read_fully.simps) simp
    ultimately show ?thesis using False more by (auto simp: min_def)
  qed
next
  case (3 e rest)
  then have e: "e = EINTR" "delivered rest = Some bytes" by (auto split: if_splits)
  show ?case
  proof (cases "n \<le> length received")
    case True
    with 3(3) show ?thesis by (simp add: read_fully.simps)
  next
    case False
    then have "read_fully (ReadErrno e # rest) n received = read_fully rest n received"
      using e(1) by (subst read_fully.simps) simp
    with 3(1) [OF e 3(3)] show ?thesis by simp
  qed
qed

lemma report_loop_accepted:
  "report_loop answers bytes acc = acc @ take (accepted answers) bytes"
proof (induction answers arbitrary: bytes acc rule: accepted.induct)
  case (2 n rest)
  show ?case using 2 [of "drop n bytes"] by (subst report_loop.simps) (auto simp: take_add)
qed (subst report_loop.simps, simp)+

lemma write_fully_accepted:
  "write_fully answers bytes acc =
     (if length bytes \<le> accepted answers then 1 else 0, acc @ take (accepted answers) bytes)"
proof (induction answers arbitrary: bytes acc rule: accepted.induct)
  case (2 n rest)
  show ?case using 2 [of "drop n bytes"] by (subst write_fully.simps) (auto simp: take_add)
qed (subst write_fully.simps, simp)+

lemma length_i32_bytes [simp]: "length (i32_bytes w) = 4"
  by (simp add: i32_bytes_def)

lemma read_child_error_delivered:
  assumes "delivered answers = Some bytes"
  shows "fst (read_child_error answers) = (if 8 \<le> length bytes then 1 else if bytes = [] then 0 else -1)"
    "take 8 bytes = child_error_bytes e \<Longrightarrow> snd (read_child_error answers) = e"
  by (simp_all add: read_child_error_def read_fully_delivered [OF assms, of "[]", simplified] child_error_bytes_def)

text \<open>C23: What the failing child reports is what its parent reads. Whatever chunks the pipe takes and
  gives and however often the calls are interrupted, the parent decodes exactly the reported stage and
  \<open>errno\<close> when the whole report went through; it sees the end of the pipe (which means that the program
  runs) only when nothing was written, and a truncated report as an invalid response.\<close>

theorem child_error_round_trip:
  assumes "delivered answers = Some (report_loop writes (child_error_bytes e) [])"
  shows "read_child_error answers =
    (if 8 \<le> accepted writes then (1, e)
     else (if accepted writes = 0 then 0 else -1, snd (read_child_error answers)))"
proof -
  have "length (child_error_bytes e) = 8" by (simp add: child_error_bytes_def)
  with read_child_error_delivered [OF assms] show ?thesis
    by (auto simp: report_loop_accepted prod_eq_iff)
qed

theorem child_error_round_trip_witness:
  "read_child_error [ReadBytes [7], ReadErrno EINTR, ReadBytes [0, 0, 0, 2, 0], ReadBytes [0, 0]] =
     (1, \<lparr>ce_stage = 7, ce_error_number = 2\<rparr>)"
proof -
  have "delivered [ReadBytes [7], ReadErrno EINTR, ReadBytes [0, 0, 0, 2, 0], ReadBytes [0, 0]] =
    Some (report_loop [WriteCount 3, WriteErrno EINTR, WriteCount 5]
      (child_error_bytes \<lparr>ce_stage = 7, ce_error_number = 2\<rparr>) [])"
    by code_simp
  from child_error_round_trip [OF this] show ?thesis by simp
qed

subsection \<open>The supervisor\<close>

primrec written_bytes :: "sup_action list \<Rightarrow> u8 list" where
  "written_bytes [] = []"
| "written_bytes (x # xs) = (case x of SupWrote bytes \<Rightarrow> bytes | _ \<Rightarrow> []) @ written_bytes xs"

text \<open>C24: The supervisor keeps the program until it is released, and its reports reach the caller. As
  long as the release pipe has neither ended nor failed, the supervisor neither reaps the program
  nor ends after its exit was seen, so the pid stays reserved; and when the pipe takes the reports,
  a reader of the first four bytes gets the pid and a reader of the next eight how the program
  ended, however the reads are cut up.\<close>

theorem supervisor_reports:
  assumes "supervise_program program A = (log, ended)"
  shows "(wait_release (sa_errno A) (sa_release_reads A) = None \<longrightarrow> SupReaped \<notin> set log \<and> ended \<noteq> Some 0) \<and>
    (SupReaped \<in> set log \<longrightarrow>
      (\<exists>told report. log = [SupWrote told, SupSawExit, SupWrote report, SupReleased, SupReaped])) \<and>
    (SupSawExit \<in> set log \<and> 8 \<le> accepted (sa_report_writes A) \<longrightarrow>
      (\<exists>exited status. wait_program (sa_waits A) = Some (Some (exited, status)) \<and>
        (\<forall>pid_reads exit_reads.
          delivered pid_reads = Some (take 4 (written_bytes log)) \<and>
          delivered exit_reads = Some (drop 4 (written_bytes log)) \<longrightarrow>
          read_program pid_reads = (1, sint program) \<and>
          pty_unix_read_exit exit_reads =
            (1, \<lparr>ux_signaled = if exited then 0 else 1, ux_value = status\<rparr>))))"
proof (cases "4 \<le> accepted (sa_pid_writes A)")
  case True
  then have pid: "write_fully (sa_pid_writes A) (i32_bytes program) [] = (1, i32_bytes program)"
    by (simp add: write_fully_accepted)
  note run = assms [unfolded supervise_program_def pid, simplified]
  show ?thesis
  proof (cases "wait_program (sa_waits A)")
    case (Some w)
    show ?thesis
    proof (cases w)
      case w: (Some x)
      obtain exited status where x: "x = (exited, status)" by fastforce
      define report where "report = take (accepted (sa_report_writes A)) (exit_report exited status)"
      have log: "\<exists>more. log = [SupWrote (i32_bytes program), SupSawExit, SupWrote report] @ more \<and>
          (more = [] \<or> more = [SupReleased] \<or> more = [SupReleased, SupReaped]) \<and>
          (wait_release (sa_errno A) (sa_release_reads A) = None \<longrightarrow> more = [] \<and> ended \<noteq> Some 0)"
        using run Some w x by (auto simp: write_fully_accepted report_def Let_def split: option.splits if_splits)
      then have bytes: "written_bytes log = i32_bytes program @ report" by auto
      have "8 \<le> accepted (sa_report_writes A) \<Longrightarrow> report = exit_report exited status"
        by (simp add: report_def exit_report_def)
      then have "read_program pid_reads = (1, sint program) \<and>
          pty_unix_read_exit exit_reads = (1, \<lparr>ux_signaled = if exited then 0 else 1, ux_value = status\<rparr>)"
        if "8 \<le> accepted (sa_report_writes A)" "delivered pid_reads = Some (take 4 (written_bytes log))"
          "delivered exit_reads = Some (drop 4 (written_bytes log))" for pid_reads exit_reads
        using that bytes read_fully_delivered [of pid_reads "i32_bytes program" "[]" 4]
          read_fully_delivered [of exit_reads "exit_report exited status" "[]" 8]
        by (simp add: read_program_def pty_unix_read_exit_def exit_report_def)
      then show ?thesis using log Some w x by auto
    qed (use run Some in auto)
  qed (use run in auto)
next
  case False
  then have "write_fully (sa_pid_writes A) (i32_bytes program) [] =
      (0, take (accepted (sa_pid_writes A)) (i32_bytes program))"
    by (simp add: write_fully_accepted)
  then show ?thesis using assms by (auto simp: supervise_program_def)
qed

definition example_supervisor :: supervisor_answers where
  "example_supervisor =
     \<lparr>sa_pid_writes = [WriteCount 4], sa_waits = [WaitErrno EINTR, WaitExit True 3],
      sa_report_writes = [WriteErrno EINTR, WriteCount 8], sa_errno = 0,
      sa_release_reads = [ReadErrno EINTR, ReadBytes []], sa_reaps = [Some EINTR, None]\<rparr>"

theorem supervisor_reports_witness:
  "snd (supervise_program 100 example_supervisor) = Some 0 \<and>
   pty_unix_read_exit [ReadBytes [0, 0], ReadErrno EINTR, ReadBytes [0, 0, 3, 0, 0, 0]] =
     (1, \<lparr>ux_signaled = 0, ux_value = 3\<rparr>)"
proof -
  have run: "supervise_program 100 example_supervisor =
      ([SupWrote [100, 0, 0, 0], SupSawExit, SupWrote [0, 0, 0, 0, 3, 0, 0, 0], SupReleased, SupReaped], Some 0)"
    by code_simp
  have wait: "wait_program (sa_waits example_supervisor) = Some (Some (True, 3))"
    and "8 \<le> accepted (sa_report_writes example_supervisor)"
    by (simp_all add: example_supervisor_def)
  with supervisor_reports [OF run] obtain exited status where
    x: "wait_program (sa_waits example_supervisor) = Some (Some (exited, status))" and
    "\<forall>pid_reads exit_reads. delivered pid_reads = Some [100, 0, 0, 0] \<and>
      delivered exit_reads = Some [0, 0, 0, 0, 3, 0, 0, 0] \<longrightarrow>
      read_program pid_reads = (1, sint (100 :: i32)) \<and>
      pty_unix_read_exit exit_reads = (1, \<lparr>ux_signaled = if exited then 0 else 1, ux_value = status\<rparr>)"
    by auto
  from this(2) [rule_format, of "[ReadBytes [100, 0, 0, 0]]"
      "[ReadBytes [0, 0], ReadErrno EINTR, ReadBytes [0, 0, 3, 0, 0, 0]]"] x wait run
  show ?thesis by simp
qed

subsection \<open>Which descriptors a child keeps\<close>

text \<open>\<open>keeps\<close>: a descriptor names the same file as before, and closes on exec if it did; \<open>same_rest\<close>: all
  that is not the descriptor table is as before.\<close>

definition keeps :: "fd \<Rightarrow> child_state \<Rightarrow> child_state \<Rightarrow> bool" where
  "keeps d s s' \<longleftrightarrow> c_fds s' d = c_fds s d \<and> (d \<in> c_cloexec s' \<longleftrightarrow> d \<in> c_cloexec s)"

definition same_rest :: "child_state \<Rightarrow> child_state \<Rightarrow> bool" where
  "same_rest s s' \<longleftrightarrow> c_disposition s' = c_disposition s \<and> c_mask_empty s' = c_mask_empty s \<and>
     c_session_leader s' = c_session_leader s \<and> c_tty s' = c_tty s \<and> c_directory s' = c_directory s"

text \<open>A step on the table closes what satisfies \<open>P\<close> and keeps the rest.\<close>

definition closes :: "(fd \<Rightarrow> bool) \<Rightarrow> child_state \<Rightarrow> child_state \<Rightarrow> bool" where
  "closes P s s' \<longleftrightarrow> same_rest s s' \<and> (\<forall>d. if P d then c_fds s' d = None else keeps d s s')"

lemma closes_fds: "closes P s s' \<Longrightarrow> c_fds s' d = (if P d then None else c_fds s d)"
  unfolding closes_def keeps_def by meson

lemma closes_cloexec: "closes P s s' \<Longrightarrow> \<not> P d \<Longrightarrow> d \<in> c_cloexec s' \<longleftrightarrow> d \<in> c_cloexec s"
  unfolding closes_def keeps_def by meson

lemma closes_rest: "closes P s s' \<Longrightarrow> same_rest s s'"
  by (simp add: closes_def)

lemma closes_none: "closes (\<lambda>_. False) s s"
  by (simp add: closes_def same_rest_def keeps_def)

lemma closes_trans:
  "closes P s s1 \<Longrightarrow> closes Q s1 s2 \<Longrightarrow> closes (\<lambda>d. P d \<or> Q d) s s2"
  unfolding closes_def same_rest_def keeps_def by (metis (full_types))

lemma closes_cong: "closes P s s' \<Longrightarrow> (\<And>d. P d = Q d) \<Longrightarrow> closes Q s s'"
  by (simp add: closes_def)

lemma closes_time [simp]: "closes P (s\<lparr>c_time := n\<rparr>) s' = closes P s s'"
  by (simp add: closes_def same_rest_def keeps_def)

lemma child_close_closes: "closes (\<lambda>x. x = d) s (child_close d s)"
  by (simp add: closes_def same_rest_def keeps_def child_close_def)

lemma child_close_all_closes: "closes P s (child_close_all P s)"
  by (simp add: closes_def same_rest_def keeps_def child_close_all_def)

lemma fold_closes:
  assumes "\<And>x s. closes (\<lambda>d. d = x \<and> P x) s (f x s)"
  shows "closes (\<lambda>d. d \<in> set xs \<and> P d) s (fold f xs s)"
proof (induction xs arbitrary: s)
  case (Cons x xs)
  show ?case unfolding fold_simps by (rule closes_cong [OF closes_trans [OF assms Cons]]) auto
qed (simp add: closes_none)

lemma fold_child_close: "closes (\<lambda>d. d \<in> set ds) s (fold child_close ds s)"
  using fold_closes [of "\<lambda>_. True" child_close ds s] child_close_closes by simp

lemma close_listed_closes:
  "close_listed_fds_except open_fds filled entries keep s = (listed, s1) \<Longrightarrow>
   closes (\<lambda>d. listed \<and> d \<in> set (listed_fds filled entries) \<and> STDERR_FILENO < d \<and> d \<notin> set keep) s s1"
proof -
  assume run: "close_listed_fds_except open_fds filled entries keep s = (listed, s1)"
  have "closes (\<lambda>d. d = x \<and> (STDERR_FILENO < x \<and> x \<notin> set keep)) s (close_unless_kept keep x s)" for x s
    using child_close_closes [of x s] closes_none [of s]
    by (cases "x \<le> 2 \<or> x \<in> set keep") (auto simp: close_unless_kept_def intro: closes_cong)
  note all = fold_closes [of "\<lambda>x. STDERR_FILENO < x \<and> x \<notin> set keep", OF this]
  show ?thesis
    using run all [of "listed_fds filled entries" s] closes_none [of s]
    by (auto simp: close_listed_fds_except_def split: if_splits)
qed

lemma child_close_range_closes:
  "child_close_range E first range_end s = (r, s1) \<Longrightarrow>
   closes (\<lambda>d. r = 0 \<and> in_range first range_end d) s s1 \<and> (r = 0 \<or> r = -1)"
proof -
  assume run: "child_close_range E first range_end s = (r, s1)"
  let ?s = "s\<lparr>c_time := Suc (c_time s)\<rparr>"
  have "closes (in_range first range_end) s (child_close_all (in_range first range_end) ?s)"
    using child_close_all_closes [of "in_range first range_end" ?s] by simp
  moreover have "closes (\<lambda>_. False) s ?s" using closes_none [of ?s] by simp
  ultimately show ?thesis
    using run by (auto simp: child_close_range_def child_next_def split: if_splits)
qed

text \<open>A range that is not the last one is closed exactly; the last one may go on above its end.\<close>

lemma close_fd_range_closes:
  "\<exists>above. closes (\<lambda>d. first \<le> d \<and> (d \<le> final \<or> above)) s (close_fd_range E first final is_last s) \<and>
     (above \<longrightarrow> is_last \<and> c_close_range E)"
proof (cases "first > final")
  case True
  then have "closes (\<lambda>d. first \<le> d \<and> (d \<le> final \<or> False)) s (close_fd_range E first final is_last s)"
    using closes_cong [OF closes_none [of s], of "\<lambda>d. first \<le> d \<and> d \<le> final"]
    by (auto simp: close_fd_range_def)
  then show ?thesis by blast
next
  case False
  let ?stop = "if is_last then None else Some final"
  obtain r s1 where run: "(if c_close_range E then child_close_range E first ?stop s else (-1, s)) = (r, s1)"
    by fastforce
  have res: "close_fd_range E first final is_last s = (if r = 0 then s1 else fold child_close [first..final] s1)"
    using False unfolding close_fd_range_def run by simp
  have 1: "closes (\<lambda>d. r = 0 \<and> in_range first ?stop d) s s1" "r = 0 \<longrightarrow> c_close_range E"
    using run child_close_range_closes [of E first ?stop s r s1] closes_none [of s] by (auto split: if_splits)
  show ?thesis
  proof (cases "r = 0")
    case True
    with 1 have "closes (\<lambda>d. first \<le> d \<and> (d \<le> final \<or> is_last)) s s1"
      by (auto simp: in_range_def elim!: closes_cong)
    then show ?thesis using True 1(2) res by auto
  next
    case r: False
    then have "closes (\<lambda>d. first \<le> d \<and> (d \<le> final \<or> False)) s (fold child_close [first..final] s1)"
      by (intro closes_cong [OF closes_trans [OF 1(1) fold_child_close [of "[first..final]"]]]) auto
    then show ?thesis using r res by (intro exI [of _ False]) simp
  qed
qed

lemma close_fds_from_closes:
  "\<exists>above. closes (\<lambda>d. first \<le> d \<and> (if d < m then d \<notin> set keep else above)) s
     (close_fds_from E keep first m s)"
proof (induction E keep first m s rule: close_fds_from.induct)
  case (1 E keep first m s)
  let ?next = "next_kept_fd keep first m"
  let ?s = "close_fd_range E first (?next - 1) (?next = m) s"
  note step = close_fds_from.simps [of E keep first m s, unfolded Let_def]
  have skip: "d \<notin> set keep" if "first \<le> d" "d < ?next" for d
    using next_kept_fd_skips [of d keep first m] that by auto
  obtain above where range: "closes (\<lambda>d. first \<le> d \<and> (d \<le> ?next - 1 \<or> above)) s ?s"
    and last: "above \<longrightarrow> ?next = m \<and> c_close_range E"
    using close_fd_range_closes [of first "?next - 1" s E "?next = m"] by blast
  show ?case
  proof (cases "?next = m")
    case True
    have "closes (\<lambda>d. first \<le> d \<and> (if d < m then d \<notin> set keep else above)) s ?s"
      by (rule closes_cong [OF range]) (use True skip in auto)
    moreover have "close_fds_from E keep first m s = ?s" using step True by simp
    ultimately show ?thesis by (intro exI [of _ above]) (simp only:)
  next
    case False
    then have bounds: "first \<le> ?next" "?next \<in> set keep" "?next < m" and no: "\<not> above"
      using next_kept_fd_bounds [of keep first m] last by auto
    from 1 [OF refl refl False] obtain above2 where
      rest: "closes (\<lambda>d. ?next + 1 \<le> d \<and> (if d < m then d \<notin> set keep else above2)) ?s
        (close_fds_from E keep (?next + 1) m ?s)" by blast
    have "closes (\<lambda>d. first \<le> d \<and> (if d < m then d \<notin> set keep else above2)) s
        (close_fds_from E keep (?next + 1) m ?s)"
    proof (rule closes_cong [OF closes_trans [OF range rest]])
      fix d
      show "(first \<le> d \<and> (d \<le> ?next - 1 \<or> above) \<or>
          ?next + 1 \<le> d \<and> (if d < m then d \<notin> set keep else above2)) =
        (first \<le> d \<and> (if d < m then d \<notin> set keep else above2))"
        using bounds no skip [of d] by (cases "d = ?next") auto
    qed
    moreover have "close_fds_from E keep first m s = close_fds_from E keep (?next + 1) m ?s"
      using step False by simp
    ultimately show ?thesis by (intro exI [of _ above2]) (simp only:)
  qed
qed

text \<open>C22: \<open>close_fds_except\<close> closes every descriptor above stderr and below the maximum that is not
  kept, and no other one below the maximum, whether or not \<open>close_range\<close> exists and whenever it fails.
  Descriptors from the maximum on either all stay open or are all closed, kept ones included.\<close>

theorem close_fds_except_exact:
  "\<exists>above. \<forall>d. c_fds (close_fds_except E keep maximum_fd s) d =
     (if d \<le> STDERR_FILENO then c_fds s d
      else if d < maximum_fd then (if d \<in> set keep then c_fds s d else None)
      else if above then None else c_fds s d)"
proof -
  obtain above where "closes (\<lambda>d. 3 \<le> d \<and> (if d < maximum_fd then d \<notin> set keep else above)) s
      (close_fds_except E keep maximum_fd s)"
    using close_fds_from_closes [of 3 maximum_fd keep s E] by (auto simp: close_fds_except_def)
  from closes_fds [OF this] show ?thesis by (intro exI [of _ above]) auto
qed

subsection \<open>What a program starts with\<close>

text \<open>What is known of the descriptors when \<open>pty_unix_spawn\<close> forks: all are below the maximum, a complete
  list (where there is one) names them all, the terminal and the status descriptor are above stderr and
  the latter closes on exec.\<close>

definition ready_to_launch :: "launch \<Rightarrow> child_state \<Rightarrow> bool" where
  "ready_to_launch L s \<longleftrightarrow>
     (\<forall>d. c_fds s d \<noteq> None \<longrightarrow> 0 \<le> d \<and> d < l_maximum_fd L) \<and>
     (fl_buffer (l_open_fds L) \<and> 0 < l_filled L \<and> l_filled L < fl_size (l_open_fds L) \<longrightarrow>
       (\<forall>d. c_fds s d \<noteq> None \<longrightarrow> d \<in> set (listed_fds (l_filled L) (l_entries L)))) \<and>
     STDERR_FILENO < l_slave L \<and> STDERR_FILENO < l_status_fd L \<and> l_status_fd L \<in> c_cloexec s"

lemma limit_fold:
  fixes limit :: int
  shows "limit \<le> fold (\<lambda>k limit. if k \<ge> limit then k + 1 else limit) ks limit \<and>
    (\<forall>k \<in> set ks. k < fold (\<lambda>k limit. if k \<ge> limit then k + 1 else limit) ks limit)"
proof (induction ks arbitrary: limit)
  case (Cons k ks)
  show ?case using Cons [of "if k \<ge> limit then k + 1 else limit"] by (auto split: if_splits)
qed simp

lemma program_fd_limit_above: "k \<in> set (kept_fds L) \<Longrightarrow> k < program_fd_limit L"
  using limit_fold [of 0 "kept_fds L"] by (simp add: program_fd_limit_def)

lemma close_inherited_closes:
  assumes "ready_to_launch L s"
  shows "\<exists>P. closes P s (close_inherited E L s) \<and> (\<forall>d. P d \<longrightarrow> STDERR_FILENO < d) \<and>
    (\<forall>d \<in> set (kept_fds L). c_fds s d \<noteq> None \<longrightarrow> \<not> P d) \<and>
    (\<forall>d. c_fds s d \<noteq> None \<and> STDERR_FILENO < d \<and> d \<notin> set (kept_fds L) \<longrightarrow> P d)"
proof -
  obtain listed s1 where list: "close_listed_fds_except (l_open_fds L) (l_filled L) (l_entries L) (kept_fds L) s =
      (listed, s1)" by fastforce
  note list_closes = close_listed_closes [OF list]
  show ?thesis
  proof (cases listed)
    case True
    then have "fl_buffer (l_open_fds L) \<and> 0 < l_filled L \<and> l_filled L < fl_size (l_open_fds L)"
      using list by (auto simp: close_listed_fds_except_def split: if_splits)
    then show ?thesis
      using list_closes assms True list by (auto simp: close_inherited_def ready_to_launch_def)
  next
    case False
    then have "s1 = s" using list by (auto simp: close_listed_fds_except_def split: if_splits)
    with False list have res: "close_inherited E L s = close_fds_except E (kept_fds L) (l_maximum_fd L) s"
      by (simp add: close_inherited_def)
    obtain above where "closes (\<lambda>d. 3 \<le> d \<and> (if d < l_maximum_fd L then d \<notin> set (kept_fds L) else above)) s
        (close_inherited E L s)"
      unfolding res close_fds_except_def using close_fds_from_closes [of "2 + 1" "l_maximum_fd L" "kept_fds L" s E]
      by auto
    then show ?thesis
      using assms unfolding ready_to_launch_def
      by (intro exI [of _ "\<lambda>d. 3 \<le> d \<and> (if d < l_maximum_fd L then d \<notin> set (kept_fds L) else above)"]) auto
  qed
qed

lemma close_extra_closes:
  "\<exists>P. closes P s (close_extra_fds E status_fd limit s) \<and>
    (\<forall>d. P d \<longrightarrow> STDERR_FILENO < d \<and> d \<noteq> status_fd) \<and> (\<forall>d. 3 \<le> d \<and> d < limit \<and> d \<noteq> status_fd \<longrightarrow> P d)"
proof -
  obtain r s1 where run: "(if c_close_range E \<and> status_fd = PTY_CHILD_STATUS_FD
    then child_close_range E (PTY_CHILD_STATUS_FD + 1) None s else (-1, s)) = (r, s1)" by fastforce
  have 1: "closes (\<lambda>d. r = 0 \<and> in_range 4 None d) s s1" "r = 0 \<longrightarrow> status_fd = 3"
    using run child_close_range_closes [of E 4 None s r s1] closes_none [of s] by (auto split: if_splits)
  let ?f = "\<lambda>d s. if d = status_fd then s else child_close d s"
  have res: "close_extra_fds E status_fd limit s = (if r = 0 then s1 else fold ?f [3..limit - 1] s1)"
    unfolding close_extra_fds_def run by simp
  have step: "closes (\<lambda>d. d = x \<and> x \<noteq> status_fd) s (?f x s)" for x s
    using child_close_closes [of x s] closes_none [of s] by (auto elim: closes_cong)
  show ?thesis
  proof (cases "r = 0")
    case True
    with 1 res show ?thesis by (intro exI [of _ "\<lambda>d. r = 0 \<and> in_range 4 None d"]) (auto simp: in_range_def)
  next
    case False
    from closes_trans [OF 1(1) fold_closes [of "\<lambda>x. x \<noteq> status_fd" ?f "[3..limit - 1]", OF step]] False res
    show ?thesis
      by (intro exI [of _ "\<lambda>d. r = 0 \<and> in_range 4 None d \<or> d \<in> set [3..limit - 1] \<and> d \<noteq> status_fd"]) auto
  qed
qed

lemma reset_signals_result:
  "reset_signals E ns s = (r, e, s') \<Longrightarrow>
   closes (\<lambda>_. False) (s\<lparr>c_disposition := c_disposition s'\<rparr>) s' \<and>
   (\<forall>n. c_disposition s n = SigDefault \<longrightarrow> c_disposition s' n = SigDefault) \<and>
   (r = 0 \<longrightarrow> (\<forall>n \<in> set ns. n \<noteq> SIGKILL_number \<and> n \<noteq> c_sigstop E \<and> n \<notin> c_reserved E \<longrightarrow>
     c_disposition s' n = SigDefault))"
proof (induction ns arbitrary: s)
  case Nil
  then show ?case by (simp add: closes_none)
next
  case (Cons n ns)
  obtain r1 e1 s1 where 1: "child_sigaction E n SigDefault s = (r1, e1, s1)" by (metis prod_cases3)
  have s1: "closes (\<lambda>_. False) (s\<lparr>c_disposition := c_disposition s1\<rparr>) s1"
    "\<forall>n. c_disposition s n = SigDefault \<longrightarrow> c_disposition s1 n = SigDefault"
    "r1 = 0 \<longrightarrow> c_disposition s1 n = SigDefault"
    "r1 \<noteq> 0 \<and> e1 = EINVAL \<longrightarrow> n \<in> c_reserved E"
    using 1 by (auto simp: child_sigaction_def child_next_def closes_def same_rest_def keeps_def split: if_splits)
  have join: "closes (\<lambda>_. False) (s\<lparr>c_disposition := c_disposition s'\<rparr>) s'"
    if "closes (\<lambda>_. False) (s1\<lparr>c_disposition := c_disposition s'\<rparr>) s'" for s'
    using that s1(1) by (simp add: closes_def same_rest_def keeps_def)
  show ?case
  proof (cases "n = SIGKILL_number \<or> n = c_sigstop E")
    case True
    then show ?thesis using Cons by auto
  next
    case False
    show ?thesis
    proof (cases "r1 = 0 \<or> e1 = EINVAL")
      case True
      with False 1 Cons(2) have "reset_signals E ns s1 = (r, e, s')" by (auto split: if_splits)
      from Cons(1) [OF this] show ?thesis using join s1 True by auto
    next
      case no: False
      with False 1 Cons(2) have "r = -1" "s' = s1" by auto
      with s1 show ?thesis by simp
    qed
  qed
qed

lemma launcher_result:
  assumes "ready_to_launch L s" and "launcher E L s = (None, s')"
  shows "(\<forall>d. c_fds s' d \<noteq> None \<longrightarrow> 0 \<le> d \<and> (d \<le> STDERR_FILENO \<or> d \<in> set (kept_fds L))) \<and>
    c_fds s' (l_slave L) = c_fds s (l_slave L) \<and>
    (c_fds s' (l_status_fd L) \<noteq> None \<longrightarrow> l_status_fd L \<in> c_cloexec s') \<and> c_mask_empty s' \<and>
    (\<forall>n. 1 \<le> n \<and> n < c_nsig E \<and> n \<noteq> SIGKILL_number \<and> n \<noteq> c_sigstop E \<and> n \<notin> c_reserved E \<longrightarrow>
      c_disposition s' n = SigDefault)"
proof -
  let ?s = "s\<lparr>c_time := Suc (c_time s), c_mask_empty := True\<rparr>"
  obtain r e s2 where reset: "reset_signals E [1..c_nsig E - 1] ?s = (r, e, s2)" by (metis prod_cases3)
  let ?s3 = "close_inherited E L s2"
  have r: "r = 0" and s': "s' = ?s3\<lparr>c_time := Suc (c_time ?s3)\<rparr>"
    using assms(2) reset
    by (auto simp: launcher_def child_check_def child_next_def child_fails_def pty_unix_reset_child_signals_def
        split: if_splits)
  have s2: "c_fds s2 = c_fds s" "c_cloexec s2 = c_cloexec s" "c_mask_empty s2"
    "\<forall>n. 1 \<le> n \<and> n < c_nsig E \<and> n \<noteq> SIGKILL_number \<and> n \<noteq> c_sigstop E \<and> n \<notin> c_reserved E \<longrightarrow>
      c_disposition s2 n = SigDefault"
    using reset_signals_result [OF reset] r by (auto simp: closes_def same_rest_def keeps_def)
  from assms(1) s2(1,2) have "ready_to_launch L s2" by (simp add: ready_to_launch_def)
  from close_inherited_closes [OF this] obtain P where P: "closes P s2 ?s3" "\<forall>d. P d \<longrightarrow> STDERR_FILENO < d"
    "\<forall>d \<in> set (kept_fds L). c_fds s2 d \<noteq> None \<longrightarrow> \<not> P d"
    "\<forall>d. c_fds s2 d \<noteq> None \<and> STDERR_FILENO < d \<and> d \<notin> set (kept_fds L) \<longrightarrow> P d" by blast
  have fds: "c_fds ?s3 d = (if P d then None else c_fds s d)" for d using closes_fds [OF P(1)] s2(1) by simp
  have "c_fds s d \<noteq> None \<Longrightarrow> 0 \<le> d" for d using assms(1) by (auto simp: ready_to_launch_def)
  then have "\<forall>d. c_fds ?s3 d \<noteq> None \<longrightarrow> 0 \<le> d \<and> (d \<le> STDERR_FILENO \<or> d \<in> set (kept_fds L))"
    using P(4) fds s2(1) by (metis linorder_not_le)
  moreover have "c_fds ?s3 (l_slave L) = c_fds s (l_slave L)"
    using P(3) fds s2(1) by (auto simp: kept_fds_def)
  moreover have "c_fds ?s3 (l_status_fd L) \<noteq> None \<longrightarrow> l_status_fd L \<in> c_cloexec ?s3"
    using fds closes_cloexec [OF P(1), of "l_status_fd L"] s2(2) assms(1) by (auto simp: ready_to_launch_def)
  ultimately show ?thesis using closes_rest [OF P(1)] s2 s' by (simp add: same_rest_def)
qed

lemma dup_terminal_result:
  assumes "dup_terminal E slave s = (True, e, s')" and "STDERR_FILENO < slave"
  shows "\<exists>f. c_fds s slave = Some f \<and> c_fds s' = (c_fds s)(0 \<mapsto> f, 1 \<mapsto> f, 2 \<mapsto> f) \<and>
    c_cloexec s' = c_cloexec s - {0, 1, 2} \<and> same_rest s s'"
  using assms
  by (auto simp: dup_terminal_def child_dup2_def child_next_def same_rest_def split: option.splits if_splits)

lemma program_stages:
  assumes "program_start E L s = (None, s')"
  shows "\<exists>f e1 s1 s2 e3 s3. c_fds s (l_slave L) = Some f \<and>
    c_fds s1 = c_fds s \<and> c_cloexec s1 = c_cloexec s \<and> c_mask_empty s1 = c_mask_empty s \<and>
    c_disposition s1 = c_disposition s \<and> c_session_leader s1 \<and> c_tty s1 = Some f \<and>
    dup_terminal E (l_slave L) s1 = (True, e1, s2) \<and>
    change_directory E (l_directory L) (close_extra_fds E (l_status_fd L) (program_fd_limit L)
      (if l_slave L > STDERR_FILENO \<and> l_slave L \<noteq> l_status_fd L then child_close (l_slave L) s2 else s2)) =
      (0, e3, s3) \<and>
    child_execve E s3 = (True, 0, s')"
proof -
  obtain r e s0 where 0: "child_setsid E s = (r, e, s0)" by (metis prod_cases3)
  obtain r1 e1 s1 where 1: "child_set_controlling_tty E (l_slave L) s0 = (r1, e1, s1)" by (metis prod_cases3)
  obtain d e2 s2 where 2: "dup_terminal E (l_slave L) s1 = (d, e2, s2)" by (metis prod_cases3)
  let ?s = "close_extra_fds E (l_status_fd L) (program_fd_limit L)
    (if l_slave L > STDERR_FILENO \<and> l_slave L \<noteq> l_status_fd L then child_close (l_slave L) s2 else s2)"
  obtain r3 e3 s3 where 3: "change_directory E (l_directory L) ?s = (r3, e3, s3)" by (metis prod_cases3)
  obtain x e4 s4 where 4: "child_execve E s3 = (x, e4, s4)" by (metis prod_cases3)
  have ok: "\<not> r < 0" "\<not> r1 < 0" "d" "r3 = 0" "x" "s4 = s'"
    using assms unfolding program_start_def 0 1 2 Let_def case_prod_conv 3 4
    by (auto simp: child_fails_def split: if_splits)
  from 0 1 ok(1,2) obtain f where "c_fds s (l_slave L) = Some f" "c_fds s1 = c_fds s" "c_cloexec s1 = c_cloexec s"
    "c_mask_empty s1 = c_mask_empty s" "c_disposition s1 = c_disposition s" "c_session_leader s1" "c_tty s1 = Some f"
    by (auto simp: child_setsid_def child_check_def child_next_def child_set_controlling_tty_def
        split: if_splits option.splits)
  moreover have "dup_terminal E (l_slave L) s1 = (True, e2, s2)" using 2 ok(3) by simp
  moreover have "change_directory E (l_directory L) ?s = (0, e3, s3)" using 3 ok(4) by simp
  moreover have "child_execve E s3 = (True, 0, s')"
    using 4 ok(5,6) by (auto simp: child_execve_def child_next_def split: if_splits)
  ultimately show ?thesis by blast
qed

lemma program_descriptors:
  assumes "dup_terminal E slave s1 = (True, e1, s2)" and "STDERR_FILENO < slave" and "c_fds s1 slave = Some f"
    and "change_directory E directory (close_extra_fds E status_fd limit
      (if slave > STDERR_FILENO \<and> slave \<noteq> status_fd then child_close slave s2 else s2)) = (r, e3, s3)"
    and "child_execve E s3 = (True, 0, s')"
    and "\<forall>d. c_fds s1 d \<noteq> None \<longrightarrow> 0 \<le> d \<and> (d \<le> STDERR_FILENO \<or> d < limit)"
    and "c_fds s1 status_fd \<noteq> None \<longrightarrow> status_fd \<in> c_cloexec s1" and "STDERR_FILENO < status_fd"
  shows "c_fds s' = [0 \<mapsto> f, 1 \<mapsto> f, 2 \<mapsto> f]"
proof -
  have s2: "c_fds s2 = (c_fds s1)(0 \<mapsto> f, 1 \<mapsto> f, 2 \<mapsto> f)" "c_cloexec s2 = c_cloexec s1 - {0, 1, 2}"
    using dup_terminal_result [OF assms(1,2)] assms(3) by auto
  define s2' where "s2' = (if slave > STDERR_FILENO \<and> slave \<noteq> status_fd then child_close slave s2 else s2)"
  have s2': "closes (\<lambda>d. d = slave \<and> slave \<noteq> status_fd) s2 s2'"
    using child_close_closes [of slave s2] closes_none [of s2] assms(2)
    by (auto simp: s2'_def elim!: closes_cong)
  obtain P where P: "closes P s2' (close_extra_fds E status_fd limit s2')"
    "\<forall>d. P d \<longrightarrow> STDERR_FILENO < d \<and> d \<noteq> status_fd" "\<forall>d. 3 \<le> d \<and> d < limit \<and> d \<noteq> status_fd \<longrightarrow> P d"
    using close_extra_closes [of s2' E status_fd limit] by blast
  let ?Q = "\<lambda>d. d = slave \<and> slave \<noteq> status_fd \<or> P d"
  have Q: "closes ?Q s2 (close_extra_fds E status_fd limit s2')" by (rule closes_trans [OF s2' P(1)])
  have s3: "c_fds s3 = c_fds (close_extra_fds E status_fd limit s2')"
    "c_cloexec s3 = c_cloexec (close_extra_fds E status_fd limit s2')"
    using assms(4) unfolding s2'_def [symmetric]
    by (auto simp: change_directory_def child_chdir_def child_check_def child_next_def split: option.splits if_splits)
  have s': "c_fds s' d = (if d \<in> c_cloexec s3 then None else c_fds s3 d)" for d
    using assms(5) by (auto simp: child_execve_def child_next_def child_close_all_def split: if_splits)
  show ?thesis
  proof
    fix d
    have fds: "c_fds s3 d = (if ?Q d then None else c_fds s2 d)" using closes_fds [OF Q] s3(1) by simp
    consider "d \<in> {0, 1, 2}" | "d < 0" | "d = status_fd" "2 < d" | "2 < d" "d \<noteq> status_fd" by force
    then show "c_fds s' d = [0 \<mapsto> f, 1 \<mapsto> f, 2 \<mapsto> f] d"
    proof cases
      case 1
      then have "\<not> ?Q d" using P(2) assms(2) by auto
      moreover from this have "d \<notin> c_cloexec s3" using closes_cloexec [OF Q] s3(2) s2(2) 1 by auto
      ultimately show ?thesis using s' fds s2(1) 1 by auto
    next
      case 2
      then have "c_fds s1 d = None" using assms(6) by (metis linorder_not_le)
      then show ?thesis using s' fds s2(1) 2 by auto
    next
      case 3
      then have "\<not> ?Q d" using P(2) by auto
      then have "d \<in> c_cloexec s3 \<longleftrightarrow> d \<in> c_cloexec s1"
        using closes_cloexec [OF Q] s3(2) s2(2) 3(2) by auto
      then show ?thesis using s' fds s2(1) assms(7) 3 by auto
    next
      case 4
      then have "?Q d \<or> c_fds s1 d = None" using P(3) assms(6) by force
      then show ?thesis using s' fds s2(1) 4 by auto
    qed
  qed
qed


definition example_child_env :: child_env where
  "example_child_env =
     \<lparr>c_answer = (\<lambda>n. \<lparr>ca_fail = False, ca_errno = 0, ca_value = 100, ca_writes = []\<rparr>),
      c_close_range = False, c_nsig = 2, c_sigstop = 19, c_reserved = {}\<rparr>"

definition example_launch :: launch where
  "example_launch =
     \<lparr>l_status_fd = 3, l_slave = 5, l_exit1 = 7, l_release0 = 8, l_maximum_fd = 9,
      l_open_fds = \<lparr>fl_buffer = False, fl_size = 0\<rparr>, l_filled = 0, l_entries = [], l_directory = None\<rparr>"

definition example_child :: child_state where
  "example_child =
     \<lparr>c_fds = (\<lambda>d. if 0 \<le> d \<and> d < 9 then Some (nat d + 1) else None), c_cloexec = {3, 5, 7, 8},
      c_disposition = (\<lambda>_. SigHandler 1), c_mask_empty = False, c_session_leader = False, c_tty = None,
      c_directory = None, c_written = [], c_time = 0\<rparr>"


end
