(* ===== verification/Spec2Isabelle.thy ===== *)
theory Spec2Isabelle
  imports Pty_Prelude Pty_Error Pty_Event Debug_Stats Session_Core Write_Queue_Spec Write_Queue
    Output_Credit Interleaving Unix_State Unix_Session Unix_System Unix_Refs Unix_Once Unix_Runs Unix_Events
    C_Memory Win_CommandLine Win_Environment
    Unix_Options Unix_Path Unix_Spawn Spawn_Resources Unix_Child Child_Facts
begin

text \<open>
  The native backend of \<open>flutter_pty2\<close> (the C code under \<open>src/src\<close>).
\<close>

end
